(* ===== verification/Cosim_Prelude.thy ===== *)
theory Cosim_Prelude
  imports Main "HOL-Library.Word"
begin

text \<open>
  Shared vocabulary of the development: the machine types of the C sources, the outcomes a
  C function can have (return, \<open>exit\<close>, failed \<open>assert\<close>, undefined behaviour, a loop that never
  ends), the state-passing programs built from them, the \<open>while (1)\<close> loop, byte strings read
  and written in the little-endian order of the x86-64 hosts the program runs on, and
  \<open>memcpy\<close> with its bounds.  Everything here is generic: no definition models a function of
  the repository, the component theories do.
\<close>

unbundle bit_operations_syntax

named_theorems cprog_simps \<open>unfolding rules of the program combinators\<close>
named_theorems layout_simps \<open>lengths and slices of laid-out structures\<close>

type_synonym byte = "8 word"
type_synonym u8 = "8 word"
type_synonym u16 = "16 word"
type_synonym u32 = "32 word"
type_synonym u64 = "64 word"

section \<open>Outcomes and programs\<close>

text \<open>
  \<open>Done\<close> is a normal return, \<open>Exited n\<close> is \<open>exit(n)\<close>, \<open>Aborted\<close> a failed \<open>assert\<close>,
  \<open>Undefined\<close> an operation C gives no meaning to (an out-of-bounds copy, a division by zero, an
  oversized shift), \<open>Diverges\<close> a loop that never leaves.  The state reached is kept in every
  case, so that what was sent before a failure can be stated.
\<close>

datatype 'a outcome = Done 'a | Exited int | Aborted | Undefined | Diverges

type_synonym ('s, 'a) cprog = "'s \<Rightarrow> 'a outcome \<times> 's"

definition retC :: "'a \<Rightarrow> ('s, 'a) cprog" where
  "retC a = (\<lambda>s. (Done a, s))"

definition bindC :: "('s, 'a) cprog \<Rightarrow> ('a \<Rightarrow> ('s, 'b) cprog) \<Rightarrow> ('s, 'b) cprog" where
  "bindC m f = (\<lambda>s. case m s of (r, s') \<Rightarrow>
     (case r of Done a \<Rightarrow> f a s'
      | Exited c \<Rightarrow> (Exited c, s')
      | Aborted \<Rightarrow> (Aborted, s')
      | Undefined \<Rightarrow> (Undefined, s')
      | Diverges \<Rightarrow> (Diverges, s')))"

definition thenC :: "('s, 'a) cprog \<Rightarrow> ('s, 'b) cprog \<Rightarrow> ('s, 'b) cprog" where
  "thenC m n = bindC m (\<lambda>_. n)"

definition skipC :: "('s, unit) cprog" where
  "skipC = retC ()"

definition exitC :: "int \<Rightarrow> ('s, 'a) cprog" where
  "exitC c = (\<lambda>s. (Exited c, s))"

definition assertC :: "bool \<Rightarrow> ('s, unit) cprog" where
  "assertC b = (\<lambda>s. (if b then Done () else Aborted, s))"

definition readC :: "('s \<Rightarrow> 'a) \<Rightarrow> ('s, 'a) cprog" where
  "readC f = (\<lambda>s. (Done (f s), s))"

definition modifyC :: "('s \<Rightarrow> 's) \<Rightarrow> ('s, unit) cprog" where
  "modifyC f = (\<lambda>s. (Done (), f s))"

definition definedC :: "'a option \<Rightarrow> ('s, 'a) cprog" where
  "definedC x = (\<lambda>s. (case x of None \<Rightarrow> Undefined | Some a \<Rightarrow> Done a, s))"

definition whenC :: "bool \<Rightarrow> ('s, unit) cprog \<Rightarrow> ('s, unit) cprog" where
  "whenC b m = (if b then m else skipC)"

lemmas [cprog_simps] =
  retC_def thenC_def skipC_def exitC_def assertC_def readC_def modifyC_def whenC_def

lemma bindC_Done [cprog_simps]: "m s = (Done a, s') \<Longrightarrow> bindC m f s = f a s'"
  by (simp add: bindC_def)

lemma bindC_ret [cprog_simps]: "bindC (\<lambda>s. (Done (g s), h s)) f s = f (g s) (h s)"
  by (simp add: bindC_def)

lemma bindC_fail [cprog_simps]:
  "m s = (Exited c, s') \<Longrightarrow> bindC m f s = (Exited c, s')"
  "m s = (Aborted, s') \<Longrightarrow> bindC m f s = (Aborted, s')"
  "m s = (Undefined, s') \<Longrightarrow> bindC m f s = (Undefined, s')"
  "m s = (Diverges, s') \<Longrightarrow> bindC m f s = (Diverges, s')"
  by (simp_all add: bindC_def)

lemma bindC_retC: "bindC m retC = m"
  by (rule ext) (simp add: bindC_def retC_def split: prod.splits outcome.splits)

lemma bindC_assoc: "bindC (bindC m f) g = bindC m (\<lambda>x. bindC (f x) g)"
  by (rule ext) (simp add: bindC_def split: prod.splits outcome.splits)

lemma definedC_Some [cprog_simps]: "definedC (Some a) = retC a"
  by (simp add: definedC_def retC_def)

lemma definedC_None [cprog_simps]: "definedC None s = (Undefined, s)"
  by (simp add: definedC_def)

text \<open>
  Inversion: a sequence that returns has run both halves; its half-way state is the one
  the first half reached.
\<close>

lemma bindC_DoneE:
  assumes "bindC m f s = (Done b, s'')"
  obtains a s' where "m s = (Done a, s')" "f a s' = (Done b, s'')"
  using assms by (auto simp: bindC_def split: prod.splits outcome.splits)

text \<open>
  A property of the state a program keeps, however it ends, with one rule per combinator.
\<close>

definition keepsC :: "('s \<Rightarrow> bool) \<Rightarrow> ('s, 'a) cprog \<Rightarrow> bool" where
  "keepsC P m \<longleftrightarrow> (\<forall>s. P s \<longrightarrow> P (snd (m s)))"

lemma keepsCD: "keepsC P m \<Longrightarrow> P s \<Longrightarrow> P (snd (m s))"
  by (simp add: keepsC_def)

lemma keeps_basic: "keepsC P (retC a)" "keepsC P skipC" "keepsC P (exitC c)" "keepsC P (assertC b)"
  "keepsC P (definedC x)" "keepsC P (readC f)"
  by (simp_all add: keepsC_def cprog_simps definedC_def)

lemma keeps_bind: "keepsC P m \<Longrightarrow> (\<And>a. keepsC P (k a)) \<Longrightarrow> keepsC P (bindC m k)"
  by (auto simp: keepsC_def bindC_def split: prod.splits outcome.splits)

lemma keeps_then: "keepsC P m \<Longrightarrow> keepsC P n \<Longrightarrow> keepsC P (thenC m n)"
  by (simp add: thenC_def keeps_bind)

lemma keeps_if: "(b \<Longrightarrow> keepsC P m) \<Longrightarrow> (\<not> b \<Longrightarrow> keepsC P n) \<Longrightarrow> keepsC P (if b then m else n)"
  by simp

lemma keeps_prod: "(\<And>a b. keepsC P (k a b)) \<Longrightarrow> keepsC P (case x of (a, b) \<Rightarrow> k a b)"
  by (cases x) simp

lemmas keeps_rules = keeps_basic keeps_then keeps_if keeps_prod

section \<open>Loops\<close>

text \<open>
  \<open>while (1) { ... }\<close>: the body answers \<open>None\<close> to go round again (\<open>continue\<close>, or the end of the
  body) and \<open>Some b\<close> to leave (\<open>break\<close>, or a \<open>return\<close> from inside).  The loop may run for ever,
  so it is a partial function; \<open>loopC\<close> reports that as \<open>Diverges\<close>.
\<close>

partial_function (option) loop_opt ::
  "('s \<Rightarrow> 'b option outcome \<times> 's) \<Rightarrow> 's \<Rightarrow> ('b outcome \<times> 's) option" where
  "loop_opt body s = (case body s of (r, s') \<Rightarrow>
     (case r of Done k \<Rightarrow> (case k of None \<Rightarrow> loop_opt body s' | Some b \<Rightarrow> Some (Done b, s'))
      | Exited c \<Rightarrow> Some (Exited c, s')
      | Aborted \<Rightarrow> Some (Aborted, s')
      | Undefined \<Rightarrow> Some (Undefined, s')
      | Diverges \<Rightarrow> Some (Diverges, s')))"

definition loopC :: "('s, 'b option) cprog \<Rightarrow> ('s, 'b) cprog" where
  "loopC body = (\<lambda>s. case loop_opt body s of None \<Rightarrow> (Diverges, s) | Some r \<Rightarrow> r)"

lemma loopC_leave: "body s = (Done (Some b), s') \<Longrightarrow> loopC body s = (Done b, s')"
  by (simp add: loopC_def loop_opt.simps [of body s])

lemma loopC_fail:
  "body s = (Exited c, s') \<Longrightarrow> loopC body s = (Exited c, s')"
  "body s = (Aborted, s') \<Longrightarrow> loopC body s = (Aborted, s')"
  "body s = (Undefined, s') \<Longrightarrow> loopC body s = (Undefined, s')"
  by (simp_all add: loopC_def loop_opt.simps [of body s])

lemma loopC_again:
  assumes "body s = (Done None, s')" and "fst (loopC body s') \<noteq> Diverges"
  shows "loopC body s = loopC body s'"
  using assms by (auto simp: loopC_def loop_opt.simps [of body s] split: option.splits)

text \<open>
  A loop that makes the measure smaller whenever it goes round leaves, provided its body does
  not itself diverge.
\<close>

lemma loopC_terminates:
  assumes body: "\<And>s. I s \<Longrightarrow> fst (body s) \<noteq> Diverges"
    and again: "\<And>s s'. I s \<Longrightarrow> body s = (Done None, s') \<Longrightarrow> I s' \<and> M s' < (M s :: nat)"
    and "I s"
  shows "fst (loopC body s) \<noteq> Diverges"
  using \<open>I s\<close>
proof (induction s rule: measure_induct_rule [where f = M])
  case (less s)
  obtain r s' where b: "body s = (r, s')" by (cases "body s")
  show ?case
  proof (cases "r = Done None")
    case True
    with b again [OF less.prems] have "fst (loopC body s') \<noteq> Diverges"
      by (intro less.IH) auto
    with b True loopC_again [of body s s'] show ?thesis by simp
  next
    case False
    with b body [OF less.prems] show ?thesis
      by (auto simp: loopC_def loop_opt.simps [of body s] split: outcome.splits option.splits)
  qed
qed

text \<open>A loop that can always go round again never leaves.\<close>

lemma loop_opt_diverges:
  assumes round: "\<And>s. I s \<Longrightarrow> \<exists>s'. body s = (Done None, s') \<and> I s'" and "I s"
  shows "loop_opt body s = None"
proof (rule ccontr)
  assume "loop_opt body s \<noteq> None"
  then obtain r where r: "loop_opt body s = Some r" by blast
  have "(\<forall>s. I s \<longrightarrow> (\<exists>s'. body s = (Done None, s') \<and> I s')) \<longrightarrow> \<not> I s"
  proof (rule loop_opt.raw_induct
      [where P = "\<lambda>body s r. (\<forall>s. I s \<longrightarrow> (\<exists>s'. body s = (Done None, s') \<and> I s')) \<longrightarrow> \<not> I s", OF _ r])
    fix loop body s r
    assume IH: "\<And>body s r. loop body s = Some r \<Longrightarrow>
        (\<forall>s. I s \<longrightarrow> (\<exists>s'. body s = (Done None, s') \<and> I s')) \<longrightarrow> \<not> I s"
      and eq: "(case body s of (r, s') \<Rightarrow>
         (case r of Done k \<Rightarrow> (case k of None \<Rightarrow> loop body s' | Some b \<Rightarrow> Some (Done b, s'))
          | Exited c \<Rightarrow> Some (Exited c, s') | Aborted \<Rightarrow> Some (Aborted, s')
          | Undefined \<Rightarrow> Some (Undefined, s') | Diverges \<Rightarrow> Some (Diverges, s'))) = Some r"
    show "(\<forall>s. I s \<longrightarrow> (\<exists>s'. body s = (Done None, s') \<and> I s')) \<longrightarrow> \<not> I s"
    proof (intro impI notI)
      assume all: "\<forall>s. I s \<longrightarrow> (\<exists>s'. body s = (Done None, s') \<and> I s')" and "I s"
      then obtain s' where "body s = (Done None, s')" and "I s'" by blast
      with eq have "loop body s' = Some r" by simp
      with IH all \<open>I s'\<close> show False by blast
    qed
  qed
  with round \<open>I s\<close> show False by blast
qed

lemma loopC_diverges:
  assumes "\<And>s. I s \<Longrightarrow> \<exists>s'. body s = (Done None, s') \<and> I s'" and "I s"
  shows "loopC body s = (Diverges, s)"
  using loop_opt_diverges [of I body s] assms by (simp add: loopC_def)

text \<open>
  A loop that works off a queue: \<open>Q\<close> reads the queue in a state, \<open>V\<close> what is observed of it, and the
  body takes one acceptable element off the queue and does \<open>serve\<close> with it.  The elements in front
  are served in order; what happens then is what the body does on the rest.
\<close>

lemma loopC_works_off:
  assumes step: "\<And>s x xs. I s \<Longrightarrow> Q s = x # xs \<Longrightarrow> ok x \<Longrightarrow>
      \<exists>s'. body s = (Done None, s') \<and> I s' \<and> Q s' = xs \<and> V s' = serve x (V s)"
  shows "I s \<Longrightarrow> Q s = xs @ rest \<Longrightarrow> list_all ok xs \<Longrightarrow>
    \<exists>s'. I s' \<and> Q s' = rest \<and> V s' = fold serve xs (V s)
      \<and> (fst (loopC body s') \<noteq> Diverges \<longrightarrow> loopC body s = loopC body s')"
proof (induction xs arbitrary: s)
  case Nil
  then show ?case by (intro exI [of _ s]) simp
next
  case (Cons x xs)
  then have "Q s = x # (xs @ rest)" and "ok x" by simp_all
  from step [OF Cons.prems(1) this] obtain s1 where s1: "body s = (Done None, s1)" "I s1"
    "Q s1 = xs @ rest" "V s1 = serve x (V s)" by blast
  from Cons.IH [OF s1(2,3)] Cons.prems obtain s2 where "I s2" "Q s2 = rest"
    "V s2 = fold serve xs (V s1)" "fst (loopC body s2) \<noteq> Diverges \<longrightarrow> loopC body s1 = loopC body s2"
    by auto
  with s1 loopC_again [of body, OF s1(1)] show ?case by (intro exI [of _ s2]) auto
qed

lemma loopC_drains:
  assumes step: "\<And>s x xs. I s \<Longrightarrow> Q s = x # xs \<Longrightarrow> ok x \<Longrightarrow>
      \<exists>s'. body s = (Done None, s') \<and> I s' \<and> Q s' = xs \<and> V s' = serve x (V s)"
    and stop: "\<And>s. I s \<Longrightarrow> Q s = [] \<Longrightarrow>
      \<exists>s'. body s = (Done (Some r), s') \<and> I s' \<and> Q s' = [] \<and> V s' = V s"
    and "I s" and "list_all ok (Q s)"
  shows "\<exists>s'. loopC body s = (Done r, s') \<and> I s' \<and> Q s' = [] \<and> V s' = fold serve (Q s) (V s)"
proof -
  from loopC_works_off [of I Q ok body V serve s "Q s" "[]", OF step] assms(3,4) obtain s1 where
    s1: "I s1" "Q s1 = []" "V s1 = fold serve (Q s) (V s)"
      "fst (loopC body s1) \<noteq> Diverges \<longrightarrow> loopC body s = loopC body s1" by auto
  from stop [OF s1(1,2)] obtain s2 where s2: "body s1 = (Done (Some r), s2)" "I s2" "Q s2 = []"
    "V s2 = V s1" by blast
  with loopC_leave [of body, OF s2(1)] s1 show ?thesis by (intro exI [of _ s2]) simp
qed

lemma fold_snoc: "fold (\<lambda>x v. v @ [f x]) xs v = v @ map f xs"
  by (induction xs arbitrary: v) simp_all

section \<open>Bytes\<close>

fun nat_le :: "nat \<Rightarrow> nat \<Rightarrow> byte list" where
  "nat_le 0 x = []"
| "nat_le (Suc n) x = of_nat (x mod 256) # nat_le n (x div 256)"

fun le_nat :: "byte list \<Rightarrow> nat" where
  "le_nat [] = 0"
| "le_nat (b # bs) = unat b + 256 * le_nat bs"

text \<open>A word stored in \<open>n\<close> bytes, least significant first, and the word such bytes hold.\<close>

definition to_le :: "nat \<Rightarrow> 'a::len word \<Rightarrow> byte list" where
  "to_le n w = nat_le n (unat w)"

definition of_le :: "byte list \<Rightarrow> 'a::len word" where
  "of_le bs = of_nat (le_nat bs)"

lemma nat_le_numeral:
  "nat_le (numeral k) x = of_nat (x mod 256) # nat_le (pred_numeral k) (x div 256)"
  by (simp only: numeral_eq_Suc [of k] nat_le.simps)

lemma length_nat_le [simp, layout_simps]: "length (nat_le n x) = n"
  by (induction n arbitrary: x) auto

lemma length_to_le [simp, layout_simps]: "length (to_le n w) = n"
  by (simp add: to_le_def)

lemma unat_of_nat_byte [simp]: "unat (of_nat (x mod 256) :: byte) = x mod 256"
  by (simp add: unat_of_nat)

lemma le_nat_nat_le: "le_nat (nat_le n x) = x mod 256 ^ n"
proof (induction n arbitrary: x)
  case 0
  show ?case by simp
next
  case (Suc n)
  have "x mod (256 * 256 ^ n) = 256 * (x div 256 mod 256 ^ n) + x mod 256"
    by (rule mod_mult2_eq)
  with Suc show ?case by simp
qed

lemma le_nat_bound: "le_nat bs < 256 ^ length bs"
proof (induction bs)
  case Nil
  show ?case by simp
next
  case (Cons b bs)
  have "unat b < 256" using unsigned_less [of b] by simp
  moreover from Cons have "Suc (le_nat bs) \<le> 256 ^ length bs" by simp
  then have "256 * Suc (le_nat bs) \<le> 256 * 256 ^ length bs" by (rule mult_le_mono2)
  ultimately show ?case by simp
qed

lemma nat_le_le_nat: "nat_le (length bs) (le_nat bs) = bs"
proof (induction bs)
  case Nil
  show ?case by simp
next
  case (Cons b bs)
  have b: "unat b < 256" using unsigned_less [of b] by simp
  then have "(unat b + 256 * le_nat bs) div 256 = le_nat bs"
    and "(unat b + 256 * le_nat bs) mod 256 = unat b" by simp_all
  with Cons show ?case by simp
qed

lemma take_nat_le: "k \<le> n \<Longrightarrow> take k (nat_le n x) = nat_le k x"
proof (induction n arbitrary: k x)
  case 0
  then show ?case by simp
next
  case (Suc n)
  then show ?case by (cases k) auto
qed

lemma nat_le_mod: "nat_le n (x mod 256 ^ n) = nat_le n x"
  by (metis le_nat_nat_le length_nat_le nat_le_le_nat)

lemma of_le_to_le:
  fixes w :: "'a::len word"
  assumes "LENGTH('a) \<le> 8 * n"
  shows "of_le (to_le n w) = w"
proof -
  have "unat w < 2 ^ LENGTH('a)" by (rule unsigned_less)
  also have "\<dots> \<le> 2 ^ (8 * n)" using assms by (intro power_increasing) simp_all
  also have "(2::nat) ^ (8 * n) = 256 ^ n" by (simp add: power_mult)
  finally show ?thesis by (simp add: of_le_def to_le_def le_nat_nat_le)
qed

lemma of_le_to_le_std [simp]:
  "of_le (to_le 2 (a :: u16)) = a"
  "of_le (to_le 4 (b :: u32)) = b"
  "of_le (to_le 8 (c :: u64)) = c"
  by (rule of_le_to_le, simp)+

lemma unat_shiftr1 [simp]: "unat (drop_bit (Suc 0) (x :: 'a::len word)) = unat x div 2"
  by (subst unat_drop_bit_eq) (simp add: drop_bit_eq_div)

text \<open>Conversions between the widths that do not lose bits.\<close>

lemma unat_ucast_fits:
  "unat w < 2 ^ LENGTH('b) \<Longrightarrow> unat (ucast (w :: 'a::len word) :: 'b::len word) = unat w"
  by (simp add: unsigned_ucast_eq take_bit_nat_eq_self)

lemma unat_ucast_up:
  assumes "LENGTH('a) \<le> LENGTH('b)"
  shows "unat (ucast (w :: 'a::len word) :: 'b::len word) = unat w"
proof (rule unat_ucast_fits)
  have "unat w < 2 ^ LENGTH('a)" by (rule unsigned_less)
  also have "\<dots> \<le> 2 ^ LENGTH('b)" using assms by (rule power_increasing) simp
  finally show "unat w < 2 ^ LENGTH('b)" .
qed

lemma unat_ucast_std [simp]:
  "unat (ucast (a :: u32) :: u64) = unat a" "unat (ucast (b :: u16) :: u64) = unat b"
  "unat (ucast (c :: u8) :: u64) = unat c" "unat (ucast (c :: u8) :: u32) = unat c"
  by (simp_all add: unat_ucast_up)

text \<open>Reading fewer bytes than were stored keeps the low part of the value.\<close>

lemma of_le_take_to_le:
  "k \<le> n \<Longrightarrow> of_le (take k (to_le n w)) = of_nat (unat w mod 256 ^ k)"
  by (simp add: of_le_def to_le_def take_nat_le le_nat_nat_le)

lemma of_le_take_bit:
  assumes "k \<le> n"
  shows "of_le (take k (to_le n w)) = take_bit (8 * k) (w :: 'a::len word)"
proof -
  have "unat (take_bit (8 * k) w) = take_bit (8 * k) (unat w)" by (rule unsigned_take_bit_eq)
  also have "\<dots> = unat w mod 2 ^ (8 * k)" by (rule take_bit_eq_mod)
  also have "(2::nat) ^ (8 * k) = 256 ^ k" by (simp add: power_mult)
  finally have "unat w mod 256 ^ k = unat (take_bit (8 * k) w)" by simp
  with assms show ?thesis by (simp add: of_le_take_to_le)
qed

section \<open>Slices and copies\<close>

definition bytes_at :: "nat \<Rightarrow> nat \<Rightarrow> 'a list \<Rightarrow> 'a list" where
  "bytes_at off n xs = take n (drop off xs)"

lemma length_bytes_at [layout_simps]: "off + n \<le> length xs \<Longrightarrow> length (bytes_at off n xs) = n"
  by (simp add: bytes_at_def)

lemma nth_bytes_at: "off + n \<le> length xs \<Longrightarrow> i < n \<Longrightarrow> bytes_at off n xs ! i = xs ! (off + i)"
  by (simp add: bytes_at_def)

lemma bytes_at_append: "off + n \<le> length xs \<Longrightarrow> bytes_at off n (xs @ ys) = bytes_at off n xs"
  by (simp add: bytes_at_def)

text \<open>
  \<open>memcpy(dst + d, src + s, n)\<close> between two arrays: \<open>None\<close> when it would read or write past
  the end of either, which C leaves undefined.
\<close>

definition memcpy :: "'a list \<Rightarrow> nat \<Rightarrow> 'a list \<Rightarrow> nat \<Rightarrow> nat \<Rightarrow> 'a list option" where
  "memcpy dst d src s n =
     (if d + n \<le> length dst \<and> s + n \<le> length src
      then Some (take d dst @ bytes_at s n src @ drop (d + n) dst) else None)"

lemma memcpy_length: "memcpy dst d src s n = Some r \<Longrightarrow> length r = length dst"
  by (auto simp: memcpy_def bytes_at_def split: if_splits)

lemma memcpy_nth:
  assumes "memcpy dst d src s n = Some r" and "i < length dst"
  shows "r ! i = (if d \<le> i \<and> i < d + n then src ! (s + (i - d)) else dst ! i)"
proof -
  from assms(1) have r: "r = take d dst @ bytes_at s n src @ drop (d + n) dst"
    and dn: "d + n \<le> length dst" and sn: "s + n \<le> length src"
    by (auto simp: memcpy_def split: if_splits)
  have ls: "length (bytes_at s n src) = n" using sn by (rule length_bytes_at)
  consider "i < d" | "d \<le> i" "i < d + n" | "d + n \<le> i" by linarith
  then show ?thesis
  proof cases
    case 1
    with dn show ?thesis by (simp add: r nth_append)
  next
    case 2
    then have "i - d < n" by linarith
    with 2 dn ls sn show ?thesis by (simp add: r nth_append nth_bytes_at)
  next
    case 3
    then have "d + n + (i - d - n) = i" and "\<not> i - d < n" by linarith+
    with 3 dn ls assms(2) show ?thesis by (simp add: r nth_append)
  qed
qed

lemma memcpy_bytes_at:
  "memcpy dst d src s n = Some r \<Longrightarrow> bytes_at d n r = bytes_at s n src"
  by (auto simp: memcpy_def bytes_at_def split: if_splits)

lemma memcpy_None_iff:
  "memcpy dst d src s n = None \<longleftrightarrow> length dst < d + n \<or> length src < s + n"
  by (auto simp: memcpy_def)

section \<open>Bits\<close>

text \<open>The leading bit of a word, and the test \<open>x & (x - 1)\<close> for powers of two.\<close>

lemma bit_top:
  fixes y :: "'a::len word"
  assumes "2 ^ r \<le> unat y" "unat y < 2 ^ Suc r"
  shows "bit y r"
proof -
  have "unat y div 2 ^ r = 1" using assms by (intro div_nat_eqI) simp_all
  then have "bit (unat y) r" by (simp add: bit_iff_odd)
  then show ?thesis by (simp add: bit_unsigned_iff)
qed

lemma and_pred_pow2:
  fixes x :: "'a::len word"
  assumes "2 ^ r \<le> unat x" "unat x < 2 ^ Suc r"
  shows "x AND (x - 1) = 0 \<longleftrightarrow> unat x = 2 ^ r"
proof
  assume u: "unat x = 2 ^ r"
  have "of_nat (unat x) = x" by simp
  then have x: "x = 2 ^ r" using u by simp
  show "x AND (x - 1) = 0" unfolding x
    by (rule bit_eqI) (auto simp: bit_and_iff bit_exp_iff bit_mask_iff simp flip: mask_eq_exp_minus_1)
next
  assume z: "x AND (x - 1) = 0"
  show "unat x = 2 ^ r"
  proof (rule ccontr)
    assume "unat x \<noteq> 2 ^ r"
    with assms have "2 ^ r \<le> unat x - 1" by simp
    moreover have "unat (x - 1) = unat x - 1" using assms by (intro unat_minus_one) auto
    ultimately have "bit (x - 1) r" using bit_top[of r "x - 1"] assms by simp
    moreover have "bit x r" using assms by (rule bit_top)
    ultimately have "bit (x AND (x - 1)) r" by (simp add: bit_and_iff)
    with z show False by simp
  qed
qed

text \<open>A run of \<open>n\<close> ones moved up by \<open>k\<close> lanes.\<close>

lemma bit_ones_shifted:
  "bit (push_bit k (2 ^ n - 1) :: 'a::len word) i \<longleftrightarrow> i < LENGTH('a) \<and> k \<le> i \<and> i < k + n"
proof -
  have "2 ^ n - 1 = (mask n :: 'a word)" by (simp add: mask_eq_exp_minus_1)
  then show ?thesis by (auto simp: bit_push_bit_iff bit_mask_iff)
qed

text \<open>Offsets from the start of an aligned block, without wrap-around trouble.\<close>

lemma unat_sub_range:
  fixes l :: "'a::len word"
  assumes "k + n < 2 ^ LENGTH('a)"
  shows "unat (l - of_nat k) < n \<longleftrightarrow> k \<le> unat l \<and> unat l < k + n"
proof (cases "k \<le> unat l")
  case True
  have "unat (of_nat k :: 'a word) = k" using assms by (simp add: unat_of_nat)
  with True have "unat (l - of_nat k) = unat l - k" by (simp add: unat_sub word_le_nat_alt)
  with True show ?thesis by linarith
next
  case False
  have k: "unat (of_nat k :: 'a word) = k" using assms by (simp add: unat_of_nat)
  with False have "unat (l - of_nat k) = unat l + 2 ^ LENGTH('a) - k"
    by (simp add: unat_sub_if_size word_size)
  with False assms show ?thesis by linarith
qed

text \<open>Rounding up: the number of blocks of \<open>b\<close> that hold \<open>n\<close> elements, minus one.\<close>

lemma ceil_div_pred:
  assumes "0 < (b :: nat)" and "0 < n"
  shows "(if n mod b = 0 then n div b - 1 else n div b) = (n - 1) div b"
proof (cases "n mod b = 0")
  case True
  then obtain k where "n = b * k" by auto
  with assms have "0 < k" by (cases k) auto
  then obtain j where "k = Suc j" by (cases k) auto
  with \<open>n = b * k\<close> assms have "n - 1 = b * j + (b - 1)" by simp
  then have "(n - 1) div b = j + (b - 1) div b" using assms by (metis div_mult_self4 less_numeral_extra(3))
  with \<open>n = b * k\<close> \<open>k = Suc j\<close> assms True show ?thesis by simp
next
  case False
  then have "n = b * (n div b) + n mod b" and "0 < n mod b" by simp_all
  then have "n - 1 = b * (n div b) + (n mod b - 1)" by linarith
  moreover have "n mod b - 1 < b" using assms mod_less_divisor [of b n] by linarith
  ultimately have "(n - 1) div b = n div b"
    by (metis add.commute add_0 div_less div_mult_self2 assms(1) less_numeral_extra(3))
  with False show ?thesis by simp
qed

text \<open>Keeping the low half of a 64-bit word commutes with addition.\<close>

lemma ucast_u64_u32: "(ucast (x :: u64) :: u32) = of_nat (unat x)"
  by simp

lemma ucast_of_nat_u32: "(ucast (of_nat n :: u64) :: u32) = of_nat n"
proof -
  have "unat (of_nat n :: u64) = take_bit 64 n" by (simp add: unat_of_nat take_bit_eq_mod)
  then have "(ucast (of_nat n :: u64) :: u32) = of_nat (take_bit 64 n)" by (simp only: ucast_u64_u32)
  also have "\<dots> = of_nat n" by (simp only: word_of_nat_eq_iff take_bit_take_bit) simp
  finally show ?thesis .
qed

lemma ucast_add_u32: "(ucast (x + y :: u64) :: u32) = ucast x + ucast y"
proof -
  have "unat (x + y) = take_bit 64 (unat x + unat y)"
    by (simp add: unat_word_ariths take_bit_eq_mod)
  then have "(ucast (x + y) :: u32) = of_nat (take_bit 64 (unat x + unat y))"
    by (simp only: ucast_u64_u32)
  also have "\<dots> = of_nat (unat x + unat y)"
    by (simp only: word_of_nat_eq_iff take_bit_take_bit) simp
  finally show ?thesis by (simp only: ucast_u64_u32 of_nat_add)
qed

lemma of_nat_inject_u32: "i < 2 ^ 32 \<Longrightarrow> j < 2 ^ 32 \<Longrightarrow> (of_nat i :: u32) = of_nat j \<longleftrightarrow> i = j"
  by (simp add: word_of_nat_eq_iff take_bit_nat_eq_self)

end
