(* ===== verification/Acc_Protocol.thy ===== *)
theory Acc_Protocol
  imports Cosim_Prelude
begin

text \<open>
  The protocol header \<^verbatim>\<open>acc.h\<close>, shared by the QEMU device and the three DPI bridges: the
  operation codes, the message structures \<open>ACCData\<close> and \<open>ACCNICData\<close>, the configuration
  \<open>BARConf\<close>/\<open>ACCConf\<close>, and the endpoint strings built from \<open>SOCK_BASE\<close>.  Messages cross the
  sockets as raw memory images, so each structure has its x86-64 layout (offsets, padding,
  \<open>sizeof\<close>) and the decoder that casting a frame to the structure amounts to.  The locale
  \<open>wire_struct\<close> is what every client of a message relies on: the image has the size the
  receivers compare with, and reading it back gives the fields that were stored.  The programs
  contain no codec: \<open>encode\<close> stands for handing the address of a structure to \<open>zframe_new\<close>, \<open>decode\<close>
  for the cast of \<open>zframe_data\<close> and the member accesses behind it.  The C
  library's \<open>atoi\<close> and the \<open>%d\<close> conversion of \<open>sprintf\<close> are here too, as all four programs turn
  \<open>NPU_COSIM_PORT\<close> into endpoints with them.
\<close>

section \<open>Constants and enumerations\<close>

definition BUFF_SIZE :: nat where
  "BUFF_SIZE = 4096"

lemma BUFF_SIZE_eq [simp, layout_simps]: "BUFF_SIZE = 4096"
  by (simp add: BUFF_SIZE_def)

text \<open>
  The enumerators of \<open>ACCOp\<close> and \<open>QEMUOp\<close>.  A field of enumeration type holds an \<open>unsigned int\<close>,
  and nothing checks that what arrives in it is an enumerator, so structures store the number
  and \<open>ACCOp_val\<close> gives each enumerator its number.
\<close>

datatype ACCOp = NOOP | READ | WRITE | INTR | INIT

fun ACCOp_val :: "ACCOp \<Rightarrow> u32" where
  "ACCOp_val NOOP = 0"
| "ACCOp_val READ = 1"
| "ACCOp_val WRITE = 2"
| "ACCOp_val INTR = 3"
| "ACCOp_val INIT = 4"

datatype QEMUOp = M_RD | M_WR | S_RD

fun QEMUOp_val :: "QEMUOp \<Rightarrow> u32" where
  "QEMUOp_val M_RD = 1"
| "QEMUOp_val M_WR = 2"
| "QEMUOp_val S_RD = 3"

section \<open>Messages and configuration\<close>

record ACCData =
  acc_id :: u32
  data_size :: u32
  address :: u64
  acc_op :: u32
  bar_num :: u8
  acc_buf :: "byte list"
  vector :: u32

record ACCNICData =
  nic_last :: u8
  nic_size :: u32
  nic_id :: u32
  nic_buf :: "byte list"

record BARConf =
  is_valid :: bool
  bar_size :: u64
  bar_offset :: u64

record ACCConf =
  bars_conf :: "BARConf list"
  is_64 :: bool
  prefetch :: bool
  device_id :: u16
  vendor_id :: u16
  msix_vec_num :: u16
  msix_table_bar :: u16
  msix_table_offset :: u64
  msix_pba_bar :: u16
  msix_pba_offset :: u64

text \<open>The fixed array lengths of the structures.\<close>

definition wf_ACCData :: "ACCData \<Rightarrow> bool" where
  "wf_ACCData a \<longleftrightarrow> length (acc_buf a) = BUFF_SIZE"

definition wf_ACCNICData :: "ACCNICData \<Rightarrow> bool" where
  "wf_ACCNICData a \<longleftrightarrow> length (nic_buf a) = BUFF_SIZE"

definition wf_ACCConf :: "ACCConf \<Rightarrow> bool" where
  "wf_ACCConf c \<longleftrightarrow> length (bars_conf c) = 6"

text \<open>\<open>memset(&x, 0, sizeof x)\<close>.\<close>

definition zero_ACCData :: ACCData where
  "zero_ACCData = \<lparr>acc_id = 0, data_size = 0, address = 0, acc_op = 0, bar_num = 0,
     acc_buf = replicate BUFF_SIZE 0, vector = 0\<rparr>"

definition zero_ACCNICData :: ACCNICData where
  "zero_ACCNICData = \<lparr>nic_last = 0, nic_size = 0, nic_id = 0, nic_buf = replicate BUFF_SIZE 0\<rparr>"

lemma wf_zero [simp]: "wf_ACCData zero_ACCData" "wf_ACCNICData zero_ACCNICData"
  by (simp_all add: wf_ACCData_def wf_ACCNICData_def zero_ACCData_def zero_ACCNICData_def)

text \<open>Only the array of a message has a length to keep.\<close>

lemma wf_ACCData_update [simp]:
  "wf_ACCData (a\<lparr>acc_id := i\<rparr>) = wf_ACCData a" "wf_ACCData (a\<lparr>data_size := n\<rparr>) = wf_ACCData a"
  "wf_ACCData (a\<lparr>address := x\<rparr>) = wf_ACCData a" "wf_ACCData (a\<lparr>acc_op := b\<rparr>) = wf_ACCData a"
  "wf_ACCData (a\<lparr>bar_num := k\<rparr>) = wf_ACCData a" "wf_ACCData (a\<lparr>vector := v\<rparr>) = wf_ACCData a"
  by (simp_all add: wf_ACCData_def)

section \<open>Memory images\<close>

text \<open>
  \<open>ACCData\<close>: \<open>id\<close> at 0, \<open>data_size\<close> at 4, \<open>address\<close> at 8, \<open>op\<close> at 16, \<open>bar_num\<close> at 20, \<open>data\<close> at 21,
  three bytes of padding at 4117, \<open>vector\<close> at 4120, four bytes of tail padding at 4124.
  The padding keeps whatever the memory held, so the encoder takes it as an argument.
\<close>

definition sizeof_ACCData :: nat where
  "sizeof_ACCData = 4128"

definition encode_ACCData :: "byte list \<Rightarrow> ACCData \<Rightarrow> byte list" where
  "encode_ACCData pad a =
     to_le 4 (acc_id a) @ to_le 4 (data_size a) @ to_le 8 (address a) @ to_le 4 (acc_op a)
     @ [bar_num a] @ acc_buf a @ take 3 pad @ to_le 4 (vector a) @ drop 3 pad"

definition decode_ACCData :: "byte list \<Rightarrow> ACCData" where
  "decode_ACCData bs = \<lparr>acc_id = of_le (bytes_at 0 4 bs), data_size = of_le (bytes_at 4 4 bs),
     address = of_le (bytes_at 8 8 bs), acc_op = of_le (bytes_at 16 4 bs), bar_num = bs ! 20,
     acc_buf = bytes_at 21 BUFF_SIZE bs, vector = of_le (bytes_at 4120 4 bs)\<rparr>"

definition padding_ACCData :: "byte list \<Rightarrow> byte list" where
  "padding_ACCData bs = bytes_at 4117 3 bs @ bytes_at 4124 4 bs"

text \<open>
  \<open>ACCNICData\<close>: \<open>last\<close> at 0, three bytes of padding, \<open>size\<close> at 4, \<open>id\<close> at 8, \<open>data\<close> at 12.
\<close>

definition sizeof_ACCNICData :: nat where
  "sizeof_ACCNICData = 4108"

definition encode_ACCNICData :: "byte list \<Rightarrow> ACCNICData \<Rightarrow> byte list" where
  "encode_ACCNICData pad a =
     [nic_last a] @ pad @ to_le 4 (nic_size a) @ to_le 4 (nic_id a) @ nic_buf a"

definition decode_ACCNICData :: "byte list \<Rightarrow> ACCNICData" where
  "decode_ACCNICData bs = \<lparr>nic_last = bs ! 0, nic_size = of_le (bytes_at 4 4 bs),
     nic_id = of_le (bytes_at 8 4 bs), nic_buf = bytes_at 12 BUFF_SIZE bs\<rparr>"

definition padding_ACCNICData :: "byte list \<Rightarrow> byte list" where
  "padding_ACCNICData bs = bytes_at 1 3 bs"

text \<open>
  \<open>BARConf\<close>: \<open>is_valid\<close> at 0, seven bytes of padding, \<open>size\<close> at 8, \<open>offset\<close> at 16; 24 bytes.
  \<open>ACCConf\<close>: six of them, \<open>is_64\<close> at 144, \<open>prefetch\<close> at 145, the identifiers and MSI-X numbers from
  146, six bytes of padding at 154, \<open>msix_table_offset\<close> at 160, \<open>msix_pba_bar\<close> at 168, six bytes of
  padding, \<open>msix_pba_offset\<close> at 176.  The static object \<open>conf\<close> starts zeroed, so its padding is zero.
\<close>

definition bool_byte :: "bool \<Rightarrow> byte" where
  "bool_byte b = (if b then 1 else 0)"

definition encode_BARConf :: "BARConf \<Rightarrow> byte list" where
  "encode_BARConf b =
     [bool_byte (is_valid b)] @ replicate 7 0 @ to_le 8 (bar_size b) @ to_le 8 (bar_offset b)"

definition decode_BARConf :: "byte list \<Rightarrow> BARConf" where
  "decode_BARConf bs = \<lparr>is_valid = (bs ! 0 \<noteq> 0), bar_size = of_le (bytes_at 8 8 bs),
     bar_offset = of_le (bytes_at 16 8 bs)\<rparr>"

definition sizeof_ACCConf :: nat where
  "sizeof_ACCConf = 184"

definition encode_ACCConf :: "ACCConf \<Rightarrow> byte list" where
  "encode_ACCConf c =
     concat (map encode_BARConf (bars_conf c))
     @ [bool_byte (is_64 c), bool_byte (prefetch c)]
     @ to_le 2 (device_id c) @ to_le 2 (vendor_id c) @ to_le 2 (msix_vec_num c)
     @ to_le 2 (msix_table_bar c) @ replicate 6 0 @ to_le 8 (msix_table_offset c)
     @ to_le 2 (msix_pba_bar c) @ replicate 6 0 @ to_le 8 (msix_pba_offset c)"

definition decode_ACCConf :: "byte list \<Rightarrow> ACCConf" where
  "decode_ACCConf bs = \<lparr>
     bars_conf = map (\<lambda>i. decode_BARConf (bytes_at (24 * i) 24 bs)) [0..<6],
     is_64 = (bs ! 144 \<noteq> 0), prefetch = (bs ! 145 \<noteq> 0),
     device_id = of_le (bytes_at 146 2 bs), vendor_id = of_le (bytes_at 148 2 bs),
     msix_vec_num = of_le (bytes_at 150 2 bs), msix_table_bar = of_le (bytes_at 152 2 bs),
     msix_table_offset = of_le (bytes_at 160 8 bs), msix_pba_bar = of_le (bytes_at 168 2 bs),
     msix_pba_offset = of_le (bytes_at 176 8 bs)\<rparr>"

lemmas sizeof_simps [simp, layout_simps] =
  sizeof_ACCData_def sizeof_ACCNICData_def sizeof_ACCConf_def

lemma length_encode_BARConf [simp, layout_simps]: "length (encode_BARConf b) = 24"
  by (simp add: encode_BARConf_def)

lemma length_padding [simp, layout_simps]:
  "4128 \<le> length bs \<Longrightarrow> length (padding_ACCData bs) = 7"
  "4108 \<le> length bs \<Longrightarrow> length (padding_ACCNICData bs) = 3"
  by (simp_all add: padding_ACCData_def padding_ACCNICData_def length_bytes_at)

section \<open>What a client of a message relies on\<close>

text \<open>
  The receivers check \<open>zframe_size(frame) < sizeof(T)\<close>, cast the frame and read fields; frames
  may be longer than the structure.  \<open>wire_struct\<close> states that contract once for the three
  structures that cross the sockets.
\<close>

locale wire_struct =
  fixes enc :: "byte list \<Rightarrow> 'a \<Rightarrow> byte list"
    and dec :: "byte list \<Rightarrow> 'a"
    and wf :: "'a \<Rightarrow> bool"
    and padlen :: nat
    and sizeof :: nat
  assumes length_enc: "wf a \<Longrightarrow> length p = padlen \<Longrightarrow> length (enc p a) = sizeof"
    and dec_enc_append: "wf a \<Longrightarrow> length p = padlen \<Longrightarrow> dec (enc p a @ rest) = a"
    and wf_dec: "sizeof \<le> length bs \<Longrightarrow> wf (dec bs)"
begin

lemma dec_enc: "wf a \<Longrightarrow> length p = padlen \<Longrightarrow> dec (enc p a) = a"
  using dec_enc_append [of a p "[]"] by simp

lemma enc_not_short: "wf a \<Longrightarrow> length p = padlen \<Longrightarrow> \<not> length (enc p a) < sizeof"
  by (simp add: length_enc)

lemma enc_inject:
  assumes "wf a" "wf b" "length p = padlen" "length q = padlen" "enc p a = enc q b"
  shows "a = b"
  using assms dec_enc by metis

lemma enc_ne_None: "wf a \<Longrightarrow> length p = padlen \<Longrightarrow> 0 < sizeof \<Longrightarrow> enc p a \<noteq> []"
  using length_enc by fastforce

end

lemma length_encode_ACCData [simp, layout_simps]:
  "wf_ACCData a \<Longrightarrow> length p = 7 \<Longrightarrow> length (encode_ACCData p a) = 4128"
  by (simp add: encode_ACCData_def wf_ACCData_def)

lemma decode_encode_ACCData_append:
  "wf_ACCData a \<Longrightarrow> length p = 7 \<Longrightarrow> decode_ACCData (encode_ACCData p a @ rest) = a"
  by (simp add: decode_ACCData_def encode_ACCData_def wf_ACCData_def bytes_at_def nth_append)

lemma wf_decode_ACCData: "4128 \<le> length bs \<Longrightarrow> wf_ACCData (decode_ACCData bs)"
  by (simp add: wf_ACCData_def decode_ACCData_def length_bytes_at)

interpretation acc: wire_struct encode_ACCData decode_ACCData wf_ACCData 7 sizeof_ACCData
  by unfold_locales (simp_all add: decode_encode_ACCData_append wf_decode_ACCData)

lemma length_encode_ACCNICData [simp, layout_simps]:
  "wf_ACCNICData a \<Longrightarrow> length p = 3 \<Longrightarrow> length (encode_ACCNICData p a) = 4108"
  by (simp add: encode_ACCNICData_def wf_ACCNICData_def)

lemma decode_encode_ACCNICData_append:
  "wf_ACCNICData a \<Longrightarrow> length p = 3 \<Longrightarrow> decode_ACCNICData (encode_ACCNICData p a @ rest) = a"
  by (simp add: decode_ACCNICData_def encode_ACCNICData_def wf_ACCNICData_def bytes_at_def nth_append)

lemma wf_decode_ACCNICData: "4108 \<le> length bs \<Longrightarrow> wf_ACCNICData (decode_ACCNICData bs)"
  by (simp add: wf_ACCNICData_def decode_ACCNICData_def length_bytes_at)

interpretation nic: wire_struct encode_ACCNICData decode_ACCNICData wf_ACCNICData 3 sizeof_ACCNICData
  by unfold_locales (simp_all add: decode_encode_ACCNICData_append wf_decode_ACCNICData)

text \<open>
  The six \<open>BARConf\<close> entries sit one after the other; entry \<open>i\<close> of the decoded array is cut out
  at \<open>24 * i\<close>.
\<close>

lemma bool_byte_iff [simp]: "bool_byte b \<noteq> 0 \<longleftrightarrow> b" "bool_byte b = 0 \<longleftrightarrow> \<not> b"
  by (simp_all add: bool_byte_def)

lemma decode_encode_BARConf [simp]: "decode_BARConf (encode_BARConf b) = b"
  by (simp add: decode_BARConf_def encode_BARConf_def bytes_at_def)

lemma length_concat_BARConf: "length (concat (map encode_BARConf bs)) = 24 * length bs"
  by (induction bs) simp_all

lemma bytes_at_concat_BARConf:
  "i < length bs \<Longrightarrow>
   bytes_at (24 * i) 24 (concat (map encode_BARConf bs) @ rest) = encode_BARConf (bs ! i)"
proof (induction bs arbitrary: i)
  case Nil
  then show ?case by simp
next
  case (Cons b bs)
  show ?case
  proof (cases i)
    case 0
    then show ?thesis by (simp add: bytes_at_def)
  next
    case (Suc j)
    with Cons have "bytes_at (24 * j) 24 (concat (map encode_BARConf bs) @ rest) = encode_BARConf (bs ! j)"
      by simp
    with Suc show ?thesis by (simp add: bytes_at_def)
  qed
qed

lemma length_encode_ACCConf [simp, layout_simps]:
  "wf_ACCConf c \<Longrightarrow> length (encode_ACCConf c) = 184"
  by (simp add: encode_ACCConf_def wf_ACCConf_def length_concat_BARConf)

lemma decode_encode_ACCConf_append:
  assumes "wf_ACCConf c"
  shows "decode_ACCConf (encode_ACCConf c @ rest) = c"
proof -
  from assms have len: "length (bars_conf c) = 6" by (simp add: wf_ACCConf_def)
  define bcs where "bcs = concat (map encode_BARConf (bars_conf c))"
  have lbcs: "length bcs = 144" by (simp add: bcs_def length_concat_BARConf len)
  have "map (\<lambda>i. decode_BARConf (bytes_at (24 * i) 24 (encode_ACCConf c @ rest))) [0..<6] = bars_conf c"
    by (rule nth_equalityI) (simp_all add: len encode_ACCConf_def bytes_at_concat_BARConf)
  moreover have "encode_ACCConf c = bcs @ drop 144 (encode_ACCConf c)"
    by (simp add: encode_ACCConf_def length_concat_BARConf len bcs_def)
  ultimately show ?thesis
    using lbcs
    by (simp add: decode_ACCConf_def)
       (simp add: encode_ACCConf_def bcs_def [symmetric] bytes_at_def nth_append)
qed

lemma wf_decode_ACCConf: "wf_ACCConf (decode_ACCConf bs)"
  by (simp add: wf_ACCConf_def decode_ACCConf_def)

interpretation conf: wire_struct "\<lambda>_. encode_ACCConf" decode_ACCConf wf_ACCConf 0 sizeof_ACCConf
  by unfold_locales (simp_all add: decode_encode_ACCConf_append wf_decode_ACCConf)

end
