(* ===== verification/Cosim_Ext.thy ===== *)
theory Cosim_Ext
  imports Cosim_Prelude
begin

text \<open>
  The code the program calls and does not contain.  CZMQ and the parts of QEMU and GLib the
  device uses are parameters of every definition that calls them: records of functions on a
  world of an arbitrary type \<open>'w\<close>, which stands for everything outside the program (the
  message queues, guest memory, the PCI core, the clock).  A process state is a pair of the
  program's own variables and that world.  What the program relies on of these functions is
  stated as locales in \<^verbatim>\<open>Zmq_Link.thy\<close>, never here.
\<close>

section \<open>CZMQ\<close>

text \<open>
  Pointers to sockets are handles, NULL is \<open>None\<close>.  A frame pointer is the frame's content or
  NULL; \<open>zframe_data\<close> and \<open>zframe_size\<close> are the content and its length.  A poller pointer is the
  list of sockets the poller was made with, or NULL.
\<close>

type_synonym zsock = "nat option"
type_synonym zpoller = "zsock list option"
type_synonym zframe = "byte list option"

record 'w czmq =
  zsock_new_push :: "string \<Rightarrow> 'w \<Rightarrow> zsock \<times> 'w"
  zsock_new_pull :: "string \<Rightarrow> 'w \<Rightarrow> zsock \<times> 'w"
  zsock_destroy :: "zsock \<Rightarrow> 'w \<Rightarrow> 'w"
  zframe_new :: "byte list \<Rightarrow> 'w \<Rightarrow> zframe \<times> 'w"
  zframe_send :: "zframe \<Rightarrow> zsock \<Rightarrow> int \<Rightarrow> 'w \<Rightarrow> int \<times> 'w"
  zframe_recv :: "zsock \<Rightarrow> 'w \<Rightarrow> zframe \<times> 'w"
  zframe_destroy :: "zframe \<Rightarrow> 'w \<Rightarrow> 'w"
  zpoller_new :: "zsock list \<Rightarrow> 'w \<Rightarrow> zpoller \<times> 'w"
  zpoller_wait :: "zpoller \<Rightarrow> int \<Rightarrow> 'w \<Rightarrow> zsock \<times> 'w"
  zpoller_expired :: "zpoller \<Rightarrow> 'w \<Rightarrow> bool"
  zpoller_terminated :: "zpoller \<Rightarrow> 'w \<Rightarrow> bool"
  zpoller_destroy :: "zpoller \<Rightarrow> 'w \<Rightarrow> 'w"

text \<open>The flag \<open>ZFRAME_REUSE\<close> of \<open>zframe_send\<close>: keep the frame after sending.\<close>

definition ZFRAME_REUSE :: int where "ZFRAME_REUSE = 2"

section \<open>QEMU and GLib\<close>

text \<open>
  \<open>g_get_monotonic_time\<close> is an oracle: what the \<open>n\<close>-th reading of the clock returns.  Reading the
  clock changes nothing else.
\<close>

record 'w qemu_api = "'w czmq" +
  g_ascii_strcasecmp :: "string \<Rightarrow> string \<Rightarrow> int"
  g_get_monotonic_time :: "nat \<Rightarrow> int"
  cpu_physical_memory_read :: "u64 \<Rightarrow> nat \<Rightarrow> 'w \<Rightarrow> byte list \<times> 'w"
  cpu_physical_memory_write :: "u64 \<Rightarrow> byte list \<Rightarrow> 'w \<Rightarrow> 'w"
  msix_notify :: "u32 \<Rightarrow> 'w \<Rightarrow> 'w"
  msix_entries_nr :: "'w \<Rightarrow> int"
  msix_vector_use :: "int \<Rightarrow> 'w \<Rightarrow> 'w"
  msix_vector_unuse :: "int \<Rightarrow> 'w \<Rightarrow> 'w"
  msix_init :: "u16 \<Rightarrow> nat \<Rightarrow> u8 \<Rightarrow> u32 \<Rightarrow> nat \<Rightarrow> u8 \<Rightarrow> u32 \<Rightarrow> 'w \<Rightarrow> int \<times> 'w"
  msix_uninit :: "nat \<Rightarrow> nat \<Rightarrow> 'w \<Rightarrow> 'w"
  msix_present :: "'w \<Rightarrow> bool"
  pci_config_write :: "nat \<Rightarrow> u8 \<Rightarrow> 'w \<Rightarrow> 'w"
  memory_region_init_io :: "string \<Rightarrow> u64 \<Rightarrow> 'w \<Rightarrow> 'w"
  pci_register_bar :: "nat \<Rightarrow> u8 \<Rightarrow> 'w \<Rightarrow> 'w"
  zmq_getsockopt_fd :: "zsock \<Rightarrow> 'w \<Rightarrow> (int \<times> int) \<times> 'w"
  qemu_set_fd_handler :: "int \<Rightarrow> string \<Rightarrow> 'w \<Rightarrow> 'w"
  qemu_macaddr_default_if_unset :: "'w \<Rightarrow> 'w"
  qemu_new_nic :: "'w \<Rightarrow> 'w"
  qemu_format_nic_info_str :: "'w \<Rightarrow> 'w"
  qemu_send_packet :: "byte list \<Rightarrow> 'w \<Rightarrow> 'w"
  qemu_chr_fe_set_handlers :: "'w \<Rightarrow> 'w"
  qemu_chr_fe_set_echo :: "bool \<Rightarrow> 'w \<Rightarrow> 'w"
  qemu_chr_fe_write :: "byte list \<Rightarrow> 'w \<Rightarrow> 'w"
  pci_class_setup :: "u16 \<Rightarrow> u16 \<Rightarrow> u16 \<Rightarrow> u8 \<Rightarrow> string \<Rightarrow> 'w \<Rightarrow> 'w"

section \<open>Processes\<close>

text \<open>
  A process state pairs the program's variables \<open>'g\<close> with the world.  \<open>callC\<close> and \<open>doC\<close> call an
  external function with and without a result, \<open>queryC\<close> an external observer.
\<close>

type_synonym ('g, 'w) proc = "'g \<times> 'w"

definition callC :: "('w \<Rightarrow> 'a \<times> 'w) \<Rightarrow> (('g, 'w) proc, 'a) cprog" where
  "callC f = (\<lambda>(g, w). case f w of (a, w') \<Rightarrow> (Done a, (g, w')))"

definition doC :: "('w \<Rightarrow> 'w) \<Rightarrow> (('g, 'w) proc, unit) cprog" where
  "doC f = (\<lambda>(g, w). (Done (), (g, f w)))"

definition queryC :: "('w \<Rightarrow> 'a) \<Rightarrow> (('g, 'w) proc, 'a) cprog" where
  "queryC f = (\<lambda>(g, w). (Done (f w), (g, w)))"

definition getG :: "('g \<Rightarrow> 'a) \<Rightarrow> (('g, 'w) proc, 'a) cprog" where
  "getG f = (\<lambda>(g, w). (Done (f g), (g, w)))"

definition putG :: "('g \<Rightarrow> 'g) \<Rightarrow> (('g, 'w) proc, unit) cprog" where
  "putG f = (\<lambda>(g, w). (Done (), (f g, w)))"

lemma callC_pair [cprog_simps]: "callC f (g, w) = (Done (fst (f w)), (g, snd (f w)))"
  by (simp add: callC_def split: prod.splits)

lemma doC_pair [cprog_simps]: "doC f (g, w) = (Done (), (g, f w))"
  by (simp add: doC_def)

lemma queryC_pair [cprog_simps]: "queryC f (g, w) = (Done (f w), (g, w))"
  by (simp add: queryC_def)

lemma getG_pair [cprog_simps]: "getG f (g, w) = (Done (f g), (g, w))"
  by (simp add: getG_def)

lemma putG_pair [cprog_simps]: "putG f (g, w) = (Done (), (f g, w))"
  by (simp add: putG_def)

lemma bindC_proc [cprog_simps]:
  "bindC (callC c) k (g, w) = k (fst (c w)) (g, snd (c w))"
  "bindC (doC d) h (g, w) = h () (g, d w)"
  "bindC (queryC q) l (g, w) = l (q w) (g, w)"
  "bindC (getG e) m (g, w) = m (e g) (g, w)"
  "bindC (putG p) n (g, w) = n () (p g, w)"
  by (simp_all add: bindC_Done callC_pair doC_pair queryC_pair getG_pair putG_pair)

lemma keeps_call: "(\<And>g w. P (g, w) \<Longrightarrow> P (g, snd (f w))) \<Longrightarrow> keepsC P (callC f)"
  by (auto simp: keepsC_def callC_pair)

lemma keeps_do: "(\<And>g w. P (g, w) \<Longrightarrow> P (g, f w)) \<Longrightarrow> keepsC P (doC f)"
  by (auto simp: keepsC_def doC_pair)

text \<open>What is read from the variables is known to satisfy the property.\<close>

lemma keeps_get: "(\<And>g w. P (g, w) \<Longrightarrow> keepsC P (k (f g))) \<Longrightarrow> keepsC P (bindC (getG f) k)"
  by (auto simp: keepsC_def bindC_proc)

lemmas keeps_proc_rules = keeps_get keeps_call keeps_do keeps_rules keeps_bind

end
