(* ===== verification/Acc_Endpoints.thy ===== *)
theory Acc_Endpoints
  imports Cosim_Ext
begin

text \<open>
  Endpoint names.  Every program reads the base port from \<open>NPU_COSIM_PORT\<close> with \<open>atoi\<close>, adds a
  channel number and prints the endpoint with
  \<^verbatim>\<open>sprintf(buffer, SOCK_BASE, SEND_SOCK|RECV_SOCK, port + k)\<close> into a buffer of 50 bytes.
  The \<open>%d\<close> conversion and \<open>atoi\<close> are the C library's; both are undefined, or overflow, where
  the model says \<open>None\<close>.  The lemmas show that the endpoint always fits its buffer, that
  different ports give different endpoints, and that \<open>atoi\<close> reads back what \<open>%d\<close> prints.
\<close>

section \<open>Decimal conversion\<close>

definition in_int :: "int \<Rightarrow> bool" where
  "in_int i \<longleftrightarrow> - (2 ^ 31) \<le> i \<and> i < 2 ^ 31"

text \<open>The value of an \<open>int\<close> expression: signed overflow is undefined.\<close>

definition c_int :: "int \<Rightarrow> int option" where
  "c_int i = (if in_int i then Some i else None)"

definition digit_char :: "nat \<Rightarrow> char" where
  "digit_char d = char_of (48 + d)"

definition is_digit :: "char \<Rightarrow> bool" where
  "is_digit c \<longleftrightarrow> 48 \<le> (of_char c :: nat) \<and> (of_char c :: nat) \<le> 57"

fun dec_nat :: "nat \<Rightarrow> string" where
  "dec_nat n = (if n < 10 then [digit_char n] else dec_nat (n div 10) @ [digit_char (n mod 10)])"

declare dec_nat.simps [simp del]

text \<open>\<open>%d\<close>.\<close>

definition dec_int :: "int \<Rightarrow> string" where
  "dec_int i = (if i < 0 then CHR ''-'' # dec_nat (nat (- i)) else dec_nat (nat i))"

fun digits_value :: "nat \<Rightarrow> string \<Rightarrow> nat" where
  "digits_value acc [] = acc"
| "digits_value acc (c # cs) =
     (if is_digit c then digits_value (10 * acc + (of_char c - 48)) cs else acc)"

definition is_space :: "char \<Rightarrow> bool" where
  "is_space c \<longleftrightarrow> (of_char c :: nat) = 32 \<or> (9 \<le> (of_char c :: nat) \<and> (of_char c :: nat) \<le> 13)"

text \<open>\<open>atoi\<close>: leading white space, an optional sign, digits up to the first other character.\<close>

definition atoi :: "string \<Rightarrow> int option" where
  "atoi s = (case dropWhile is_space s of
       [] \<Rightarrow> Some 0
     | c # cs \<Rightarrow>
         if c = CHR ''-'' then c_int (- int (digits_value 0 cs))
         else if c = CHR ''+'' then c_int (int (digits_value 0 cs))
         else c_int (int (digits_value 0 (c # cs))))"

lemma of_char_digit [simp]: "d < 10 \<Longrightarrow> (of_char (digit_char d) :: nat) = 48 + d"
  by (simp add: digit_char_def of_char_of)

lemma is_digit_digit_char [simp]: "d < 10 \<Longrightarrow> is_digit (digit_char d)"
  by (simp add: is_digit_def)

lemma dec_nat_digits: "\<forall>c \<in> set (dec_nat n). is_digit c"
proof (induction n rule: dec_nat.induct)
  case (1 n)
  then show ?case by (subst dec_nat.simps) auto
qed

lemma dec_nat_nonempty: "dec_nat n \<noteq> []"
  by (subst dec_nat.simps) simp

lemma digits_value_append:
  "\<forall>c \<in> set xs. is_digit c \<Longrightarrow> digits_value acc (xs @ ys) = digits_value (digits_value acc xs) ys"
  by (induction xs arbitrary: acc) auto

lemma digits_value_dec_nat: "digits_value 0 (dec_nat n) = n"
proof (induction n rule: dec_nat.induct)
  case (1 n)
  show ?case
  proof (cases "n < 10")
    case True
    then show ?thesis by (subst dec_nat.simps) simp
  next
    case False
    with "1" have "digits_value 0 (dec_nat (n div 10)) = n div 10" by simp
    with False show ?thesis
      by (subst dec_nat.simps) (simp add: digits_value_append dec_nat_digits)
  qed
qed

lemma length_dec_nat: "n < 10 ^ k \<Longrightarrow> 0 < k \<Longrightarrow> length (dec_nat n) \<le> k"
proof (induction n arbitrary: k rule: dec_nat.induct)
  case (1 n)
  show ?case
  proof (cases "n < 10")
    case True
    with "1.prems" show ?thesis by (subst dec_nat.simps) simp
  next
    case False
    obtain j where k: "k = Suc j" using "1.prems" by (cases k) auto
    with "1.prems"(1) have "n div 10 < 10 ^ j" by (simp add: less_mult_imp_div_less)
    moreover have "0 < j" using False k "1.prems"(1) by (cases j) auto
    ultimately have "length (dec_nat (n div 10)) \<le> j" using False "1.IH" by simp
    with False k show ?thesis by (subst dec_nat.simps) simp
  qed
qed

lemma digit_not_sign_space:
  assumes "is_digit c"
  shows "c \<noteq> CHR ''-''" and "c \<noteq> CHR ''+''" and "\<not> is_space c"
  using assms by (auto simp: is_digit_def is_space_def)

lemma atoi_dec_int: "in_int i \<Longrightarrow> atoi (dec_int i) = Some i"
proof -
  assume i: "in_int i"
  show ?thesis
  proof (cases "i < 0")
    case True
    with i show ?thesis
      by (simp add: atoi_def dec_int_def is_space_def digits_value_dec_nat c_int_def)
  next
    case False
    obtain c cs where d: "dec_nat (nat i) = c # cs"
      using dec_nat_nonempty [of "nat i"] by (cases "dec_nat (nat i)") auto
    moreover from d have "is_digit c" using dec_nat_digits [of "nat i"] by simp
    moreover from d have "digits_value 0 (c # cs) = nat i"
      using digits_value_dec_nat [of "nat i"] by simp
    ultimately show ?thesis
      using False i digit_not_sign_space [of c]
      by (simp add: atoi_def dec_int_def c_int_def del: digits_value.simps)
  qed
qed

lemma dec_int_inject: "in_int i \<Longrightarrow> in_int j \<Longrightarrow> dec_int i = dec_int j \<Longrightarrow> i = j"
  using atoi_dec_int by (metis option.inject)

lemma length_dec_int: "in_int i \<Longrightarrow> length (dec_int i) \<le> 11"
proof -
  assume "in_int i"
  then have "nat (- i) < 10 ^ 10" and "nat i < 10 ^ 10" by (auto simp: in_int_def)
  then have "length (dec_nat (nat (- i))) \<le> 10" and "length (dec_nat (nat i)) \<le> 10"
    by (simp_all add: length_dec_nat)
  then show ?thesis by (simp add: dec_int_def)
qed

lemma dec_int_nonempty: "dec_int i \<noteq> []"
  by (simp add: dec_int_def dec_nat_nonempty)

section \<open>Endpoints\<close>

definition SEND_SOCK :: string where "SEND_SOCK = ''@''"
definition RECV_SOCK :: string where "RECV_SOCK = ''>''"

text \<open>
  \<open>SOCK_BASE\<close> is \<open>TCP_MODE\<close>.  The result is \<open>None\<close> where \<open>port + k\<close> overflows or the text with
  its terminating NUL would not fit \<open>char buffer[50]\<close>.
\<close>

definition SOCK_BASE :: "string \<Rightarrow> int \<Rightarrow> string" where
  "SOCK_BASE mode port = mode @ ''tcp://127.0.0.1:'' @ dec_int port"

definition sock_endpoint :: "string \<Rightarrow> int \<Rightarrow> int \<Rightarrow> string option" where
  "sock_endpoint mode port k =
     Option.bind (c_int (port + k)) (\<lambda>p.
       if length (SOCK_BASE mode p) < 50 then Some (SOCK_BASE mode p) else None)"

lemmas sock_modes = SEND_SOCK_def RECV_SOCK_def

lemma sock_endpoint_fits:
  assumes "in_int (port + k)" and "length mode \<le> 1"
  shows "sock_endpoint mode port k = Some (SOCK_BASE mode (port + k))"
  using assms length_dec_int [of "port + k"]
  by (simp add: sock_endpoint_def c_int_def SOCK_BASE_def)

lemma SOCK_BASE_inject:
  assumes "in_int p" "in_int q" "length m = length n" "SOCK_BASE m p = SOCK_BASE n q"
  shows "m = n \<and> p = q"
  using assms dec_int_inject by (auto simp: SOCK_BASE_def)

section \<open>Opening sockets\<close>

text \<open>Open a socket on the endpoint for \<open>port + k\<close>; overflow of \<open>port + k\<close> is undefined.\<close>

definition pushC ::
  "('w, 'z) czmq_scheme \<Rightarrow> string \<Rightarrow> int \<Rightarrow> int \<Rightarrow> (('g, 'w) proc, zsock) cprog" where
  "pushC L mode port k = bindC (definedC (sock_endpoint mode port k)) (\<lambda>e. callC (zsock_new_push L e))"

definition pullC ::
  "('w, 'z) czmq_scheme \<Rightarrow> string \<Rightarrow> int \<Rightarrow> int \<Rightarrow> (('g, 'w) proc, zsock) cprog" where
  "pullC L mode port k = bindC (definedC (sock_endpoint mode port k)) (\<lambda>e. callC (zsock_new_pull L e))"

text \<open>\<open>atoi(getenv("NPU_COSIM_PORT"))\<close> without a check: undefined when the variable is missing.\<close>

definition cosim_port :: "(string \<Rightarrow> string option) \<Rightarrow> int option" where
  "cosim_port getenv = Option.bind (getenv ''NPU_COSIM_PORT'') atoi"

section \<open>Properties\<close>

text \<open>
  C26: every program that finds the base port in its environment as decimal text reads that number,
  the endpoint of a channel is the text one expects and always fits the buffer of 50 bytes with
  its terminating NUL, and endpoints agree only for the same direction and port.
\<close>

theorem endpoint_from_environment:
  assumes "env ''NPU_COSIM_PORT'' = Some (dec_int port)" and "in_int port"
    and "in_int (port + k)" "in_int (port + j)" and "m \<in> {SEND_SOCK, RECV_SOCK}" "n \<in> {SEND_SOCK, RECV_SOCK}"
  shows "cosim_port env = Some port
    \<and> sock_endpoint m port k = Some (m @ ''tcp://127.0.0.1:'' @ dec_int (port + k))
    \<and> (sock_endpoint m port k = sock_endpoint n port j \<longleftrightarrow> m = n \<and> k = j)"
proof -
  have "length m = 1" "length n = 1" using assms by (auto simp: sock_modes)
  then show ?thesis
    using assms sock_endpoint_fits [of port k m] sock_endpoint_fits [of port j n]
      SOCK_BASE_inject [of "port + k" "port + j" m n] atoi_dec_int [of port]
    by (auto simp: cosim_port_def SOCK_BASE_def)
qed

theorem endpoint_from_environment_witness:
  "let env = [''NPU_COSIM_PORT'' \<mapsto> dec_int 5000] in
   cosim_port env = Some 5000
   \<and> sock_endpoint SEND_SOCK 5000 (- 1) = Some (SEND_SOCK @ ''tcp://127.0.0.1:'' @ dec_int 4999)
   \<and> (sock_endpoint SEND_SOCK 5000 (- 1) = sock_endpoint RECV_SOCK 5000 10 \<longleftrightarrow> SEND_SOCK = RECV_SOCK \<and> (- 1 :: int) = 10)"
  using endpoint_from_environment [of "[''NPU_COSIM_PORT'' \<mapsto> dec_int 5000]" 5000 "- 1" 10 SEND_SOCK RECV_SOCK]
  by (auto simp: in_int_def)

end
