(* ===== verification/Acc_Log.thy ===== *)
theory Acc_Log
  imports Acc_Protocol Acc_Endpoints Cosim_Ext
begin

text \<open>
  Logging, transaction ids and the logged receive of \<^verbatim>\<open>accelerator_pcie.c\<close>.  The record \<open>qemu\<close>
  holds the static variables of that file together with the process environment and the lines
  written to \<open>stderr\<close>.  A line keeps what the fixed prefix of \<open>acc_logv\<close> prints (level, elapsed
  time, function, line number); the formatted text behind it is left out.
\<close>

section \<open>State\<close>

datatype acc_line = Acc_line (ln_level: string) (ln_delta_ms: int) (ln_func: string) (ln_line: nat)

record qemu =
  environ :: "string \<Rightarrow> string option"
  acc_log_inited :: bool
  acc_log_level :: int
  acc_zmq_warn_ms :: int
  acc_log_t0_us :: int
  acc_global_txid :: u64
  hdlconf :: ACCConf
  stderr_log :: "acc_line list"
  clock_reads :: nat

abbreviation (input) ACC_LOG_OFF :: int where "ACC_LOG_OFF \<equiv> 0"
abbreviation (input) ACC_LOG_ERROR :: int where "ACC_LOG_ERROR \<equiv> 1"
abbreviation (input) ACC_LOG_WARN :: int where "ACC_LOG_WARN \<equiv> 2"
abbreviation (input) ACC_LOG_INFO :: int where "ACC_LOG_INFO \<equiv> 3"
abbreviation (input) ACC_LOG_DEBUG :: int where "ACC_LOG_DEBUG \<equiv> 4"
abbreviation (input) ACC_LOG_TRACE :: int where "ACC_LOG_TRACE \<equiv> 5"

section \<open>Operations\<close>

definition monotonic_time :: "('w, 'z) qemu_api_scheme \<Rightarrow> ((qemu, 'w) proc, int) cprog" where
  "monotonic_time L =
     bindC (getG clock_reads) (\<lambda>n.
     thenC (putG (\<lambda>g. g\<lparr>clock_reads := Suc n\<rparr>)) (retC (g_get_monotonic_time L n)))"

definition acc_parse_loglevel :: "('w, 'z) qemu_api_scheme \<Rightarrow> string option \<Rightarrow> int" where
  "acc_parse_loglevel L so = (case so of
       None \<Rightarrow> ACC_LOG_ERROR
     | Some s \<Rightarrow>
         if s = [] then ACC_LOG_ERROR
         else if g_ascii_strcasecmp L s ''off'' = 0 \<or> g_ascii_strcasecmp L s ''0'' = 0
           then ACC_LOG_OFF
         else if g_ascii_strcasecmp L s ''error'' = 0 \<or> g_ascii_strcasecmp L s ''err'' = 0
             \<or> g_ascii_strcasecmp L s ''1'' = 0 then ACC_LOG_ERROR
         else if g_ascii_strcasecmp L s ''warn'' = 0 \<or> g_ascii_strcasecmp L s ''warning'' = 0
             \<or> g_ascii_strcasecmp L s ''2'' = 0 then ACC_LOG_WARN
         else if g_ascii_strcasecmp L s ''info'' = 0 \<or> g_ascii_strcasecmp L s ''3'' = 0
           then ACC_LOG_INFO
         else if g_ascii_strcasecmp L s ''debug'' = 0 \<or> g_ascii_strcasecmp L s ''dbg'' = 0
             \<or> g_ascii_strcasecmp L s ''4'' = 0 then ACC_LOG_DEBUG
         else if g_ascii_strcasecmp L s ''trace'' = 0 \<or> g_ascii_strcasecmp L s ''5'' = 0
           then ACC_LOG_TRACE
         else ACC_LOG_ERROR)"

text \<open>
  The level chosen from the two environment variables, and the warning interval from the third;
  \<open>atoi\<close> of a number no \<open>int\<close> holds is undefined.
\<close>

definition env_log_level ::
  "('w, 'z) qemu_api_scheme \<Rightarrow> string option \<Rightarrow> string option \<Rightarrow> int" where
  "env_log_level L lvl dbg =
     (if lvl \<noteq> None then acc_parse_loglevel L lvl
      else if dbg \<noteq> None \<and> dbg \<noteq> Some ''0''
      then (let l = acc_parse_loglevel L dbg in if l \<le> ACC_LOG_ERROR then ACC_LOG_DEBUG else l)
      else ACC_LOG_ERROR)"

definition env_warn_ms :: "string option \<Rightarrow> int option" where
  "env_warn_ms warn = (case warn of
       None \<Rightarrow> Some 0
     | Some s \<Rightarrow> if s = [] then Some 0 else map_option (\<lambda>n. if n < 0 then 0 else n) (atoi s))"

definition acc_log_init :: "('w, 'z) qemu_api_scheme \<Rightarrow> ((qemu, 'w) proc, unit) cprog" where
  "acc_log_init L =
     bindC (getG acc_log_inited) (\<lambda>inited.
     whenC (\<not> inited)
      (bindC (getG environ) (\<lambda>getenv.
       bindC (monotonic_time L) (\<lambda>t0.
       thenC (putG (\<lambda>g. g\<lparr>acc_log_t0_us := t0,
           acc_log_level := env_log_level L (getenv ''ACCELERATOR_LOG_LEVEL'')
                              (getenv ''ACCELERATOR_DEBUG''),
           acc_zmq_warn_ms := 0\<rparr>))
       (bindC (definedC (env_warn_ms (getenv ''ACCELERATOR_ZMQ_WARN_MS''))) (\<lambda>ms.
        putG (\<lambda>g. g\<lparr>acc_zmq_warn_ms := ms, acc_log_inited := True\<rparr>)))))))"

definition acc_log_level_str :: "int \<Rightarrow> string" where
  "acc_log_level_str level =
     (if level = ACC_LOG_ERROR then ''ERROR''
      else if level = ACC_LOG_WARN then ''WARN''
      else if level = ACC_LOG_INFO then ''INFO''
      else if level = ACC_LOG_DEBUG then ''DEBUG''
      else if level = ACC_LOG_TRACE then ''TRACE''
      else ''OFF'')"

text \<open>Integer division of C truncates towards zero.\<close>

definition c_div :: "int \<Rightarrow> int \<Rightarrow> int" where
  "c_div a b = sgn a * sgn b * (\<bar>a\<bar> div \<bar>b\<bar>)"

text \<open>\<open>acc_logv\<close>, called through \<open>acc_log\<close> and the macro \<open>ACC_LOG\<close>.\<close>

definition acc_log ::
  "('w, 'z) qemu_api_scheme \<Rightarrow> int \<Rightarrow> string \<Rightarrow> nat \<Rightarrow> ((qemu, 'w) proc, unit) cprog" where
  "acc_log L level func line =
     thenC (acc_log_init L)
     (bindC (getG acc_log_level) (\<lambda>cur.
      if level > cur \<or> cur = ACC_LOG_OFF then skipC
      else bindC (monotonic_time L) (\<lambda>now_us.
        putG (\<lambda>g. g\<lparr>stderr_log := stderr_log g
          @ [Acc_line (acc_log_level_str level) (c_div (now_us - acc_log_t0_us g) 1000) func line]\<rparr>))))"

abbreviation ACCELERATOR_EPRINTF ::
  "('w, 'z) qemu_api_scheme \<Rightarrow> string \<Rightarrow> nat \<Rightarrow> ((qemu, 'w) proc, unit) cprog" where
  "ACCELERATOR_EPRINTF L \<equiv> acc_log L ACC_LOG_ERROR"

abbreviation ACCELERATOR_DPRINTF ::
  "('w, 'z) qemu_api_scheme \<Rightarrow> string \<Rightarrow> nat \<Rightarrow> ((qemu, 'w) proc, unit) cprog" where
  "ACCELERATOR_DPRINTF L \<equiv> acc_log L ACC_LOG_DEBUG"

abbreviation ACCELERATOR_TPRINTF ::
  "('w, 'z) qemu_api_scheme \<Rightarrow> string \<Rightarrow> nat \<Rightarrow> ((qemu, 'w) proc, unit) cprog" where
  "ACCELERATOR_TPRINTF L \<equiv> acc_log L ACC_LOG_TRACE"

definition acc_next_txid :: "((qemu, 'w) proc, u64) cprog" where
  "acc_next_txid =
     bindC (getG acc_global_txid) (\<lambda>old.
     thenC (putG (\<lambda>g. g\<lparr>acc_global_txid := old + 1\<rparr>)) (retC (old + 1)))"

text \<open>
  One round of the waiting loop of \<open>acc_zframe_recv_logged\<close>: leave with \<open>False\<close> when the poller was
  terminated (the function then returns NULL), with \<open>True\<close> when the socket is ready, go round
  again on a timeout.
\<close>

definition recv_wait_round ::
  "('w, 'z) qemu_api_scheme \<Rightarrow> zpoller \<Rightarrow> zsock \<Rightarrow> ((qemu, 'w) proc, bool option) cprog" where
  "recv_wait_round L poller sock =
     bindC (getG acc_zmq_warn_ms) (\<lambda>ms.
     bindC (callC (zpoller_wait L poller ms)) (\<lambda>which.
     bindC (queryC (zpoller_terminated L poller)) (\<lambda>terminated.
     bindC (queryC (zpoller_expired L poller)) (\<lambda>expired.
     if terminated then
       thenC (ACCELERATOR_EPRINTF L ''acc_zframe_recv_logged'' 187)
       (thenC (doC (zpoller_destroy L poller)) (retC (Some False)))
     else if expired \<or> which \<noteq> sock then
       bindC (monotonic_time L) (\<lambda>now_us.
       thenC (acc_log L ACC_LOG_WARN ''acc_zframe_recv_logged'' 194) (retC None))
     else retC (Some True)))))"

definition acc_zframe_recv_logged ::
  "('w, 'z) qemu_api_scheme \<Rightarrow> zsock \<Rightarrow> ((qemu, 'w) proc, zframe) cprog" where
  "acc_zframe_recv_logged L sock =
     thenC (acc_log_init L)
     (bindC (getG acc_zmq_warn_ms) (\<lambda>ms.
      if ms \<le> 0 then
        thenC (ACCELERATOR_DPRINTF L ''acc_zframe_recv_logged'' 163)
        (bindC (callC (zframe_recv L sock)) (\<lambda>frame.
         if frame = None then
           thenC (ACCELERATOR_EPRINTF L ''acc_zframe_recv_logged'' 167) (retC None)
         else thenC (ACCELERATOR_TPRINTF L ''acc_zframe_recv_logged'' 171) (retC frame)))
      else
        bindC (callC (zpoller_new L [sock])) (\<lambda>poller.
        if poller = None then
          thenC (ACCELERATOR_EPRINTF L ''acc_zframe_recv_logged'' 178) (callC (zframe_recv L sock))
        else
          bindC (monotonic_time L) (\<lambda>start_us.
          bindC (loopC (recv_wait_round L poller sock)) (\<lambda>ready.
          if \<not> ready then retC None
          else
            thenC (doC (zpoller_destroy L poller))
            (bindC (callC (zframe_recv L sock)) (\<lambda>frame.
             if frame = None then
               thenC (ACCELERATOR_EPRINTF L ''acc_zframe_recv_logged'' 205) (retC None)
             else thenC (ACCELERATOR_DPRINTF L ''acc_zframe_recv_logged'' 209) (retC frame))))))))"

section \<open>Logging as a function of the variables\<close>

text \<open>
  Logging never fails once initialised, and never touches the world: \<open>log_fn\<close> is what a call does
  to the variables.  Together with the frame lemmas below this removes the logging calls from
  the proofs about the callbacks.
\<close>

definition log_ok :: "qemu \<Rightarrow> bool" where
  "log_ok g \<longleftrightarrow> acc_log_inited g \<or> env_warn_ms (environ g ''ACCELERATOR_ZMQ_WARN_MS'') \<noteq> None"

definition log_init_fn :: "('w, 'z) qemu_api_scheme \<Rightarrow> qemu \<Rightarrow> qemu" where
  "log_init_fn L g = (if acc_log_inited g then g else g\<lparr>
     clock_reads := Suc (clock_reads g), acc_log_t0_us := g_get_monotonic_time L (clock_reads g),
     acc_log_level := env_log_level L (environ g ''ACCELERATOR_LOG_LEVEL'') (environ g ''ACCELERATOR_DEBUG''),
     acc_zmq_warn_ms := the (env_warn_ms (environ g ''ACCELERATOR_ZMQ_WARN_MS'')),
     acc_log_inited := True\<rparr>)"

definition log_fn :: "('w, 'z) qemu_api_scheme \<Rightarrow> int \<Rightarrow> string \<Rightarrow> nat \<Rightarrow> qemu \<Rightarrow> qemu" where
  "log_fn L level func line g0 = (let g = log_init_fn L g0 in
     if level > acc_log_level g \<or> acc_log_level g = ACC_LOG_OFF then g
     else g\<lparr>clock_reads := Suc (clock_reads g), stderr_log := stderr_log g
       @ [Acc_line (acc_log_level_str level)
            (c_div (g_get_monotonic_time L (clock_reads g) - acc_log_t0_us g) 1000) func line]\<rparr>)"

lemma monotonic_time_eq [cprog_simps]:
  "monotonic_time L (g, w) = (Done (g_get_monotonic_time L (clock_reads g)),
     (g\<lparr>clock_reads := Suc (clock_reads g)\<rparr>, w))"
  by (simp add: monotonic_time_def cprog_simps)

lemma bindC_monotonic_time [cprog_simps]:
  "bindC (monotonic_time L) k (g, w) =
     k (g_get_monotonic_time L (clock_reads g)) (g\<lparr>clock_reads := Suc (clock_reads g)\<rparr>, w)"
  by (simp add: cprog_simps)

lemma acc_log_init_eq [cprog_simps]:
  "log_ok g \<Longrightarrow> acc_log_init L (g, w) = (Done (), (log_init_fn L g, w))"
  by (auto simp: acc_log_init_def log_init_fn_def log_ok_def cprog_simps)

lemma acc_log_eq [cprog_simps]:
  "log_ok g \<Longrightarrow> acc_log L l f n (g, w) = (Done (), (log_fn L l f n g, w))"
  by (simp add: acc_log_def log_fn_def cprog_simps Let_def)

lemma bindC_acc_log [cprog_simps]:
  "log_ok g \<Longrightarrow> bindC (acc_log L l f n) k (g, w) = k () (log_fn L l f n g, w)"
  by (simp add: cprog_simps)

lemma log_init_fn_frame [simp]:
  "environ (log_init_fn L g) = environ g" "acc_global_txid (log_init_fn L g) = acc_global_txid g"
  "hdlconf (log_init_fn L g) = hdlconf g" "stderr_log (log_init_fn L g) = stderr_log g"
  "acc_log_inited (log_init_fn L g)" "log_ok (log_init_fn L g)"
  by (simp_all add: log_init_fn_def log_ok_def)

lemma log_fn_frame [simp]:
  "environ (log_fn L l f n g) = environ g" "acc_global_txid (log_fn L l f n g) = acc_global_txid g"
  "hdlconf (log_fn L l f n g) = hdlconf g" "acc_log_inited (log_fn L l f n g)"
  "acc_log_level (log_fn L l f n g) = acc_log_level (log_init_fn L g)"
  "acc_zmq_warn_ms (log_fn L l f n g) = acc_zmq_warn_ms (log_init_fn L g)"
  "log_ok (log_fn L l f n g)"
  by (simp_all add: log_fn_def log_ok_def Let_def)

lemma log_init_fn_inited [simp]: "acc_log_inited g \<Longrightarrow> log_init_fn L g = g"
  by (simp add: log_init_fn_def)

lemma log_ok_update [simp]:
  "log_ok (g\<lparr>acc_global_txid := t\<rparr>) = log_ok g" "log_ok (g\<lparr>clock_reads := c\<rparr>) = log_ok g"
  "log_ok (g\<lparr>hdlconf := h\<rparr>) = log_ok g"
  by (simp_all add: log_ok_def)

lemma acc_next_txid_eq [cprog_simps]:
  "acc_next_txid (g, w) =
     (Done (acc_global_txid g + 1), (g\<lparr>acc_global_txid := acc_global_txid g + 1\<rparr>, w))"
  by (simp add: acc_next_txid_def cprog_simps)

section \<open>Waiting for a frame\<close>

text \<open>
  \<open>ready_after k\<close>: the poller times out \<open>k\<close> times (or answers another socket) and then reports
  \<open>sock\<close>, never having been terminated; \<open>waited k\<close> is the world after those waits.
\<close>

fun ready_after ::
  "('w, 'z) qemu_api_scheme \<Rightarrow> zpoller \<Rightarrow> zsock \<Rightarrow> int \<Rightarrow> nat \<Rightarrow> 'w \<Rightarrow> bool" where
  "ready_after L p sock ms 0 w =
     (let (which, w') = zpoller_wait L p ms w in
      \<not> zpoller_terminated L p w' \<and> \<not> zpoller_expired L p w' \<and> which = sock)"
| "ready_after L p sock ms (Suc k) w =
     (let (which, w') = zpoller_wait L p ms w in
      \<not> zpoller_terminated L p w' \<and> (zpoller_expired L p w' \<or> which \<noteq> sock)
      \<and> ready_after L p sock ms k w')"

fun waited :: "('w, 'z) qemu_api_scheme \<Rightarrow> zpoller \<Rightarrow> int \<Rightarrow> nat \<Rightarrow> 'w \<Rightarrow> 'w" where
  "waited L p ms 0 w = snd (zpoller_wait L p ms w)"
| "waited L p ms (Suc k) w = waited L p ms k (snd (zpoller_wait L p ms w))"

text \<open>
  The warnings in the log, and how many the waiting loop adds: one per timeout, if they are shown.
\<close>

definition warn_count :: "qemu \<Rightarrow> nat" where
  "warn_count g = length (filter (\<lambda>l. ln_level l = ''WARN'') (stderr_log g))"

definition warn_lines :: "qemu \<Rightarrow> nat \<Rightarrow> nat" where
  "warn_lines g k = (if ACC_LOG_WARN \<le> acc_log_level g then k else 0)"

lemma recv_wait_loop:
  assumes "acc_log_inited g" and "acc_zmq_warn_ms g = ms" and "ready_after L p sock ms k w"
  shows "\<exists>g'. loopC (recv_wait_round L p sock) (g, w) = (Done True, (g', waited L p ms k w))
    \<and> acc_log_inited g' \<and> acc_log_level g' = acc_log_level g \<and> acc_zmq_warn_ms g' = ms
    \<and> acc_global_txid g' = acc_global_txid g \<and> hdlconf g' = hdlconf g \<and> environ g' = environ g
    \<and> warn_count g' = warn_count g + warn_lines g k"
  using assms
proof (induction k arbitrary: g w)
  case 0
  then have ok: "log_ok g" by (simp add: log_ok_def)
  from 0 ok have "recv_wait_round L p sock (g, w) = (Done (Some True), (g, waited L p ms 0 w))"
    by (simp add: recv_wait_round_def cprog_simps split: prod.splits)
  from loopC_leave [of "recv_wait_round L p sock", OF this] 0 show ?case by (simp add: warn_lines_def)
next
  case (Suc k)
  let ?w = "snd (zpoller_wait L p ms w)"
  let ?g = "log_fn L ACC_LOG_WARN ''acc_zframe_recv_logged'' 194 (g\<lparr>clock_reads := Suc (clock_reads g)\<rparr>)"
  from Suc.prems have ok: "log_ok g" by (simp add: log_ok_def)
  from Suc.prems have rest: "ready_after L p sock ms k ?w" by (simp split: prod.splits)
  from Suc.prems ok have rnd: "recv_wait_round L p sock (g, w) = (Done None, (?g, ?w))"
    by (auto simp: recv_wait_round_def cprog_simps split: prod.splits)
  have vars: "acc_log_inited ?g" "acc_zmq_warn_ms ?g = ms" "acc_log_level ?g = acc_log_level g"
    "acc_global_txid ?g = acc_global_txid g" "hdlconf ?g = hdlconf g" "environ ?g = environ g"
    "warn_count ?g = warn_count g + warn_lines g 1"
    using Suc.prems by (simp_all add: log_fn_def warn_lines_def warn_count_def acc_log_level_str_def Let_def)
  from Suc.IH [OF vars(1,2) rest] obtain g' where g':
    "loopC (recv_wait_round L p sock) (?g, ?w) = (Done True, (g', waited L p ms k ?w))"
    "acc_log_inited g'" "acc_log_level g' = acc_log_level ?g" "acc_zmq_warn_ms g' = ms"
    "acc_global_txid g' = acc_global_txid ?g" "hdlconf g' = hdlconf ?g" "environ g' = environ ?g"
    "warn_count g' = warn_count ?g + warn_lines ?g k"
    by blast
  have "loopC (recv_wait_round L p sock) (g, w) = loopC (recv_wait_round L p sock) (?g, ?w)"
    by (rule loopC_again [of "recv_wait_round L p sock", OF rnd]) (simp add: g'(1))
  with g' vars show ?case by (intro exI [of _ g']) (simp add: warn_lines_def)
qed

text \<open>
  Two states of the variables that differ in the log lines and clock readings only; the
  interval for warnings is compared once logging is initialised.
\<close>

definition same_core :: "('w, 'z) qemu_api_scheme \<Rightarrow> qemu \<Rightarrow> qemu \<Rightarrow> bool" where
  "same_core L g g' \<longleftrightarrow> environ g' = environ g \<and> acc_global_txid g' = acc_global_txid g
     \<and> hdlconf g' = hdlconf g
     \<and> acc_zmq_warn_ms (log_init_fn L g') = acc_zmq_warn_ms (log_init_fn L g)"

lemma warn_ms_frame [simp]:
  "acc_zmq_warn_ms (log_init_fn L (g\<lparr>acc_global_txid := t\<rparr>)) = acc_zmq_warn_ms (log_init_fn L g)"
  "acc_zmq_warn_ms (log_init_fn L (g\<lparr>clock_reads := c\<rparr>)) = acc_zmq_warn_ms (log_init_fn L g)"
  "acc_zmq_warn_ms (log_init_fn L (g\<lparr>hdlconf := h\<rparr>)) = acc_zmq_warn_ms (log_init_fn L g)"
  by (simp_all add: log_init_fn_def)

lemma same_core_log [simp]:
  "same_core L g (log_fn L l f n g') = same_core L g g'"
  "same_core L (log_fn L l f n g) g' = same_core L g g'"
  "same_core L g (log_init_fn L g') = same_core L g g'"
  "same_core L g (g'\<lparr>clock_reads := c\<rparr>) = same_core L g g'" "same_core L g g"
  by (simp_all add: same_core_def)

lemma same_core_trans: "same_core L a b \<Longrightarrow> same_core L b c \<Longrightarrow> same_core L a c"
  by (simp add: same_core_def)

text \<open>
  \<open>recv_ready L sock g w w0\<close>: from variables \<open>g\<close> and world \<open>w\<close> the logged receive comes to its
  \<open>zframe_recv\<close> in world \<open>w0\<close>, at once where waiting is not timed, else after finitely many
  timeouts of the poller.
\<close>

definition recv_ready ::
  "('w, 'z) qemu_api_scheme \<Rightarrow> zsock \<Rightarrow> qemu \<Rightarrow> 'w \<Rightarrow> 'w \<Rightarrow> bool" where
  "recv_ready L sock g w w0 \<longleftrightarrow> (let ms = acc_zmq_warn_ms (log_init_fn L g) in
     if ms \<le> 0 then w0 = w
     else (let (p, w1) = zpoller_new L [sock] w in
       if p = None then w0 = w1
       else (\<exists>k. ready_after L p sock ms k w1 \<and> w0 = zpoller_destroy L p (waited L p ms k w1))))"

lemma recv_logged_eq:
  assumes "log_ok g" and "recv_ready L sock g w w0"
  shows "\<exists>g'. acc_zframe_recv_logged L sock (g, w) =
      (Done (fst (zframe_recv L sock w0)), (g', snd (zframe_recv L sock w0)))
    \<and> same_core L g g' \<and> log_ok g'"
proof -
  let ?g = "log_init_fn L g"
  obtain p w1 where pw: "zpoller_new L [sock] w = (p, w1)" by force
  consider (direct) "acc_zmq_warn_ms ?g \<le> 0"
    | (no_poller) "\<not> acc_zmq_warn_ms ?g \<le> 0" "p = None"
    | (polled) "\<not> acc_zmq_warn_ms ?g \<le> 0" "p \<noteq> None" by blast
  then show ?thesis
  proof cases
    case direct
    with assms show ?thesis
      by (simp add: acc_zframe_recv_logged_def recv_ready_def cprog_simps)
  next
    case no_poller
    with assms pw show ?thesis
      by (simp add: acc_zframe_recv_logged_def recv_ready_def cprog_simps)
  next
    case polled
    let ?ms = "acc_zmq_warn_ms ?g"
    let ?g1 = "?g\<lparr>clock_reads := Suc (clock_reads ?g)\<rparr>"
    from polled assms(2) pw obtain k where k: "ready_after L p sock ?ms k w1"
      and w0: "w0 = zpoller_destroy L p (waited L p ?ms k w1)"
      by (auto simp: recv_ready_def Let_def)
    have "acc_log_inited ?g1" and "acc_zmq_warn_ms ?g1 = ?ms" by simp_all
    from recv_wait_loop [OF this k] obtain g2 where
      loop: "loopC (recv_wait_round L p sock) (?g1, w1) = (Done True, (g2, waited L p ?ms k w1))"
      and g2: "acc_log_inited g2" "acc_zmq_warn_ms g2 = ?ms" "acc_global_txid g2 = acc_global_txid g" "hdlconf g2 = hdlconf g"
        "environ g2 = environ g" by auto
    from g2 have "log_ok g2" and "same_core L g g2" by (simp_all add: log_ok_def same_core_def)
    with polled assms(1) pw loop w0 show ?thesis
      by (auto simp: acc_zframe_recv_logged_def cprog_simps)
  qed
qed

section \<open>Properties\<close>

text \<open>
  What \<open>g_ascii_strcasecmp\<close> documents: zero exactly for strings equal up to the case of ASCII
  letters.
\<close>

definition ascii_lower :: "char \<Rightarrow> char" where
  "ascii_lower c = (if 65 \<le> (of_char c :: nat) \<and> (of_char c :: nat) \<le> 90
     then char_of ((of_char c :: nat) + 32) else c)"

definition casecmp_spec :: "(string \<Rightarrow> string \<Rightarrow> int) \<Rightarrow> bool" where
  "casecmp_spec cmp \<longleftrightarrow> (\<forall>a b. cmp a b = 0 \<longleftrightarrow> map ascii_lower a = map ascii_lower b)"

text \<open>A concrete comparison, for evaluating the model on inputs.\<close>

definition ascii_casecmp :: "string \<Rightarrow> string \<Rightarrow> int" where
  "ascii_casecmp a b = (if map ascii_lower a = map ascii_lower b then 0 else 1)"

lemma casecmp_spec_ascii [simp]: "casecmp_spec ascii_casecmp"
  by (simp add: casecmp_spec_def ascii_casecmp_def)

text \<open>
  The level names as a table: lower-case spellings and their levels.  A name is looked up with the
  case of its letters ignored.
\<close>

definition level_named :: "string \<Rightarrow> int option" where
  "level_named s = map_of
     [(''off'', 0), (''0'', 0), (''error'', 1), (''err'', 1), (''1'', 1), (''warn'', 2), (''warning'', 2), (''2'', 2),
      (''info'', 3), (''3'', 3), (''debug'', 4), (''dbg'', 4), (''4'', 4), (''trace'', 5), (''5'', 5)]
     (map ascii_lower s)"

lemma parse_level_table:
  assumes "casecmp_spec (g_ascii_strcasecmp L)"
  shows "acc_parse_loglevel L (Some s) = (case level_named s of None \<Rightarrow> ACC_LOG_ERROR | Some l \<Rightarrow> l)"
proof -
  define low where "low = map ascii_lower s"
  have cmp: "g_ascii_strcasecmp L s t = 0 \<longleftrightarrow> low = map ascii_lower t" for t
    using assms by (simp add: casecmp_spec_def low_def)
  have lower: "map ascii_lower ''off'' = ''off''" "map ascii_lower ''0'' = ''0''" "map ascii_lower ''error'' = ''error''"
    "map ascii_lower ''err'' = ''err''" "map ascii_lower ''1'' = ''1''" "map ascii_lower ''warn'' = ''warn''"
    "map ascii_lower ''warning'' = ''warning''" "map ascii_lower ''2'' = ''2''" "map ascii_lower ''info'' = ''info''"
    "map ascii_lower ''3'' = ''3''" "map ascii_lower ''debug'' = ''debug''" "map ascii_lower ''dbg'' = ''dbg''"
    "map ascii_lower ''4'' = ''4''" "map ascii_lower ''trace'' = ''trace''" "map ascii_lower ''5'' = ''5''"
    by (simp_all add: ascii_lower_def)
  have empty: "s = [] \<longleftrightarrow> low = []" by (simp add: low_def)
  show ?thesis
    unfolding acc_parse_loglevel_def level_named_def low_def [symmetric]
    by (simp only: option.case cmp lower empty map_of.simps fst_conv snd_conv fun_upd_apply) auto
qed

lemma parse_level_str:
  assumes "casecmp_spec (g_ascii_strcasecmp L)"
  shows "acc_parse_loglevel L (Some (acc_log_level_str 0)) = 0"
    and "acc_parse_loglevel L (Some (acc_log_level_str 1)) = 1"
    and "acc_parse_loglevel L (Some (acc_log_level_str 2)) = 2"
    and "acc_parse_loglevel L (Some (acc_log_level_str 3)) = 3"
    and "acc_parse_loglevel L (Some (acc_log_level_str 4)) = 4"
    and "acc_parse_loglevel L (Some (acc_log_level_str 5)) = 5"
  using assms
  by (simp_all add: acc_parse_loglevel_def acc_log_level_str_def casecmp_spec_def
      ascii_lower_def char_of_eq_iff)

end
