(* ===== verification/Acc_Mmio.thy ===== *)
theory Acc_Mmio
  imports Acc_Log
begin

text \<open>
  The BAR callbacks of \<^verbatim>\<open>accelerator_pcie.c\<close>: a guest access becomes one \<open>ACCData\<close> request on the
  socket \<open>qemu_req\<close>, and the callback blocks until the response arrives on \<open>qemu_resp\<close>.  The
  macros \<open>MMIO_WRITE_BAR(_num)\<close> and \<open>MMIO_READ_BAR(_num)\<close> define six functions each, which differ
  in the BAR number only; here the number is an argument.  Inside a macro body \<open>__LINE__\<close> is the
  line of the macro call.  At the end, runs of accesses and the messages they send.
\<close>

section \<open>Device state\<close>

text \<open>
  The communication channels of \<open>ACCPCIeState\<close>.  Its other members are QEMU objects (the PCI
  device, memory regions, NIC and character backend), which live in the world.
\<close>

record ACCPCIeState =
  qemu_req :: zsock
  qemu_resp :: zsock
  hdl_req :: zsock
  hdl_resp :: zsock
  nic_req :: zsock
  nic_resp :: zsock
  serial_tx_sock :: zsock
  serial_rx_sock :: zsock

section \<open>Operations\<close>

definition mmio_write_request :: "nat \<Rightarrow> u64 \<Rightarrow> u64 \<Rightarrow> u32 \<Rightarrow> u64 \<Rightarrow> ACCData" where
  "mmio_write_request num addr val sz txid =
     zero_ACCData\<lparr>acc_id := ucast txid, bar_num := of_nat num, address := addr,
       acc_buf := to_le 8 val @ drop 8 (acc_buf zero_ACCData),
       acc_op := ACCOp_val WRITE, data_size := sz\<rparr>"

text \<open>
  The part the two macros share: make the frame, send it, wait for the response.  A frame
  that could not be made or sent is only logged.
\<close>

definition mmio_exchange ::
  "('w, 'z) qemu_api_scheme \<Rightarrow> string \<Rightarrow> nat \<Rightarrow> ACCPCIeState \<Rightarrow> ACCData \<Rightarrow> ((qemu, 'w) proc, zframe) cprog" where
  "mmio_exchange L func line s req =
     bindC (callC (zframe_new L (encode_ACCData (replicate 7 0) req))) (\<lambda>frame.
     thenC (whenC (frame = None) (ACCELERATOR_EPRINTF L func line))
     (thenC (ACCELERATOR_DPRINTF L func line)
     (bindC (callC (zframe_send L frame (qemu_req s) 0)) (\<lambda>rv.
      thenC (whenC (rv \<noteq> 0) (ACCELERATOR_EPRINTF L func line))
      (acc_zframe_recv_logged L (qemu_resp s))))))"

definition mmio_write_bar ::
  "('w, 'z) qemu_api_scheme \<Rightarrow> nat \<Rightarrow> ACCPCIeState \<Rightarrow> u64 \<Rightarrow> u64 \<Rightarrow> u32 \<Rightarrow> ((qemu, 'w) proc, unit) cprog" where
  "mmio_write_bar L num s addr val sz =
     (let func = ''mmio_write_bar'' @ dec_nat num; line = 379 + num in
      bindC acc_next_txid (\<lambda>txid.
      thenC (ACCELERATOR_TPRINTF L func line)
      (bindC (mmio_exchange L func line s (mmio_write_request num addr val sz txid)) (\<lambda>resp.
       if resp = None then ACCELERATOR_EPRINTF L func line
       else doC (zframe_destroy L resp)))))"

definition mmio_read_request :: "nat \<Rightarrow> u64 \<Rightarrow> u32 \<Rightarrow> u64 \<Rightarrow> ACCData" where
  "mmio_read_request num addr sz txid =
     zero_ACCData\<lparr>acc_id := ucast txid, bar_num := of_nat num, address := addr,
       acc_op := ACCOp_val READ, data_size := sz\<rparr>"

text \<open>The \<open>switch (size)\<close> on the response: the first 1, 2, 4 or 8 bytes, else 0.\<close>

definition read_switch :: "u32 \<Rightarrow> byte list \<Rightarrow> u64" where
  "read_switch sz d =
     (if sz = 1 then of_le (take 1 d)
      else if sz = 2 then of_le (take 2 d)
      else if sz = 4 then of_le (take 4 d)
      else if sz = 8 then of_le (take 8 d)
      else 0)"

definition mmio_read_bar ::
  "('w, 'z) qemu_api_scheme \<Rightarrow> nat \<Rightarrow> ACCPCIeState \<Rightarrow> u64 \<Rightarrow> u32 \<Rightarrow> ((qemu, 'w) proc, u64) cprog" where
  "mmio_read_bar L num s addr sz =
     (let func = ''mmio_read_bar'' @ dec_nat num; line = 466 + num in
      bindC acc_next_txid (\<lambda>txid.
      thenC (ACCELERATOR_TPRINTF L func line)
      (bindC (mmio_exchange L func line s (mmio_read_request num addr sz txid)) (\<lambda>resp.
       case resp of
         None \<Rightarrow> thenC (ACCELERATOR_EPRINTF L func line) (retC 0)
       | Some bs \<Rightarrow>
           if length bs < sizeof_ACCData then
             thenC (ACCELERATOR_EPRINTF L func line)
             (thenC (doC (zframe_destroy L resp)) (retC 0))
           else
             (let data = read_switch sz (acc_buf (decode_ACCData bs)) in
              thenC (whenC (sz \<noteq> 1 \<and> sz \<noteq> 2 \<and> sz \<noteq> 4 \<and> sz \<noteq> 8)
                      (ACCELERATOR_EPRINTF L func line))
              (thenC (ACCELERATOR_TPRINTF L func line)
              (thenC (doC (zframe_destroy L resp)) (retC data))))))))"

section \<open>Behaviour\<close>

lemma wf_requests [simp]:
  "wf_ACCData (mmio_write_request num addr val sz txid)"
  "wf_ACCData (mmio_read_request num addr sz txid)"
  by (simp_all add: wf_ACCData_def mmio_write_request_def mmio_read_request_def zero_ACCData_def)

lemma request_fields [simp]:
  "data_size (mmio_write_request num addr val sz tx) = sz"
  "address (mmio_write_request num addr val sz tx) = addr"
  "acc_op (mmio_write_request num addr val sz tx) = ACCOp_val WRITE"
  "bar_num (mmio_write_request num addr val sz tx) = of_nat num"
  "acc_id (mmio_write_request num addr val sz tx) = ucast tx"
  "data_size (mmio_read_request num addr sz tx) = sz"
  "address (mmio_read_request num addr sz tx) = addr"
  "acc_op (mmio_read_request num addr sz tx) = ACCOp_val READ"
  "bar_num (mmio_read_request num addr sz tx) = of_nat num"
  "acc_id (mmio_read_request num addr sz tx) = ucast tx"
  by (simp_all add: mmio_write_request_def mmio_read_request_def)

lemma take_request_data: "n \<le> 8 \<Longrightarrow> take n (acc_buf (mmio_write_request num addr val sz tx)) = take n (to_le 8 val)"
  by (simp add: mmio_write_request_def)

text \<open>Logging does not change where the receive finds its frame.\<close>

lemma recv_ready_frame [simp]:
  "recv_ready L sock (log_fn L l f n g) = recv_ready L sock g"
  "recv_ready L sock (g\<lparr>acc_global_txid := t\<rparr>) = recv_ready L sock g"
  by (intro ext; simp add: recv_ready_def)+

text \<open>
  \<open>exchanged L s g req w resp w'\<close>: the world after the request is \<open>w2\<close>, whatever making and
  sending the frame answered, and the logged receive then gets \<open>resp\<close> and leaves \<open>w'\<close>.
\<close>

definition exchanged ::
  "('w, 'z) qemu_api_scheme \<Rightarrow> ACCPCIeState \<Rightarrow> qemu \<Rightarrow> ACCData \<Rightarrow> 'w \<Rightarrow> zframe \<Rightarrow> 'w \<Rightarrow> bool" where
  "exchanged L s g req w resp w' \<longleftrightarrow>
     (let (f, w1) = zframe_new L (encode_ACCData (replicate 7 0) req) w;
          w2 = snd (zframe_send L f (qemu_req s) 0 w1)
      in \<exists>w0. recv_ready L (qemu_resp s) g w2 w0 \<and> zframe_recv L (qemu_resp s) w0 = (resp, w'))"

lemma exchanged_frame [simp]:
  "exchanged L s (log_fn L l f n g) req w resp w' = exchanged L s g req w resp w'"
  "exchanged L s (g\<lparr>acc_global_txid := t\<rparr>) req w resp w' = exchanged L s g req w resp w'"
  by (simp_all add: exchanged_def)

lemma mmio_exchange_eq:
  assumes "log_ok g" and "exchanged L s g req w resp w'"
  shows "\<exists>g'. mmio_exchange L func line s req (g, w) = (Done resp, (g', w')) \<and> same_core L g g' \<and> log_ok g'"
proof -
  let ?F = "encode_ACCData (replicate 7 0) req"
  obtain f w1 where f: "zframe_new L ?F w = (f, w1)" by force
  obtain rv w2 where rv: "zframe_send L f (qemu_req s) 0 w1 = (rv, w2)" by force
  define g1 where "g1 = (if f = None then log_fn L ACC_LOG_ERROR func line g else g)"
  define g2 where "g2 = log_fn L ACC_LOG_DEBUG func line g1"
  define g3 where "g3 = (if rv \<noteq> 0 then log_fn L ACC_LOG_ERROR func line g2 else g2)"
  have ok: "log_ok g1" "log_ok g2" "log_ok g3" using assms(1)
    by (simp_all add: g1_def g2_def g3_def)
  from assms(2) f rv obtain w0 where w0: "recv_ready L (qemu_resp s) g w2 w0"
    and resp: "zframe_recv L (qemu_resp s) w0 = (resp, w')"
    by (auto simp: exchanged_def)
  from w0 have "recv_ready L (qemu_resp s) g3 w2 w0" by (simp add: g1_def g2_def g3_def)
  from recv_logged_eq [OF ok(3) this] resp obtain g4 where
    "acc_zframe_recv_logged L (qemu_resp s) (g3, w2) = (Done resp, (g4, w'))"
    and "same_core L g3 g4" "log_ok g4" by auto
  moreover have "same_core L g g3" by (simp add: g1_def g2_def g3_def)
  moreover have "mmio_exchange L func line s req (g, w) = acc_zframe_recv_logged L (qemu_resp s) (g3, w2)"
    using assms(1) f rv by (cases f; cases "rv = 0") (simp_all add: mmio_exchange_def g1_def g2_def g3_def cprog_simps)
  ultimately show ?thesis by (auto intro: same_core_trans)
qed

text \<open>Both callbacks open the same way: a fresh id, a trace line, the exchange.\<close>

lemma mmio_open:
  assumes "log_ok g" and "exchanged L s g (req (acc_global_txid g + 1)) w resp w'"
  shows "\<exists>g'. bindC acc_next_txid (\<lambda>txid. bindC (ACCELERATOR_TPRINTF L func line) (\<lambda>_.
      bindC (mmio_exchange L func line s (req txid)) k)) (g, w) = k resp (g', w')
    \<and> same_core L (g\<lparr>acc_global_txid := acc_global_txid g + 1\<rparr>) g' \<and> log_ok g'"
proof -
  let ?g = "log_fn L ACC_LOG_TRACE func line (g\<lparr>acc_global_txid := acc_global_txid g + 1\<rparr>)"
  have ok: "log_ok ?g" and ex: "exchanged L s ?g (req (acc_global_txid g + 1)) w resp w'"
    using assms(2) by simp_all
  from mmio_exchange_eq [OF ok ex, of func line] obtain g' where
    "mmio_exchange L func line s (req (acc_global_txid g + 1)) (?g, w) = (Done resp, (g', w'))"
    "same_core L ?g g'" "log_ok g'" by blast
  with assms(1) show ?thesis
    by (intro exI [of _ g']) (simp add: cprog_simps)
qed

lemma mmio_write_bar_eq:
  assumes "log_ok g"
    and "exchanged L s g (mmio_write_request num addr val sz (acc_global_txid g + 1)) w resp w'"
  shows "\<exists>g'. mmio_write_bar L num s addr val sz (g, w) =
      (Done (), (g', if resp = None then w' else zframe_destroy L resp w'))
    \<and> same_core L (g\<lparr>acc_global_txid := acc_global_txid g + 1\<rparr>) g' \<and> log_ok g'"
proof -
  let ?func = "''mmio_write_bar'' @ dec_nat num" and ?line = "379 + num"
  let ?k = "\<lambda>resp. if resp = None then ACCELERATOR_EPRINTF L ?func ?line else doC (zframe_destroy L resp)"
  from mmio_open [of g L s "mmio_write_request num addr val sz", OF assms, of ?func ?line ?k]
  obtain g' where "mmio_write_bar L num s addr val sz (g, w) = ?k resp (g', w')"
    "same_core L (g\<lparr>acc_global_txid := acc_global_txid g + 1\<rparr>) g'" "log_ok g'"
    by (auto simp only: mmio_write_bar_def Let_def thenC_def)
  then show ?thesis by (auto simp: cprog_simps)
qed

text \<open>
  A read returns the first \<open>sz\<close> bytes of the response's buffer, and 0 when there is no response,
  a short one, or an access size the switch does not know.
\<close>

definition response_value :: "u32 \<Rightarrow> zframe \<Rightarrow> u64" where
  "response_value sz resp = (case resp of None \<Rightarrow> 0
     | Some bs \<Rightarrow> if length bs < sizeof_ACCData then 0
                else read_switch sz (acc_buf (decode_ACCData bs)))"

lemma mmio_read_bar_eq:
  assumes "log_ok g"
    and "exchanged L s g (mmio_read_request num addr sz (acc_global_txid g + 1)) w resp w'"
  shows "\<exists>g'. mmio_read_bar L num s addr sz (g, w) =
      (Done (response_value sz resp), (g', if resp = None then w' else zframe_destroy L resp w'))
    \<and> same_core L (g\<lparr>acc_global_txid := acc_global_txid g + 1\<rparr>) g' \<and> log_ok g'"
proof -
  let ?func = "''mmio_read_bar'' @ dec_nat num" and ?line = "466 + num"
  let ?k = "\<lambda>resp. case resp of
         None \<Rightarrow> thenC (ACCELERATOR_EPRINTF L ?func ?line) (retC 0)
       | Some bs \<Rightarrow>
           if length bs < sizeof_ACCData then
             thenC (ACCELERATOR_EPRINTF L ?func ?line)
             (thenC (doC (zframe_destroy L resp)) (retC 0))
           else
             (let data = read_switch sz (acc_buf (decode_ACCData bs)) in
              thenC (whenC (sz \<noteq> 1 \<and> sz \<noteq> 2 \<and> sz \<noteq> 4 \<and> sz \<noteq> 8)
                      (ACCELERATOR_EPRINTF L ?func ?line))
              (thenC (ACCELERATOR_TPRINTF L ?func ?line)
              (thenC (doC (zframe_destroy L resp)) (retC data))))"
  from mmio_open [of g L s "mmio_read_request num addr sz", OF assms, of ?func ?line ?k]
  obtain g' where g': "mmio_read_bar L num s addr sz (g, w) = ?k resp (g', w')"
    "same_core L (g\<lparr>acc_global_txid := acc_global_txid g + 1\<rparr>) g'" "log_ok g'"
    by (auto simp only: mmio_read_bar_def Let_def thenC_def)
  have "\<exists>g''. ?k resp (g', w') = (Done (response_value sz resp),
      (g'', if resp = None then w' else zframe_destroy L resp w')) \<and> same_core L g' g'' \<and> log_ok g''"
    using g'(3) by (cases resp) (simp_all add: response_value_def cprog_simps)
  with g' show ?thesis by (auto simp: same_core_def)
qed

lemma read_switch_bytes:
  "sz \<in> {1, 2, 4, 8} \<Longrightarrow> read_switch sz d = of_le (take (unat sz) d)"
  by (auto simp: read_switch_def)

section \<open>Runs of guest accesses\<close>

text \<open>
  A guest makes its accesses one after the other, as each callback returns before the next is
  called; \<open>run_mmio\<close> collects what the reads return.  \<open>mmio_request\<close> is the message an access sends
  with a given transaction id.
\<close>

datatype mmio_op = Mmio_write nat u64 u64 u32 | Mmio_read nat u64 u32

fun run_mmio ::
  "('w, 'z) qemu_api_scheme \<Rightarrow> ACCPCIeState \<Rightarrow> mmio_op list \<Rightarrow> ((qemu, 'w) proc, u64 list) cprog" where
  "run_mmio L s [] = retC []"
| "run_mmio L s (Mmio_write num addr val sz # ops) =
     thenC (mmio_write_bar L num s addr val sz) (run_mmio L s ops)"
| "run_mmio L s (Mmio_read num addr sz # ops) =
     bindC (mmio_read_bar L num s addr sz) (\<lambda>v.
     bindC (run_mmio L s ops) (\<lambda>vs. retC (v # vs)))"

fun mmio_request :: "mmio_op \<Rightarrow> u64 \<Rightarrow> ACCData" where
  "mmio_request (Mmio_write num addr val sz) txid = mmio_write_request num addr val sz txid"
| "mmio_request (Mmio_read num addr sz) txid = mmio_read_request num addr sz txid"

fun mmio_address :: "mmio_op \<Rightarrow> u64" where
  "mmio_address (Mmio_write num addr val sz) = addr"
| "mmio_address (Mmio_read num addr sz) = addr"

lemma mmio_request_simps [simp]:
  "wf_ACCData (mmio_request op t)" "acc_id (mmio_request op t) = ucast t"
  "address (mmio_request op t) = mmio_address op"
  by (cases op; simp)+

text \<open>The frames a run sends when the counter starts at \<open>t\<close>.\<close>

fun mmio_frames :: "u64 \<Rightarrow> mmio_op list \<Rightarrow> byte list list" where
  "mmio_frames t [] = []"
| "mmio_frames t (op # ops) =
     encode_ACCData (replicate 7 0) (mmio_request op (t + 1)) # mmio_frames (t + 1) ops"

lemma length_mmio_frames [simp]: "length (mmio_frames t ops) = length ops"
  by (induction ops arbitrary: t) simp_all

lemma mmio_frames_address: "map (\<lambda>f. address (decode_ACCData f)) (mmio_frames t ops) = map mmio_address ops"
  by (induction ops arbitrary: t) (simp_all add: acc.dec_enc)

lemma mmio_frames_ids:
  "map (\<lambda>f. acc_id (decode_ACCData f)) (mmio_frames t ops)
     = map (\<lambda>i. ucast (t + of_nat (Suc i))) [0..<length ops]"
proof (induction ops arbitrary: t)
  case Nil
  then show ?case by simp
next
  case (Cons op ops)
  have "[0..<length (op # ops)] = 0 # map Suc [0..<length ops]"
    by (simp add: upt_conv_Cons map_Suc_upt del: upt_Suc)
  with Cons show ?case by (simp add: acc.dec_enc comp_def add.assoc del: upt_Suc)
qed

text \<open>The 32-bit field keeps the ids apart for \<open>2 ^ 32\<close> accesses.\<close>

lemma ids_distinct:
  assumes "n \<le> 2 ^ 32"
  shows "distinct (map (\<lambda>i. ucast (t + of_nat (Suc i) :: u64) :: u32) [0..<n])"
proof -
  have "i = j" if "i < n" "j < n" "(ucast (t + of_nat (Suc i)) :: u32) = ucast (t + of_nat (Suc j))" for i j
  proof -
    have "(of_nat i :: u32) = of_nat j"
      using that(3) by (simp only: ucast_add_u32 ucast_of_nat_u32 add_left_cancel of_nat_Suc)
    moreover have "i < 2 ^ 32" "j < 2 ^ 32" using that(1,2) assms by simp_all
    ultimately show ?thesis by (simp only: of_nat_inject_u32)
  qed
  then have "inj_on (\<lambda>i. ucast (t + of_nat (Suc i)) :: u32) {0..<n}" by (intro inj_onI) auto
  then show ?thesis by (simp add: distinct_map)
qed

text \<open>
  \<open>sent\<close> is what left the device on its request socket: making a frame takes its bytes, sending it
  on that socket appends them, and neither waiting for the response nor releasing it sends anything
  there.
\<close>

locale request_log =
  fixes L :: "('w, 'z) qemu_api_scheme"
    and s :: ACCPCIeState
    and sent :: "'w \<Rightarrow> byte list list"
  assumes frame_made: "fst (zframe_new L d w) = Some d" "sent (snd (zframe_new L d w)) = sent w"
    and request_sent: "sent (snd (zframe_send L (Some d) (qemu_req s) 0 w)) = sent w @ [d]"
    and response_taken: "sent (snd (zframe_recv L (qemu_resp s) w)) = sent w"
    and frame_released: "sent (zframe_destroy L f w) = sent w"
begin

lemma exchanged_sends:
  assumes "acc_zmq_warn_ms (log_init_fn L g) \<le> 0"
  obtains resp w' where "exchanged L s g req w resp w'"
    "sent w' = sent w @ [encode_ACCData (replicate 7 0) req]"
proof -
  let ?F = "encode_ACCData (replicate 7 0) req"
  let ?w2 = "snd (zframe_send L (Some ?F) (qemu_req s) 0 (snd (zframe_new L ?F w)))"
  have "exchanged L s g req w (fst (zframe_recv L (qemu_resp s) ?w2)) (snd (zframe_recv L (qemu_resp s) ?w2))"
    using assms frame_made(1) [of ?F w] by (auto simp: exchanged_def recv_ready_def Let_def split: prod.splits)
  moreover have "sent (snd (zframe_recv L (qemu_resp s) ?w2)) = sent w @ [?F]"
    by (simp add: response_taken request_sent frame_made(2))
  ultimately show ?thesis by (rule that)
qed

lemma run_mmio_sends:
  assumes "log_ok g" and "acc_zmq_warn_ms (log_init_fn L g) \<le> 0"
  shows "\<exists>vs g' w'. run_mmio L s ops (g, w) = (Done vs, (g', w'))
    \<and> sent w' = sent w @ mmio_frames (acc_global_txid g) ops"
  using assms
proof (induction ops arbitrary: g w)
  case Nil
  then show ?case by (simp add: cprog_simps)
next
  case (Cons op ops)
  let ?t = "acc_global_txid g + 1"
  obtain resp w1 where ex: "exchanged L s g (mmio_request op ?t) w resp w1"
    and w1: "sent w1 = sent w @ [encode_ACCData (replicate 7 0) (mmio_request op ?t)]"
    using exchanged_sends [OF Cons.prems(2)] .
  let ?w = "if resp = None then w1 else zframe_destroy L resp w1"
  have "\<exists>h g1. run_mmio L s (op # ops) (g, w) = bindC (run_mmio L s ops) (\<lambda>vs. retC (h vs)) (g1, ?w)
      \<and> same_core L (g\<lparr>acc_global_txid := ?t\<rparr>) g1 \<and> log_ok g1"
  proof (cases op)
    case (Mmio_write num addr val sz)
    with ex mmio_write_bar_eq [OF Cons.prems(1), of L s num addr val sz w resp w1] obtain g1 where
      "run_mmio L s (op # ops) (g, w) = run_mmio L s ops (g1, ?w)"
      "same_core L (g\<lparr>acc_global_txid := ?t\<rparr>) g1" "log_ok g1"
      by (auto simp: thenC_def bindC_Done)
    then show ?thesis by (intro exI [of _ "\<lambda>vs. vs"] exI [of _ g1]) (simp add: bindC_retC)
  next
    case (Mmio_read num addr sz)
    with ex mmio_read_bar_eq [OF Cons.prems(1), of L s num addr sz w resp w1] obtain g1 where
      "run_mmio L s (op # ops) (g, w) =
        bindC (run_mmio L s ops) (\<lambda>vs. retC (response_value sz resp # vs)) (g1, ?w)"
      "same_core L (g\<lparr>acc_global_txid := ?t\<rparr>) g1" "log_ok g1"
      by (auto simp: bindC_Done)
    then show ?thesis by (intro exI [of _ "Cons (response_value sz resp)"] exI [of _ g1]) simp
  qed
  then obtain h g1 where
    g1: "run_mmio L s (op # ops) (g, w) = bindC (run_mmio L s ops) (\<lambda>vs. retC (h vs)) (g1, ?w)"
    "same_core L (g\<lparr>acc_global_txid := ?t\<rparr>) g1" "log_ok g1" by blast
  then have "acc_zmq_warn_ms (log_init_fn L g1) \<le> 0" "acc_global_txid g1 = ?t"
    using Cons.prems(2) by (simp_all add: same_core_def)
  with Cons.IH [OF g1(3), of ?w] g1(1) w1 show ?case
    by (auto simp: frame_released cprog_simps)
qed

end

end
