(* ===== verification/Axi_Memory.thy ===== *)
theory Axi_Memory
  imports Cosim_Prelude
begin

text \<open>
  Byte-addressed memory and single AXI beats, the vocabulary in which the effect of the
  bridge's transactions is stated.  A beat transfers the \<open>busw\<close> byte lanes of the aligned block
  that holds its address; on a write only the lanes whose strobe bit is set change.  These are
  specifications of the bus and of memory, not translations of code.
\<close>

type_synonym mem = "u64 \<Rightarrow> byte"

definition mem_load :: "mem \<Rightarrow> u64 \<Rightarrow> nat \<Rightarrow> byte list" where
  "mem_load m a n = map (\<lambda>i. m (a + of_nat i)) [0..<n]"

definition mem_store :: "mem \<Rightarrow> u64 \<Rightarrow> byte list \<Rightarrow> mem" where
  "mem_store m a bs = (\<lambda>x. if unat (x - a) < length bs then bs ! unat (x - a) else m x)"

definition lane_base :: "u64 \<Rightarrow> u64 \<Rightarrow> u64" where
  "lane_base busw a = a - a mod busw"

definition axi_write_beat :: "u64 \<Rightarrow> u64 \<Rightarrow> u64 \<Rightarrow> byte list \<Rightarrow> mem \<Rightarrow> mem" where
  "axi_write_beat busw a strb data m = (\<lambda>x. let lane = unat (x - lane_base busw a) in
     if lane < unat busw \<and> bit strb lane then data ! lane else m x)"

definition axi_read_beat :: "u64 \<Rightarrow> u64 \<Rightarrow> mem \<Rightarrow> byte list" where
  "axi_read_beat busw a m = mem_load m (lane_base busw a) (unat busw)"

lemma length_mem_load [simp]: "length (mem_load m a n) = n"
  by (simp add: mem_load_def)

lemma nth_mem_load [simp]: "i < n \<Longrightarrow> mem_load m a n ! i = m (a + of_nat i)"
  by (simp add: mem_load_def)

lemma mem_load_store:
  assumes "length bs < 2 ^ 64"
  shows "mem_load (mem_store m a bs) a (length bs) = bs"
proof (rule nth_equalityI)
  fix i
  assume "i < length (mem_load (mem_store m a bs) a (length bs))"
  then have i: "i < length bs" by simp
  with assms have "unat (of_nat i :: u64) = i" by (simp add: unat_of_nat)
  with i show "mem_load (mem_store m a bs) a (length bs) ! i = bs ! i"
    by (simp add: mem_store_def)
qed simp

lemma mem_store_outside: "length bs \<le> unat (x - a) \<Longrightarrow> mem_store m a bs x = m x"
  by (simp add: mem_store_def)

text \<open>
  A beat whose strobe selects exactly the \<open>length bs\<close> lanes from the address on, with the data
  placed in those lanes, stores \<open>bs\<close> at the address.
\<close>

lemma axi_write_beat_store:
  assumes busw: "0 < unat busw" "unat busw \<le> 64"
    and fits: "unat (a mod busw) + length bs \<le> unat busw"
    and strb: "strb = push_bit (unat (a mod busw)) (2 ^ length bs - 1)"
    and data: "\<And>i. i < length bs \<Longrightarrow> data ! (unat (a mod busw) + i) = bs ! i"
  shows "axi_write_beat busw a strb data m = mem_store m a bs"
proof (rule ext)
  fix x
  define k l where "k = unat (a mod busw)" and "l = x - lane_base busw a"
  have "x - a = l - of_nat k" by (simp add: l_def k_def lane_base_def)
  moreover have "k + length bs < 2 ^ LENGTH(64)" using fits busw by (simp add: k_def)
  ultimately have inside: "unat (x - a) < length bs \<longleftrightarrow> k \<le> unat l \<and> unat l < k + length bs"
    using unat_sub_range [of k "length bs" l] by simp
  have bits: "bit strb (unat l) \<longleftrightarrow> unat l < 64 \<and> k \<le> unat l \<and> unat l < k + length bs"
    unfolding strb k_def [symmetric] by (simp add: bit_ones_shifted)
  show "axi_write_beat busw a strb data m x = mem_store m a bs x"
  proof (cases "unat (x - a) < length bs")
    case True
    with inside fits busw bits have "bit strb (unat l)" "unat l < unat busw"
      by (auto simp: k_def)
    moreover have "unat l = k + unat (x - a)"
    proof -
      have "of_nat k \<le> l" using True inside fits busw
        by (simp add: word_le_nat_alt unat_of_nat k_def)
      then have "unat (l - of_nat k) = unat l - k"
        using fits busw by (simp add: unat_sub unat_of_nat k_def)
      with True inside \<open>x - a = l - of_nat k\<close> show ?thesis by simp
    qed
    ultimately show ?thesis
      using True data [of "unat (x - a)"]
      by (simp add: axi_write_beat_def mem_store_def Let_def l_def [symmetric] k_def)
  next
    case False
    with inside bits have "\<not> bit strb (unat l)" by blast
    with False show ?thesis
      by (simp add: axi_write_beat_def mem_store_def Let_def l_def [symmetric])
  qed
qed

text \<open>The lanes of a read beat from the address on hold the bytes at the address.\<close>

lemma axi_read_beat_load:
  assumes "0 < unat busw" and "unat (a mod busw) + n \<le> unat busw"
  shows "take n (drop (unat (a mod busw)) (axi_read_beat busw a m)) = mem_load m a n"
proof (rule nth_equalityI)
  show "length (take n (drop (unat (a mod busw)) (axi_read_beat busw a m))) = length (mem_load m a n)"
    using assms by (simp add: axi_read_beat_def)
  fix i
  assume "i < length (take n (drop (unat (a mod busw)) (axi_read_beat busw a m)))"
  with assms have "i < n" and "unat (a mod busw) + i < unat busw"
    by (simp_all add: axi_read_beat_def)
  then show "take n (drop (unat (a mod busw)) (axi_read_beat busw a m)) ! i = mem_load m a n ! i"
    by (simp add: axi_read_beat_def lane_base_def)
qed

end
