(* ===== verification/Zmq_Link.thy ===== *)
theory Zmq_Link
  imports Acc_Endpoints Axi_Memory
begin

text \<open>
  What the programs rely on of the libraries, as locales over an arbitrary world.  \<open>zmq_fifo\<close> is
  the documented behaviour of connected PUSH/PULL sockets and of a poller with timeout 0:
  frames arrive unchanged, in the order they were sent, at the socket the sender is connected
  to; a receive on an empty socket waits for what the peer process does; the poller answers
  the first socket of its list that has a frame.  \<open>qemu_host\<close> adds guest memory and MSI-X.
\<close>

text \<open>The first socket of the list with a frame waiting.\<close>

fun first_ready :: "(nat \<Rightarrow> byte list list) \<Rightarrow> zsock list \<Rightarrow> zsock" where
  "first_ready qs [] = None"
| "first_ready qs (s # ss) = (case s of
     None \<Rightarrow> first_ready qs ss
   | Some n \<Rightarrow> if qs n \<noteq> [] then Some n else first_ready qs ss)"

locale zmq_fifo =
  fixes L :: "('w, 'z) czmq_scheme"
    and q :: "'w \<Rightarrow> nat \<Rightarrow> byte list list"
    and enq :: "nat \<Rightarrow> byte list \<Rightarrow> 'w \<Rightarrow> 'w"
    and deq :: "nat \<Rightarrow> 'w \<Rightarrow> 'w"
    and link :: "nat \<Rightarrow> nat"
    and peer :: "'w \<Rightarrow> 'w"
  assumes frame_new: "zframe_new L d w = (Some d, w)"
    and frame_destroy: "zframe_destroy L f w = w"
    and frame_send: "zframe_send L (Some d) (Some s) fl w = (0, enq (link s) d w)"
    and frame_recv: "q w s = d # ds \<Longrightarrow> zframe_recv L (Some s) w = (Some d, deq s w)"
    and recv_waits: "q w s = [] \<Longrightarrow> q (peer w) s \<noteq> [] \<Longrightarrow>
           zframe_recv L (Some s) w = zframe_recv L (Some s) (peer w)"
    and q_enq: "q (enq s d w) = (q w)(s := q w s @ [d])"
    and q_deq: "q w s = d # ds \<Longrightarrow> q (deq s w) = (q w)(s := ds)"
    and poller_new: "zpoller_new L ss w = (Some ss, w)"
    and poller_wait: "zpoller_wait L (Some ss) 0 w = (first_ready (q w) ss, w)"
    and poller_ready: "first_ready (q w) ss \<noteq> None \<Longrightarrow> \<not> zpoller_expired L (Some ss) w"
    and poller_alive: "\<not> zpoller_terminated L p w"
    and poller_destroy: "zpoller_destroy L p w = w"
begin

lemmas zmq_laws = frame_new frame_destroy frame_send poller_new poller_wait poller_destroy
  poller_alive q_enq

text \<open>Polling one socket: it is reported exactly when a frame waits.\<close>

lemma poll_one: "zpoller_wait L (Some [Some s]) 0 w = (if q w s = [] then None else Some s, w)"
  by (simp add: poller_wait)

lemma poll_one_ready: "q w s \<noteq> [] \<Longrightarrow> \<not> zpoller_expired L (Some [Some s]) w"
  by (rule poller_ready) simp

text \<open>A frame sent over an empty connection is the next one received.\<close>

lemma send_recv:
  assumes "q w (link s) = []"
  shows "zframe_recv L (Some (link s)) (snd (zframe_send L (Some d) (Some s) fl w))
    = (Some d, deq (link s) (enq (link s) d w))"
  using assms frame_recv [of "enq (link s) d w" "link s" d "[]"] by (simp add: zmq_laws)

text \<open>Sending over an empty connection and taking the frame off again restores the queues.\<close>

lemma q_enq_clear: "q w s = [] \<Longrightarrow> (q (enq s d w))(s := []) = q w"
  by (auto simp: q_enq)

lemma q_enq_deq: "q w s = [] \<Longrightarrow> q (deq s (enq s d w)) = q w"
  using q_deq [of "enq s d w" s d "[]"] by (auto simp: q_enq)

text \<open>Frames waiting at other sockets are untouched by a send and a receive.\<close>

lemma q_other: "s \<noteq> t \<Longrightarrow> q (enq s d w) t = q w t"
  by (simp add: q_enq)

end

locale qemu_host = zmq_fifo L q enq deq link peer
  for L :: "('w, 'z) qemu_api_scheme"
    and q :: "'w \<Rightarrow> nat \<Rightarrow> byte list list"
    and enq :: "nat \<Rightarrow> byte list \<Rightarrow> 'w \<Rightarrow> 'w"
    and deq :: "nat \<Rightarrow> 'w \<Rightarrow> 'w"
    and link :: "nat \<Rightarrow> nat"
    and peer :: "'w \<Rightarrow> 'w" +
  fixes ram :: "'w \<Rightarrow> mem"
    and irqs :: "'w \<Rightarrow> u32 list"
  assumes mem_read: "cpu_physical_memory_read L a n w = (mem_load (ram w) a n, w)"
    and mem_write: "ram (cpu_physical_memory_write L a bs w) = mem_store (ram w) a bs"
    and mem_write_frame: "q (cpu_physical_memory_write L a bs w) = q w"
        "irqs (cpu_physical_memory_write L a bs w) = irqs w"
    and notify: "irqs (msix_notify L v w) = irqs w @ [v]"
    and notify_frame: "q (msix_notify L v w) = q w" "ram (msix_notify L v w) = ram w"
    and queue_frame: "ram (enq s d w) = ram w" "irqs (enq s d w) = irqs w"
        "ram (deq s w) = ram w" "irqs (deq s w) = irqs w"

text \<open>
  Opening sockets on free local ports.  A PUSH socket made with \<open>@\<close> is bound to the port, a PULL
  socket made with \<open>>\<close> connects to it, and the two ends of one port are connected; ports do not
  share sockets.  Closing a socket leaves the frames at other sockets alone.
\<close>

definition tcp_port :: "int \<Rightarrow> bool" where
  "tcp_port p \<longleftrightarrow> 0 < p \<and> p < 65536"

locale zmq_ports = zmq_fifo L q enq deq link peer
  for L :: "('w, 'z) czmq_scheme"
    and q :: "'w \<Rightarrow> nat \<Rightarrow> byte list list"
    and enq :: "nat \<Rightarrow> byte list \<Rightarrow> 'w \<Rightarrow> 'w"
    and deq :: "nat \<Rightarrow> 'w \<Rightarrow> 'w"
    and link :: "nat \<Rightarrow> nat"
    and peer :: "'w \<Rightarrow> 'w" +
  fixes bound :: "int \<Rightarrow> nat"
    and conn :: "int \<Rightarrow> nat"
  assumes open_push: "tcp_port p \<Longrightarrow> zsock_new_push L (SOCK_BASE SEND_SOCK p) w = (Some (bound p), w)"
    and open_pull: "tcp_port p \<Longrightarrow> zsock_new_pull L (SOCK_BASE RECV_SOCK p) w = (Some (conn p), w)"
    and link_bound: "tcp_port p \<Longrightarrow> link (bound p) = conn p"
    and conn_inj: "tcp_port p \<Longrightarrow> tcp_port p' \<Longrightarrow> conn p = conn p' \<longleftrightarrow> p = p'"
    and sock_close: "t \<noteq> n \<Longrightarrow> q (zsock_destroy L (Some n) w) t = q w t"
begin

lemma endpoint_of_port:
  assumes "tcp_port (port + k)" and "length mode \<le> 1"
  shows "sock_endpoint mode port k = Some (SOCK_BASE mode (port + k))"
  using assms by (intro sock_endpoint_fits) (auto simp: tcp_port_def in_int_def)

lemma pushC_eq [cprog_simps]:
  "tcp_port (port + k) \<Longrightarrow> pushC L SEND_SOCK port k (g, w) = (Done (Some (bound (port + k))), (g, w))"
  by (simp add: pushC_def cprog_simps endpoint_of_port sock_modes open_push [unfolded sock_modes])

lemma pullC_eq [cprog_simps]:
  "tcp_port (port + k) \<Longrightarrow> pullC L RECV_SOCK port k (g, w) = (Done (Some (conn (port + k))), (g, w))"
  by (simp add: pullC_def cprog_simps endpoint_of_port sock_modes open_pull [unfolded sock_modes])

end

end
