(* ===== verification/Acc_Hdl_Request.thy ===== *)
theory Acc_Hdl_Request
  imports Acc_Mmio Zmq_Link
begin

text \<open>
  \<open>handle_hdl_request\<close> of \<^verbatim>\<open>accelerator_pcie.c\<close>, the callback QEMU runs when the socket \<open>hdl_req\<close> has
  activity: it drains the socket, serving the hardware's accesses to guest memory and its
  interrupts.  The specification \<open>hdl_serve\<close> says what one message does to guest memory, to the
  interrupts raised and to the responses; the theorems show that the callback does exactly
  that for all waiting messages in order, and what it does on a short frame.
\<close>

section \<open>The callback\<close>

text \<open>
  The frame's memory after \<open>cpu_physical_memory_read(addr, acc_data->data, n)\<close>: the first \<open>n\<close> bytes
  of the data buffer are overwritten in place; more than the buffer holds is undefined.
\<close>

definition frame_put_data :: "byte list \<Rightarrow> byte list \<Rightarrow> byte list" where
  "frame_put_data bs d = take 21 bs @ d @ drop (21 + length d) bs"

text \<open>
  The two transfers.  \<open>acc->data\<close> is an array of 4096 bytes and nothing compares \<open>data_size\<close> with it;
  going past the array is undefined, also where the bytes behind it (the vector and the padding of
  the structure, or the rest of a longer frame) still belong to the frame.
\<close>

definition hdl_read :: "('w, 'z) qemu_api_scheme \<Rightarrow> ACCPCIeState \<Rightarrow> byte list \<Rightarrow> ACCData
   \<Rightarrow> ((qemu, 'w) proc, byte list) cprog" where
  "hdl_read L s bs acc =
     thenC (ACCELERATOR_DPRINTF L ''handle_hdl_request'' 519)
     (bindC (definedC (if unat (data_size acc) \<le> BUFF_SIZE then Some (unat (data_size acc)) else None)) (\<lambda>n.
      bindC (callC (cpu_physical_memory_read L (address acc) n)) (\<lambda>d.
      (let bs' = frame_put_data bs d in
       bindC (callC (zframe_send L (Some bs') (hdl_resp s) ZFRAME_REUSE)) (\<lambda>rv.
       if rv \<noteq> 0 then thenC (ACCELERATOR_EPRINTF L ''handle_hdl_request'' 525) (exitC 1)
       else retC bs')))))"

definition hdl_write :: "('w, 'z) qemu_api_scheme \<Rightarrow> byte list \<Rightarrow> ACCData
   \<Rightarrow> ((qemu, 'w) proc, byte list) cprog" where
  "hdl_write L bs acc =
     thenC (ACCELERATOR_DPRINTF L ''handle_hdl_request'' 532)
     (bindC (definedC (if unat (data_size acc) \<le> BUFF_SIZE then Some (unat (data_size acc)) else None)) (\<lambda>n.
      thenC (doC (cpu_physical_memory_write L (address acc) (take n (acc_buf acc)))) (retC bs)))"

text \<open>One round of the loop, with the \<open>switch (req)\<close>.\<close>

definition hdl_request_round ::
  "('w, 'z) qemu_api_scheme \<Rightarrow> ACCPCIeState \<Rightarrow> zpoller \<Rightarrow> ((qemu, 'w) proc, unit option) cprog" where
  "hdl_request_round L s poller =
     bindC (callC (zpoller_wait L poller 0)) (\<lambda>which.
     bindC (queryC (zpoller_expired L poller)) (\<lambda>expired.
     bindC (queryC (zpoller_terminated L poller)) (\<lambda>terminated.
     if expired \<or> terminated \<or> which \<noteq> hdl_req s then
       thenC (doC (zpoller_destroy L poller))
       (thenC (ACCELERATOR_TPRINTF L ''handle_hdl_request'' 495) (retC (Some ())))
     else
       bindC (callC (zframe_recv L (hdl_req s))) (\<lambda>frame.
       case frame of
         None \<Rightarrow> thenC (ACCELERATOR_EPRINTF L ''handle_hdl_request'' 501) (exitC 1)
       | Some bs \<Rightarrow>
           if length bs < sizeof_ACCData then
             thenC (ACCELERATOR_EPRINTF L ''handle_hdl_request'' 506)
             (thenC (doC (zframe_destroy L frame)) (exitC 1))
           else
             (let acc = decode_ACCData bs; req = acc_op acc in
              thenC (ACCELERATOR_TPRINTF L ''handle_hdl_request'' 515)
              (bindC
                (if req = ACCOp_val READ then hdl_read L s bs acc
                 else if req = ACCOp_val WRITE then hdl_write L bs acc
                 else if req = ACCOp_val INTR then
                   thenC (ACCELERATOR_DPRINTF L ''handle_hdl_request'' 538)
                   (thenC (doC (msix_notify L (vector acc))) (retC bs))
                 else retC bs) (\<lambda>bs'.
               thenC (doC (zframe_destroy L (Some bs'))) (retC None))))))))"

definition handle_hdl_request ::
  "('w, 'z) qemu_api_scheme \<Rightarrow> ACCPCIeState \<Rightarrow> ((qemu, 'w) proc, unit) cprog" where
  "handle_hdl_request L s =
     thenC (ACCELERATOR_TPRINTF L ''handle_hdl_request'' 481)
     (bindC (callC (zpoller_new L [hdl_req s])) (\<lambda>poller.
      thenC (whenC (poller = None) (ACCELERATOR_EPRINTF L ''handle_hdl_request'' 486))
      (loopC (hdl_request_round L s poller))))"

section \<open>Specification\<close>

text \<open>
  What one message of the hardware asks for, on guest memory, the raised interrupts and the
  list of responses.
\<close>

type_synonym hdl_view = "mem \<times> u32 list \<times> byte list list"

fun hdl_serve :: "byte list \<Rightarrow> hdl_view \<Rightarrow> hdl_view" where
  "hdl_serve bs (m, irq, out) =
     (let acc = decode_ACCData bs; n = unat (data_size acc) in
      if acc_op acc = ACCOp_val READ
        then (m, irq, out @ [frame_put_data bs (mem_load m (address acc) n)])
      else if acc_op acc = ACCOp_val WRITE
        then (mem_store m (address acc) (take n (acc_buf acc)), irq, out)
      else if acc_op acc = ACCOp_val INTR then (m, irq @ [vector acc], out)
      else (m, irq, out))"

text \<open>Frames the callback accepts: long enough, and no transfer larger than the buffer.\<close>

definition hdl_frame_ok :: "byte list \<Rightarrow> bool" where
  "hdl_frame_ok bs \<longleftrightarrow> sizeof_ACCData \<le> length bs
     \<and> (acc_op (decode_ACCData bs) \<in> {ACCOp_val READ, ACCOp_val WRITE}
          \<longrightarrow> unat (data_size (decode_ACCData bs)) \<le> BUFF_SIZE)"

context qemu_host
begin

lemma hdl_round_serves:
  assumes ok: "log_ok g" and hr: "hdl_req s = Some hr" and hp: "hdl_resp s = Some hp"
    and ne: "link hp \<noteq> hr" and qw: "q w hr = bs # rest" and fr: "hdl_frame_ok bs"
  shows "\<exists>g' w'. hdl_request_round L s (Some [Some hr]) (g, w) = (Done None, (g', w'))
    \<and> log_ok g' \<and> same_core L g g' \<and> q w' hr = rest \<and> (ram w', irqs w', q w' (link hp)) = hdl_serve bs (ram w, irqs w, q w (link hp))
    \<and> (\<forall>t. t \<noteq> hr \<longrightarrow> t \<noteq> link hp \<longrightarrow> q w' t = q w t)"
proof -
  define acc where "acc = decode_ACCData bs"
  define g1 where "g1 = log_fn L ACC_LOG_TRACE ''handle_hdl_request'' 515 g"
  have ready: "\<not> zpoller_expired L (Some [Some hr]) w" using qw by (intro poll_one_ready) simp
  have recv: "zframe_recv L (Some hr) w = (Some bs, deq hr w)" using frame_recv [OF qw] .
  have qd: "q (deq hr w) = (q w)(hr := rest)" using q_deq [OF qw] .
  have len: "\<not> length bs < sizeof_ACCData" using fr by (simp add: hdl_frame_ok_def)
  note laws = zmq_laws poll_one poller_alive recv mem_read mem_write mem_write_frame notify
    notify_frame queue_frame qd
  have start: "hdl_request_round L s (Some [Some hr]) (g, w) =
      bindC
        (if acc_op acc = ACCOp_val READ then hdl_read L s bs acc
         else if acc_op acc = ACCOp_val WRITE then hdl_write L bs acc
         else if acc_op acc = ACCOp_val INTR then
           thenC (ACCELERATOR_DPRINTF L ''handle_hdl_request'' 538)
           (thenC (doC (msix_notify L (vector acc))) (retC bs))
         else retC bs)
        (\<lambda>bs'. thenC (doC (zframe_destroy L (Some bs'))) (retC None)) (g1, deq hr w)"
    using ok hr qw ready len
    by (simp add: hdl_request_round_def g1_def acc_def cprog_simps laws Let_def)
  have g1: "log_ok g1" "same_core L g g1" by (simp_all add: g1_def)
  consider (rd) "acc_op acc = ACCOp_val READ" | (wr) "acc_op acc = ACCOp_val WRITE"
    | (ir) "acc_op acc = ACCOp_val INTR"
    | (no) "acc_op acc \<noteq> ACCOp_val READ" "acc_op acc \<noteq> ACCOp_val WRITE" "acc_op acc \<noteq> ACCOp_val INTR"
    by blast
  then show ?thesis
  proof cases
    case rd
    with fr have "unat (data_size acc) \<le> BUFF_SIZE" by (simp add: hdl_frame_ok_def acc_def)
    with rd g1 ne hp show ?thesis unfolding start
      by (simp add: hdl_read_def acc_def [symmetric] cprog_simps laws Let_def)
  next
    case wr
    with fr have "unat (data_size acc) \<le> BUFF_SIZE" by (simp add: hdl_frame_ok_def acc_def)
    with wr g1 ne show ?thesis unfolding start
      by (simp add: hdl_write_def acc_def [symmetric] cprog_simps laws Let_def)
  next
    case ir
    with g1 ne show ?thesis unfolding start
      by (simp add: acc_def [symmetric] cprog_simps laws Let_def)
  next
    case no
    with g1 ne show ?thesis unfolding start
      by (simp add: acc_def [symmetric] cprog_simps laws Let_def)
  qed
qed

text \<open>The loop serves the accepted frames in front, and then goes on with what follows them.\<close>

lemma hdl_loop_serves:
  assumes hr: "hdl_req s = Some hr" and hp: "hdl_resp s = Some hp" and ne: "link hp \<noteq> hr"
  shows "log_ok g \<Longrightarrow> q w hr = fs @ rest \<Longrightarrow> list_all hdl_frame_ok fs \<Longrightarrow>
    \<exists>g' w'. log_ok g' \<and> same_core L g g' \<and> q w' hr = rest
      \<and> (ram w', irqs w', q w' (link hp)) = fold hdl_serve fs (ram w, irqs w, q w (link hp))
      \<and> (\<forall>t. t \<noteq> hr \<longrightarrow> t \<noteq> link hp \<longrightarrow> q w' t = q w t)
      \<and> (fst (loopC (hdl_request_round L s (Some [Some hr])) (g', w')) \<noteq> Diverges \<longrightarrow>
           loopC (hdl_request_round L s (Some [Some hr])) (g, w)
           = loopC (hdl_request_round L s (Some [Some hr])) (g', w'))"
proof -
  let ?body = "hdl_request_round L s (Some [Some hr])"
  define I where "I = (\<lambda>(g', w'). log_ok g' \<and> same_core L g g' \<and> (\<forall>t. t \<noteq> hr \<longrightarrow> t \<noteq> link hp \<longrightarrow> q w' t = q w t))"
  define Q where "Q = (\<lambda>(g' :: qemu, w'). q w' hr)"
  define V where "V = (\<lambda>(g' :: qemu, w'). (ram w', irqs w', q w' (link hp)))"
  assume g: "log_ok g" and qw: "q w hr = fs @ rest" and fs: "list_all hdl_frame_ok fs"
  have step: "\<exists>s'. ?body st = (Done None, s') \<and> I s' \<and> Q s' = xs \<and> V s' = hdl_serve x (V st)"
    if "I st" "Q st = x # xs" "hdl_frame_ok x" for st x xs
  proof -
    obtain g1 w1 where st: "st = (g1, w1)" by (cases st)
    from that have "log_ok g1" "q w1 hr = x # xs" by (simp_all add: st I_def Q_def)
    from hdl_round_serves [OF this(1) hr hp ne this(2) that(3)] that(1) show ?thesis
      by (fastforce simp: st I_def Q_def V_def intro: same_core_trans)
  qed
  have "I (g, w)" "Q (g, w) = fs @ rest" using g qw by (simp_all add: I_def Q_def)
  from loopC_works_off [of I Q hdl_frame_ok ?body V hdl_serve, OF step this fs] show ?thesis
    by (fastforce simp: I_def Q_def V_def)
qed

lemma hdl_request_start:
  assumes "log_ok g" and "hdl_req s = Some hr"
  shows "handle_hdl_request L s (g, w) = loopC (hdl_request_round L s (Some [Some hr]))
    (log_fn L ACC_LOG_TRACE ''handle_hdl_request'' 481 g, w)"
  using assms by (simp add: handle_hdl_request_def cprog_simps zmq_laws)

lemma hdl_request_drains:
  assumes "log_ok g" and hr: "hdl_req s = Some hr" and hp: "hdl_resp s = Some hp"
    and ne: "link hp \<noteq> hr" and fs: "list_all hdl_frame_ok (q w hr)"
  shows "\<exists>g' w'. handle_hdl_request L s (g, w) = (Done (), (g', w')) \<and> same_core L g g'
    \<and> q w' hr = [] \<and> (ram w', irqs w', q w' (link hp))
        = fold hdl_serve (q w hr) (ram w, irqs w, q w (link hp))
    \<and> (\<forall>t. t \<noteq> hr \<longrightarrow> t \<noteq> link hp \<longrightarrow> q w' t = q w t)"
proof -
  let ?g = "log_fn L ACC_LOG_TRACE ''handle_hdl_request'' 481 g"
  let ?body = "hdl_request_round L s (Some [Some hr])"
  from hdl_loop_serves [OF hr hp ne, of ?g w "q w hr" "[]"] fs obtain g1 w1 where
    g1: "log_ok g1" "same_core L ?g g1" and q1: "q w1 hr = []"
    and v1: "(ram w1, irqs w1, q w1 (link hp)) = fold hdl_serve (q w hr) (ram w, irqs w, q w (link hp))"
    and o1: "\<forall>t. t \<noteq> hr \<longrightarrow> t \<noteq> link hp \<longrightarrow> q w1 t = q w t"
    and l1: "fst (loopC ?body (g1, w1)) \<noteq> Diverges \<longrightarrow> loopC ?body (?g, w) = loopC ?body (g1, w1)"
    by auto
  let ?g2 = "log_fn L ACC_LOG_TRACE ''handle_hdl_request'' 495 g1"
  have "?body (g1, w1) = (Done (Some ()), (?g2, w1))"
    using g1 q1 hr by (simp add: hdl_request_round_def cprog_simps zmq_laws poll_one)
  then have "loopC ?body (g1, w1) = (Done (), (?g2, w1))" by (rule loopC_leave)
  with l1 hdl_request_start [OF assms(1) hr, of w]
  have "handle_hdl_request L s (g, w) = (Done (), (?g2, w1))" by simp
  moreover have "same_core L g ?g2" using g1(2) by (simp add: same_core_def)
  ultimately show ?thesis using q1 v1 o1 by blast
qed

lemma hdl_request_short_frame:
  assumes "log_ok g" and hr: "hdl_req s = Some hr" and hp: "hdl_resp s = Some hp"
    and ne: "link hp \<noteq> hr" and qw: "q w hr = fs @ bad # rest"
    and fs: "list_all hdl_frame_ok fs" and bad: "length bad < sizeof_ACCData"
  shows "\<exists>g' w'. handle_hdl_request L s (g, w) = (Exited 1, (g', w'))
    \<and> q w' hr = rest \<and> (ram w', irqs w', q w' (link hp))
        = fold hdl_serve fs (ram w, irqs w, q w (link hp))"
proof -
  let ?g = "log_fn L ACC_LOG_TRACE ''handle_hdl_request'' 481 g"
  let ?body = "hdl_request_round L s (Some [Some hr])"
  from hdl_loop_serves [OF hr hp ne, of ?g w fs "bad # rest"] fs qw obtain g1 w1 where
    g1: "log_ok g1" and q1: "q w1 hr = bad # rest"
    and v1: "(ram w1, irqs w1, q w1 (link hp)) = fold hdl_serve fs (ram w, irqs w, q w (link hp))"
    and l1: "fst (loopC ?body (g1, w1)) \<noteq> Diverges \<longrightarrow> loopC ?body (?g, w) = loopC ?body (g1, w1)"
    by auto
  let ?g2 = "log_fn L ACC_LOG_ERROR ''handle_hdl_request'' 506 g1"
  have "?body (g1, w1) = (Exited 1, (?g2, deq hr w1))"
    using g1 q1 hr bad poll_one_ready [of w1 hr] frame_recv [OF q1]
    by (simp add: hdl_request_round_def cprog_simps zmq_laws poll_one)
  then have "loopC ?body (g1, w1) = (Exited 1, (?g2, deq hr w1))" by (rule loopC_fail)
  with l1 hdl_request_start [OF assms(1) hr, of w]
  have "handle_hdl_request L s (g, w) = (Exited 1, (?g2, deq hr w1))" by simp
  moreover have "q (deq hr w1) = (q w1)(hr := rest)" using q_deq [OF q1] .
  ultimately show ?thesis using v1 ne by (auto simp: queue_frame)
qed

text \<open>A transfer larger than the message's array is carried out without a check.\<close>

lemma hdl_request_oversized:
  assumes "log_ok g" and hr: "hdl_req s = Some hr" and hp: "hdl_resp s = Some hp"
    and ne: "link hp \<noteq> hr" and qw: "q w hr = fs @ big # rest" and fs: "list_all hdl_frame_ok fs"
    and big: "sizeof_ACCData \<le> length big" "acc_op (decode_ACCData big) \<in> {ACCOp_val READ, ACCOp_val WRITE}"
      "BUFF_SIZE < unat (data_size (decode_ACCData big))"
  shows "fst (handle_hdl_request L s (g, w)) = Undefined"
proof -
  let ?g = "log_fn L ACC_LOG_TRACE ''handle_hdl_request'' 481 g"
  let ?body = "hdl_request_round L s (Some [Some hr])"
  from hdl_loop_serves [OF hr hp ne, of ?g w fs "big # rest"] fs qw obtain g1 w1 where
    g1: "log_ok g1" and q1: "q w1 hr = big # rest"
    and l1: "fst (loopC ?body (g1, w1)) \<noteq> Diverges \<longrightarrow> loopC ?body (?g, w) = loopC ?body (g1, w1)"
    by auto
  obtain g2 where "?body (g1, w1) = (Undefined, (g2, deq hr w1))"
    using g1 q1 hr big poll_one_ready [of w1 hr] frame_recv [OF q1]
    by (auto simp: hdl_request_round_def hdl_read_def hdl_write_def cprog_simps zmq_laws poll_one Let_def)
  from loopC_fail(3) [of ?body, OF this] l1 hdl_request_start [OF assms(1) hr, of w] show ?thesis by simp
qed

end

end
