(* ===== verification/Dpi_Pcie.thy ===== *)
theory Dpi_Pcie
  imports Acc_Protocol Acc_Endpoints Zmq_Link
begin

text \<open>
  The PCIe bridge \<^verbatim>\<open>bridge-ip/QEMUPCIeBridge/hdl/dpi-pcie.c\<close>, the C side of the simulated
  hardware.  The record \<open>dpi_pcie\<close> holds its globals.  Structures declared on the stack and not
  cleared (\<open>ACCData acc;\<close>) are filled from an argument \<open>stk\<close>, the bytes the stack held.  Output
  arguments of \<open>C_poll\<close> are an in/out record: what a branch does not assign keeps its old value.
  Of the \<open>printf\<close> calls of the setup function the text is left out, their arguments are not: one of
  them is a shift that C need not define.
\<close>

section \<open>State\<close>

record dpi_pcie =
  dp_environ :: "string \<Rightarrow> string option"
  dp_qemu_req :: zsock
  dp_qemu_resp :: zsock
  dp_hdl_req :: zsock
  dp_hdl_resp :: zsock
  dp_poller :: zpoller
  dp_initsock :: zsock
  dp_initsock2 :: zsock
  dp_BUSW :: u64
  dp_conf :: ACCConf

record poll_args =
  req_type :: u32
  v_addr :: u64
  v_len :: u32
  v_size :: u32
  v_strb :: u64
  v_data :: "byte list"

section \<open>Helpers\<close>

text \<open>\<open>while (x >>= 1) log++;\<close>\<close>

function log2c_loop :: "u64 \<Rightarrow> u8 \<Rightarrow> u8" where
  "log2c_loop x lg = (let x' = drop_bit 1 x in if x' \<noteq> 0 then log2c_loop x' (lg + 1) else lg)"
  by pat_completeness auto
termination
proof (relation "measure (\<lambda>(x, lg). unat x)", goal_cases)
  case 1
  show ?case by simp
next
  case (2 x lg x')
  then have "unat x' = unat x div 2" by simp
  moreover from 2 have "unat x' \<noteq> 0" by (metis unat_eq_zero)
  ultimately show ?case by simp
qed

declare log2c_loop.simps [simp del]

definition log2c :: "u64 \<Rightarrow> u8" where
  "log2c x = log2c_loop x (if x AND (x - 1) \<noteq> 0 then 1 else 0)"

definition C_teardown_pcie_connection :: "('w, 'z) czmq_scheme \<Rightarrow> ((dpi_pcie, 'w) proc, unit) cprog" where
  "C_teardown_pcie_connection L = (\<lambda>(g, w).
     (Done (), (g\<lparr>dp_poller := None, dp_qemu_req := None, dp_qemu_resp := None, dp_hdl_req := None,
                  dp_hdl_resp := None, dp_initsock := None, dp_initsock2 := None\<rparr>,
       zsock_destroy L (dp_initsock2 g) (zsock_destroy L (dp_initsock g)
        (zsock_destroy L (dp_hdl_resp g) (zsock_destroy L (dp_hdl_req g)
         (zsock_destroy L (dp_qemu_resp g) (zsock_destroy L (dp_qemu_req g)
          (zpoller_destroy L (dp_poller g) w)))))))))"

section \<open>Setup\<close>

text \<open>\<open>1ULL << n\<close>: undefined for a shift of 64 or more.\<close>

definition shl1_u64 :: "u64 \<Rightarrow> u64 option" where
  "shl1_u64 n = (if unat n < 64 then Some (push_bit (unat n) 1) else None)"

text \<open>The loop over the six entries of the arrays; reading past an array is undefined.\<close>

fun setup_bars :: "nat \<Rightarrow> u8 list \<Rightarrow> u64 list \<Rightarrow> u64 list \<Rightarrow> BARConf list option" where
  "setup_bars 0 vs szs offs = Some []"
| "setup_bars (Suc k) (v # vs) (sz # szs) (off # offs) =
     Option.bind (shl1_u64 sz) (\<lambda>n.
     Option.bind (setup_bars k vs szs offs) (\<lambda>bs.
       Some (\<lparr>is_valid = (v \<noteq> 0), bar_size = n, bar_offset = off\<rparr> # bs)))"
| "setup_bars (Suc k) _ _ _ = None"

text \<open>The first part of the setup: the bus width and the configuration.\<close>

definition setup_conf ::
  "u64 \<Rightarrow> u16 \<Rightarrow> u16 \<Rightarrow> u8 \<Rightarrow> u8 list \<Rightarrow> u64 list \<Rightarrow> u64 list
   \<Rightarrow> u16 \<Rightarrow> u16 \<Rightarrow> u64 \<Rightarrow> u16 \<Rightarrow> u64 \<Rightarrow> ((dpi_pcie, 'w) proc, unit) cprog" where
  "setup_conf busw vendorid deviceid attributes valid_bars b_size b_offset
       vec_num table_bar table_offset pba_bar pba_offset =
     thenC (putG (\<lambda>g. g\<lparr>dp_BUSW := busw\<rparr>))
     (bindC (definedC (setup_bars 6 valid_bars b_size b_offset)) (\<lambda>bs.
      putG (\<lambda>g. g\<lparr>dp_conf := \<lparr>bars_conf = bs, is_64 = (attributes AND 1 = 1),
          prefetch = (attributes AND 2 = 2), device_id = deviceid, vendor_id = vendorid,
          msix_vec_num = vec_num, msix_table_bar = table_bar, msix_table_offset = table_offset,
          msix_pba_bar = pba_bar, msix_pba_offset = pba_offset\<rparr>\<rparr>)))"

text \<open>
  The second part prints the configuration.  For each valid BAR it evaluates
  \<open>1 << conf.bar[i].size\<close> on \<open>int\<close>, undefined where the shift leaves the type; \<open>report_bars\<close> is the list
  of the values printed.  That the \<open>int\<close> meets a conversion \<open>%lx\<close> concerns the text, which is left out.
\<close>

definition shl1_int :: "u64 \<Rightarrow> int option" where
  "shl1_int n = (if unat n < 31 then Some (2 ^ unat n) else None)"

fun report_bars :: "BARConf list \<Rightarrow> int list option" where
  "report_bars [] = Some []"
| "report_bars (b # bs) =
     (if is_valid b
      then Option.bind (shl1_int (bar_size b)) (\<lambda>n. map_option (Cons n) (report_bars bs))
      else report_bars bs)"

definition setup_report :: "((dpi_pcie, 'w) proc, unit) cprog" where
  "setup_report =
     bindC (getG dp_conf) (\<lambda>conf.
     bindC (definedC (report_bars (bars_conf conf))) (\<lambda>_. skipC))"

text \<open>The third part opens the sockets and makes the poller.\<close>

definition setup_sockets :: "('w, 'z) czmq_scheme \<Rightarrow> ((dpi_pcie, 'w) proc, unit) cprog" where
  "setup_sockets L =
     bindC (getG dp_environ) (\<lambda>env.
     bindC (definedC (cosim_port env)) (\<lambda>port.
     bindC (pullC L RECV_SOCK port (- 1)) (\<lambda>i.
     bindC (pushC L SEND_SOCK port 10) (\<lambda>i2.
     bindC (pullC L RECV_SOCK port 0) (\<lambda>qreq.
     bindC (pushC L SEND_SOCK port 1) (\<lambda>qresp.
     bindC (pushC L SEND_SOCK port 2) (\<lambda>hreq.
     bindC (pullC L RECV_SOCK port 3) (\<lambda>hresp.
     thenC (putG (\<lambda>g. g\<lparr>dp_initsock := i, dp_initsock2 := i2, dp_qemu_req := qreq,
         dp_qemu_resp := qresp, dp_hdl_req := hreq, dp_hdl_resp := hresp\<rparr>))
     (bindC (definedC (sock_endpoint SEND_SOCK port 6)) (\<lambda>_.
      bindC (callC (zpoller_new L [i, qreq, hresp])) (\<lambda>p.
      thenC (putG (\<lambda>g. g\<lparr>dp_poller := p\<rparr>))
      (assertC (p \<noteq> None)))))))))))))"

definition C_setup_pcie_connection ::
  "('w, 'z) czmq_scheme \<Rightarrow> u64 \<Rightarrow> u16 \<Rightarrow> u16 \<Rightarrow> u8 \<Rightarrow> u8 list \<Rightarrow> u64 list \<Rightarrow> u64 list
   \<Rightarrow> u16 \<Rightarrow> u16 \<Rightarrow> u64 \<Rightarrow> u16 \<Rightarrow> u64 \<Rightarrow> ((dpi_pcie, 'w) proc, unit) cprog" where
  "C_setup_pcie_connection L busw vendorid deviceid attributes valid_bars b_size b_offset
       vec_num table_bar table_offset pba_bar pba_offset =
     thenC (setup_conf busw vendorid deviceid attributes valid_bars b_size b_offset
              vec_num table_bar table_offset pba_bar pba_offset)
     (thenC setup_report (setup_sockets L))"

section \<open>Polling\<close>

text \<open>
  \<open>(1 << n) - 1\<close> on \<open>int\<close>: undefined where the shift leaves the type.
\<close>

definition strobe_ones :: "u32 \<Rightarrow> u64 option" where
  "strobe_ones n = (if unat n < 31 then Some (push_bit (unat n) 1 - 1) else None)"

definition strobe_shift :: "u64 \<Rightarrow> u32 \<Rightarrow> u64 option" where
  "strobe_shift x n = (if unat n < 64 then Some (push_bit (unat n) x) else None)"

text \<open>The burst length: \<open>size / BUSW\<close> beats, rounded up, minus one.\<close>

definition axi_burst_len :: "u64 \<Rightarrow> u32 \<Rightarrow> u32" where
  "axi_burst_len busw sz =
     (if ucast sz > busw
      then (if (ucast sz :: u64) mod busw \<noteq> 0 then ucast ((ucast sz :: u64) div busw)
            else ucast ((ucast sz :: u64) div busw - 1))
      else 0)"

text \<open>\<open>BUFF_SIZE - align_offset\<close>, computed in \<open>uint32_t\<close>.\<close>

definition copy_rest :: "u32 \<Rightarrow> nat" where
  "copy_rest align_offset = unat (of_nat BUFF_SIZE - align_offset)"

text \<open>The branch of \<open>C_poll\<close> for a request from QEMU, on the received message.\<close>

definition poll_qemu_req :: "u64 \<Rightarrow> ACCConf \<Rightarrow> ACCData \<Rightarrow> poll_args \<Rightarrow> poll_args option" where
  "poll_qemu_req busw conf acc p =
     (if unat (bar_num acc) < 6 \<and> busw \<noteq> 0 then
       (let addr = address acc + bar_offset (bars_conf conf ! unat (bar_num acc));
            sz = data_size acc;
            align_offset = ucast (addr mod busw) :: u32;
            axi_len = axi_burst_len busw sz;
            axi_size = ucast (log2c (ucast sz)) :: u32 in
        if acc_op acc = ACCOp_val READ then
          Some (p\<lparr>req_type := QEMUOp_val M_RD, v_addr := addr, v_len := axi_len, v_size := axi_size\<rparr>)
        else
          Option.bind (strobe_ones sz) (\<lambda>ones.
          Option.bind (strobe_shift ones align_offset) (\<lambda>strb.
          Option.bind (memcpy (v_data p) (unat align_offset) (acc_buf acc) 0
                         (copy_rest align_offset)) (\<lambda>d.
            Some (p\<lparr>req_type := QEMUOp_val M_WR, v_strb := strb, v_data := d,
                    v_addr := addr, v_size := axi_size, v_len := axi_len\<rparr>)))))
      else None)"

text \<open>The branch for a read response from QEMU.\<close>

definition poll_hdl_resp :: "u64 \<Rightarrow> ACCData \<Rightarrow> poll_args \<Rightarrow> poll_args option" where
  "poll_hdl_resp busw acc p =
     (if busw \<noteq> 0 then
       Option.bind (memcpy (v_data p) (unat (ucast (address acc mod busw) :: u32)) (acc_buf acc) 0
                      (unat (data_size acc))) (\<lambda>d.
         Some (p\<lparr>req_type := QEMUOp_val S_RD, v_data := d\<rparr>))
      else None)"

text \<open>Casting a frame to \<open>ACCData *\<close> and reading its members: undefined on a shorter frame.\<close>

definition cast_ACCData :: "byte list \<Rightarrow> ACCData option" where
  "cast_ACCData bs = (if length bs < sizeof_ACCData then None else Some (decode_ACCData bs))"

definition recv_ACCData ::
  "('w, 'z) czmq_scheme \<Rightarrow> zsock \<Rightarrow> (('g, 'w) proc, byte list \<times> ACCData) cprog" where
  "recv_ACCData L sock =
     bindC (callC (zframe_recv L sock)) (\<lambda>frame.
     thenC (assertC (frame \<noteq> None))
     (bindC (definedC (cast_ACCData (the frame))) (\<lambda>acc. retC (the frame, acc))))"

definition C_poll ::
  "('w, 'z) czmq_scheme \<Rightarrow> poll_args \<Rightarrow> ((dpi_pcie, 'w) proc, poll_args) cprog" where
  "C_poll L p =
     bindC (getG id) (\<lambda>g.
     bindC (callC (zpoller_wait L (dp_poller g) 0)) (\<lambda>sock.
     if sock = None then retC (p\<lparr>req_type := ACCOp_val NOOP\<rparr>)
     else if sock = dp_initsock g then
       bindC (callC (zframe_recv L (dp_initsock g))) (\<lambda>frame_req.
       thenC (doC (zframe_destroy L frame_req))
       (bindC (callC (zframe_new L (encode_ACCConf (dp_conf g)))) (\<lambda>frame_rsp.
        thenC (assertC (frame_rsp \<noteq> None))
        (bindC (callC (zframe_send L frame_rsp (dp_initsock2 g) 0)) (\<lambda>rv.
         thenC (doC (zframe_destroy L (if rv = 0 then None else frame_rsp)))
         (retC (p\<lparr>req_type := ACCOp_val NOOP\<rparr>)))))))
     else if sock = dp_qemu_req g then
       bindC (recv_ACCData L (dp_qemu_req g)) (\<lambda>(frame, acc).
       bindC (definedC (poll_qemu_req (dp_BUSW g) (dp_conf g) acc p)) (\<lambda>p'.
       thenC (doC (zframe_destroy L (Some frame))) (retC p')))
     else if sock = dp_hdl_resp g then
       bindC (recv_ACCData L (dp_hdl_resp g)) (\<lambda>(frame, acc).
       bindC (definedC (poll_hdl_resp (dp_BUSW g) acc p)) (\<lambda>p'.
       thenC (doC (zframe_destroy L (Some frame))) (retC p')))
     else retC p))"

section \<open>Requests and responses of the hardware\<close>

text \<open>\<open>(len + 1) * (1 << width)\<close> on \<open>int\<close>, stored in a \<open>uint32_t\<close>.\<close>

definition burst_bytes :: "int \<Rightarrow> int \<Rightarrow> u32 option" where
  "burst_bytes width len =
     (if 0 \<le> width \<and> width < 31
      then Option.bind (c_int (len + 1)) (\<lambda>n. map_option of_int (c_int (n * 2 ^ nat width)))
      else None)"

text \<open>Make a frame of the structure, assert it, send it, assert that it was sent.\<close>

definition send_ACCData ::
  "('w, 'z) czmq_scheme \<Rightarrow> byte list \<Rightarrow> ACCData \<Rightarrow> zsock \<Rightarrow> (('g, 'w) proc, unit) cprog" where
  "send_ACCData L stk acc sock =
     bindC (callC (zframe_new L (encode_ACCData (padding_ACCData stk) acc))) (\<lambda>frame.
     thenC (assertC (frame \<noteq> None))
     (bindC (callC (zframe_send L frame sock 0)) (\<lambda>rv. assertC (rv = 0))))"

definition C_req_read ::
  "('w, 'z) czmq_scheme \<Rightarrow> byte list \<Rightarrow> u64 \<Rightarrow> int \<Rightarrow> int \<Rightarrow> int \<Rightarrow> ((dpi_pcie, 'w) proc, unit) cprog" where
  "C_req_read L stk addr width len i =
     bindC (definedC (burst_bytes width len)) (\<lambda>sz.
     bindC (getG dp_hdl_req) (\<lambda>sock.
     send_ACCData L stk ((decode_ACCData stk)\<lparr>data_size := sz, address := addr,
       acc_op := ACCOp_val READ, acc_id := of_int i\<rparr>) sock))"

definition C_resp_read ::
  "('w, 'z) czmq_scheme \<Rightarrow> byte list \<Rightarrow> u64 \<Rightarrow> byte list \<Rightarrow> ((dpi_pcie, 'w) proc, unit) cprog" where
  "C_resp_read L stk addr data =
     bindC (getG dp_BUSW) (\<lambda>busw.
     bindC (definedC (if busw = 0 then None else Some (ucast (addr mod busw) :: u32))) (\<lambda>align_offset.
     bindC (definedC (memcpy (acc_buf (decode_ACCData stk)) 0 data (unat align_offset)
                        (copy_rest align_offset))) (\<lambda>d.
     bindC (getG dp_qemu_resp) (\<lambda>sock.
     send_ACCData L stk ((decode_ACCData stk)\<lparr>acc_buf := d\<rparr>) sock))))"

definition C_resp_write ::
  "('w, 'z) czmq_scheme \<Rightarrow> byte list \<Rightarrow> ((dpi_pcie, 'w) proc, unit) cprog" where
  "C_resp_write L stk =
     bindC (getG dp_qemu_resp) (\<lambda>sock. send_ACCData L stk (decode_ACCData stk) sock)"

text \<open>
  The copy loops of \<open>C_req_write\<close>.  \<open>beat_copy\<close> is the inner loop over the \<open>BUSW\<close> byte lanes of one
  beat: a lane whose strobe bit is set is appended at \<open>k\<close>, and the strobe is shifted right each
  time.  \<open>burst_copy\<close> is the outer loop over the beats.  Accesses outside the arrays are
  undefined.
\<close>

fun beat_copy ::
  "nat \<Rightarrow> nat \<Rightarrow> byte list \<Rightarrow> u64 \<Rightarrow> nat \<Rightarrow> byte list \<Rightarrow> (u64 \<times> nat \<times> byte list) option" where
  "beat_copy 0 pos data st k buf = Some (st, k, buf)"
| "beat_copy (Suc n) pos data st k buf =
     (if st AND 1 \<noteq> 0 then
        (if k < length buf \<and> pos < length data
         then beat_copy n (Suc pos) data (drop_bit 1 st) (Suc k) (buf[k := data ! pos])
         else None)
      else beat_copy n (Suc pos) data (drop_bit 1 st) k buf)"

fun burst_copy ::
  "nat \<Rightarrow> nat \<Rightarrow> nat \<Rightarrow> byte list \<Rightarrow> u64 list \<Rightarrow> nat \<Rightarrow> byte list \<Rightarrow> (u64 list \<times> nat \<times> byte list) option" where
  "burst_copy 0 i busw data strb k buf = Some (strb, k, buf)"
| "burst_copy (Suc n) i busw data strb k buf =
     (if i < length strb then
        (case beat_copy busw (i * busw) data (strb ! i) k buf of
           None \<Rightarrow> None
         | Some (st, k', buf') \<Rightarrow> burst_copy n (Suc i) busw data (strb[i := st]) k' buf')
      else None)"

text \<open>\<open>C_req_write\<close> returns the strobe array, which it shifts in place.\<close>

definition C_req_write ::
  "('w, 'z) czmq_scheme \<Rightarrow> byte list \<Rightarrow> u64 \<Rightarrow> int \<Rightarrow> int \<Rightarrow> byte list \<Rightarrow> u64 list
   \<Rightarrow> ((dpi_pcie, 'w) proc, u64 list) cprog" where
  "C_req_write L stk addr width len data strb =
     bindC (definedC (burst_bytes width len)) (\<lambda>sz.
     bindC (getG dp_BUSW) (\<lambda>busw.
     bindC (definedC (if busw < 2 ^ 31
         then burst_copy (nat (len + 1)) 0 (unat busw) data strb 0 (acc_buf (decode_ACCData stk))
         else None)) (\<lambda>(strb', k, d).
     bindC (getG dp_hdl_req) (\<lambda>sock.
     thenC (send_ACCData L stk ((decode_ACCData stk)\<lparr>data_size := sz, address := addr,
       acc_op := ACCOp_val WRITE, acc_buf := d\<rparr>) sock) (retC strb')))))"

definition C_req_interrupt ::
  "('w, 'z) czmq_scheme \<Rightarrow> byte list \<Rightarrow> int \<Rightarrow> ((dpi_pcie, 'w) proc, unit) cprog" where
  "C_req_interrupt L stk vec =
     bindC (getG dp_hdl_req) (\<lambda>sock.
     send_ACCData L stk ((decode_ACCData stk)\<lparr>acc_op := ACCOp_val INTR, vector := of_int vec\<rparr>) sock)"

section \<open>Behaviour\<close>

lemma log2c_loop_floor:
  "x \<noteq> 0 \<Longrightarrow> \<exists>r. log2c_loop x lg = lg + of_nat r \<and> 2 ^ r \<le> unat x \<and> unat x < 2 ^ Suc r"
proof (induction x lg rule: log2c_loop.induct)
  case (1 x lg)
  let ?y = "drop_bit 1 x"
  have uy: "unat ?y = unat x div 2" by simp
  show ?case
  proof (cases "?y = 0")
    case True
    then have "unat x div 2 = 0" using uy by (metis unat_0)
    moreover have "unat x \<noteq> 0" using 1(2) by (simp add: unat_eq_zero)
    ultimately have "unat x = 1" by simp
    with True show ?thesis by (intro exI [of _ 0]) (simp add: log2c_loop.simps [of x lg])
  next
    case False
    with 1(1) [OF refl] obtain r where r: "log2c_loop ?y (lg + 1) = lg + 1 + of_nat r"
      "2 ^ r \<le> unat ?y" "unat ?y < 2 ^ Suc r" by blast
    then have "2 ^ Suc r \<le> unat x" and "unat x < 2 ^ Suc (Suc r)" using uy by auto
    with r(1) False show ?thesis
      by (intro exI [of _ "Suc r"]) (simp add: log2c_loop.simps [of x lg] Let_def add_ac)
  qed
qed

lemma log2c_spec:
  assumes "x \<noteq> 0"
  shows "unat x \<le> 2 ^ unat (log2c x) \<and> 2 ^ unat (log2c x) < 2 * unat x"
proof -
  define b :: u8 where "b = (if x AND (x - 1) \<noteq> 0 then 1 else 0)"
  obtain r where r: "log2c x = b + of_nat r" "2 ^ r \<le> unat x" "unat x < 2 ^ Suc r"
    using log2c_loop_floor [OF assms] by (auto simp: log2c_def b_def)
  have "unat x < 2 ^ 64" using unsigned_less [of x] by simp
  with r(2) have "(2::nat) ^ r < 2 ^ 64" by (rule le_less_trans)
  then have "r < 64" by (rule power_less_imp_less_exp [rotated]) simp
  then have u: "unat (log2c x) = unat b + r"
    by (simp add: r(1) b_def unat_word_ariths unat_of_nat)
  show ?thesis
  proof (cases "unat x = 2 ^ r")
    case True
    with r and_pred_pow2 [of r x] have "b = 0" by (simp add: b_def)
    with True u show ?thesis by simp
  next
    case False
    with r and_pred_pow2 [of r x] have "b = 1" by (simp add: b_def)
    with False u r show ?thesis by simp
  qed
qed

text \<open>
  The byte offset of an address in its bus word, as the bridge keeps it in a \<open>uint32_t\<close>: no bits
  are lost for the bus widths in use.
\<close>

lemma mod_less_busw: "0 < unat busw \<Longrightarrow> unat (a mod busw) < unat (busw :: u64)"
  by (simp add: unat_mod)

lemma align_offset_eq:
  assumes "0 < unat (busw :: u64)" and "unat busw \<le> 64"
  shows "unat (ucast (a mod busw) :: u32) = unat (a mod busw)"
proof -
  have "unat (a mod busw) < 2 ^ 32" using mod_less_busw [OF assms(1), of a] assms(2) by simp
  then show ?thesis by (intro unat_ucast_fits) simp
qed

lemma copy_rest_eq: "unat k \<le> BUFF_SIZE \<Longrightarrow> copy_rest k = BUFF_SIZE - unat k"
  by (simp add: copy_rest_def unat_sub word_le_nat_alt)

lemma copy_rest_align:
  assumes "0 < unat (busw :: u64)" and "unat busw \<le> 64"
  shows "copy_rest (ucast (a mod busw)) = BUFF_SIZE - unat (a mod busw)"
  using align_offset_eq [OF assms, of a] mod_less_busw [OF assms(1), of a] assms(2)
  by (subst copy_rest_eq) simp_all

lemma report_bars_defined:
  "report_bars bs \<noteq> None \<longleftrightarrow> (\<forall>b \<in> set bs. is_valid b \<longrightarrow> unat (bar_size b) < 31)"
  by (induction bs) (auto simp: shl1_int_def bind_eq_None_conv)

lemma burst_len_single:
  assumes "unat sz \<le> unat busw"
  shows "axi_burst_len busw sz = 0"
  using assms by (simp add: axi_burst_len_def word_less_nat_alt)

text \<open>
  A write request that fits the bus word becomes one beat, and that beat stores the first
  \<open>data_size\<close> bytes of the message at the translated address and nothing else.
\<close>

lemma poll_write_beat:
  assumes wf: "wf_ACCData acc" and bar: "unat (bar_num acc) < 6"
    and op: "acc_op acc \<noteq> ACCOp_val READ"
    and busw: "0 < unat busw" "unat busw \<le> 64"
    and n: "unat (data_size acc) < 31"
    and A: "A = address acc + bar_offset (bars_conf conf ! unat (bar_num acc))"
    and fits: "unat (A mod busw) + unat (data_size acc) \<le> unat busw"
    and vd: "length (v_data p) = BUFF_SIZE"
  shows "\<exists>p'. poll_qemu_req busw conf acc p = Some p'
    \<and> req_type p' = QEMUOp_val M_WR \<and> v_addr p' = A \<and> v_len p' = 0
    \<and> axi_write_beat busw (v_addr p') (v_strb p') (v_data p') m
        = mem_store m A (take (unat (data_size acc)) (acc_buf acc))"
proof -
  let ?n = "unat (data_size acc)" and ?k = "unat (A mod busw)"
  have k: "unat (ucast (A mod busw) :: u32) = ?k" using busw by (rule align_offset_eq)
  have k64: "?k < 64" using mod_less_busw [OF busw(1), of A] busw(2) by simp
  let ?strb = "push_bit ?k (2 ^ ?n - 1) :: u64"
  have strb: "Option.bind (strobe_ones (data_size acc)) (\<lambda>x. strobe_shift x (ucast (A mod busw))) = Some ?strb"
    using n k k64 by (simp add: strobe_ones_def strobe_shift_def)
  have cpy: "\<exists>d. memcpy (v_data p) ?k (acc_buf acc) 0 (BUFF_SIZE - ?k) = Some d"
    using wf vd k64 by (simp add: memcpy_def wf_ACCData_def)
  then obtain d where d: "memcpy (v_data p) ?k (acc_buf acc) 0 (BUFF_SIZE - ?k) = Some d" ..
  have lane: "d ! (?k + i) = acc_buf acc ! i" if "i < ?n" for i
    using memcpy_nth [OF d, of "?k + i"] that fits busw vd by simp
  have "axi_write_beat busw A ?strb d m = mem_store m A (take ?n (acc_buf acc))"
    using busw fits lane wf n
    by (intro axi_write_beat_store) (simp_all add: wf_ACCData_def)
  moreover have "poll_qemu_req busw conf acc p =
      Some (p\<lparr>req_type := QEMUOp_val M_WR, v_strb := ?strb, v_data := d, v_addr := A,
        v_size := ucast (log2c (ucast (data_size acc))), v_len := axi_burst_len busw (data_size acc)\<rparr>)"
    using bar op busw(1) strb d k copy_rest_align [OF busw, of A]
    by (auto simp: poll_qemu_req_def Let_def A [symmetric] bind_eq_Some_conv)
  moreover have "axi_burst_len busw (data_size acc) = 0"
    using fits by (intro burst_len_single) simp
  ultimately show ?thesis by auto
qed

section \<open>Properties\<close>

text \<open>
  C19: \<open>log2c\<close> is the logarithm rounded up: the least power of two that is not below the argument,
  for every non-zero 64-bit value; its loop always ends.
\<close>

theorem log2c_rounds_up:
  assumes "x \<noteq> 0"
  shows "unat x \<le> 2 ^ unat (log2c x) \<and> (\<forall>k. unat x \<le> 2 ^ k \<longrightarrow> unat (log2c x) \<le> k)"
proof (intro conjI allI impI)
  show "unat x \<le> 2 ^ unat (log2c x)" using log2c_spec [OF assms] by simp
  fix k
  assume "unat x \<le> 2 ^ k"
  then have "(2::nat) ^ unat (log2c x) < 2 ^ Suc k" using log2c_spec [OF assms] by simp
  then have "unat (log2c x) < Suc k" by (rule power_less_imp_less_exp [rotated]) simp
  then show "unat (log2c x) \<le> k" by simp
qed

theorem log2c_rounds_up_witness:
  "unat (5 :: u64) \<le> 2 ^ unat (log2c 5) \<and> unat (log2c 5) \<le> 3"
proof -
  have "(5 :: nat) \<le> 2 ^ 3" by simp
  then show ?thesis using log2c_rounds_up [of 5] by simp
qed

text \<open>
  C18: the burst length the bridge puts on the bus is the number of beats that hold the transfer,
  minus one: size divided by bus width, rounded up.
\<close>

theorem burst_len_rounds_up:
  assumes "0 < unat busw" and "0 < unat sz"
  shows "unat (axi_burst_len busw sz) = (unat sz - 1) div unat busw"
proof (cases "unat busw < unat sz")
  case False
  with assms burst_len_single [of sz busw] show ?thesis by simp
next
  case True
  let ?x = "ucast sz :: u64"
  have x: "unat ?x = unat sz" by simp
  have dm: "unat (?x div busw) = unat sz div unat busw" "unat (?x mod busw) = unat sz mod unat busw"
    by (simp_all add: unat_div unat_mod)
  have z: "?x mod busw = 0 \<longleftrightarrow> unat sz mod unat busw = 0" using dm(2) by (metis unat_eq_zero)
  have "0 < unat sz div unat busw" using True assms by (simp add: div_greater_zero_iff)
  then have pred: "unat (?x div busw - 1) = unat sz div unat busw - 1"
    using dm(1) by (simp add: unat_sub word_le_nat_alt)
  have "unat sz < 2 ^ 32" using unsigned_less [of sz] by simp
  with div_le_dividend [of "unat sz" "unat busw"] have small: "unat sz div unat busw < 2 ^ 32"
    by (rule le_less_trans)
  have "unat (ucast (?x div busw) :: u32) = unat sz div unat busw"
    "unat (ucast (?x div busw - 1) :: u32) = unat sz div unat busw - 1"
    using small dm(1) pred by (simp_all add: unat_ucast_fits)
  with True z ceil_div_pred [OF assms] show ?thesis
    by (auto simp: axi_burst_len_def word_less_nat_alt split: if_splits)
qed

theorem burst_len_rounds_up_witness:
  "unat (axi_burst_len 64 200) = (unat (200 :: u32) - 1) div unat (64 :: u64)"
  by (rule burst_len_rounds_up) simp_all

text \<open>
  C15: a write request of QEMU that fits into one bus word becomes a single beat whose strobes and
  lanes store the first \<open>data_size\<close> bytes of the message at the translated address and touch
  nothing else, for every memory behind the bus.
\<close>

theorem poll_write_exact:
  assumes "wf_ACCData acc" and "unat (bar_num acc) < 6" and "acc_op acc \<noteq> ACCOp_val READ"
    and "0 < unat busw" "unat busw \<le> 64" and "unat (data_size acc) < 31"
    and "A = address acc + bar_offset (bars_conf conf ! unat (bar_num acc))"
    and "unat (A mod busw) + unat (data_size acc) \<le> unat busw"
    and "length (v_data p) = BUFF_SIZE"
  shows "\<exists>p'. poll_qemu_req busw conf acc p = Some p'
    \<and> req_type p' = QEMUOp_val M_WR \<and> v_addr p' = A \<and> v_len p' = 0
    \<and> (\<forall>m. axi_write_beat busw (v_addr p') (v_strb p') (v_data p') m
          = mem_store m A (take (unat (data_size acc)) (acc_buf acc)))"
proof -
  obtain p' where p': "poll_qemu_req busw conf acc p = Some p'" "req_type p' = QEMUOp_val M_WR"
    "v_addr p' = A" "v_len p' = 0" using poll_write_beat [OF assms] by blast
  have "axi_write_beat busw (v_addr p') (v_strb p') (v_data p') m
      = mem_store m A (take (unat (data_size acc)) (acc_buf acc))" for m
    using poll_write_beat [OF assms, of m] p'(1) by auto
  with p' show ?thesis by blast
qed

theorem poll_write_exact_witness:
  "let acc = zero_ACCData\<lparr>data_size := 4, address := 8, acc_op := 2\<rparr>;
       c = \<lparr>bars_conf = replicate 6 \<lparr>is_valid = True, bar_size = 0x1000, bar_offset = 0x100\<rparr>,
         is_64 = True, prefetch = False, device_id = 1, vendor_id = 1, msix_vec_num = 3,
         msix_table_bar = 0, msix_table_offset = 0, msix_pba_bar = 0, msix_pba_offset = 0\<rparr>;
       p = \<lparr>req_type = 0, v_addr = 0, v_len = 0, v_size = 0, v_strb = 0, v_data = replicate 4096 0\<rparr>
   in \<exists>p'. poll_qemu_req 64 c acc p = Some p' \<and> req_type p' = 2 \<and> v_addr p' = 0x108 \<and> v_len p' = 0
     \<and> (\<forall>m. axi_write_beat 64 (v_addr p') (v_strb p') (v_data p') m
          = mem_store m 0x108 (take 4 (replicate 4096 0)))"
  using poll_write_exact [of "zero_ACCData\<lparr>data_size := 4, address := 8, acc_op := 2\<rparr>" 64 "0x108"
    "\<lparr>bars_conf = replicate 6 \<lparr>is_valid = True, bar_size = 0x1000, bar_offset = 0x100\<rparr>,
         is_64 = True, prefetch = False, device_id = 1, vendor_id = 1, msix_vec_num = 3,
         msix_table_bar = 0, msix_table_offset = 0, msix_pba_bar = 0, msix_pba_offset = 0\<rparr>"
    "\<lparr>req_type = 0, v_addr = 0, v_len = 0, v_size = 0, v_strb = 0, v_data = replicate 4096 0\<rparr>"]
  by (simp add: zero_ACCData_def wf_ACCData_def Let_def)

end
