(* ===== verification/Cosim.thy ===== *)
theory Cosim
  imports Acc_Hdl_Request Dpi_Pcie
begin

text \<open>
  The two processes together.  \<open>hdl_transaction\<close> is one MMIO transaction on the hardware side: the
  bridge's \<open>C_poll\<close>, the AXI beat it asks for on a memory behind the bus, and the response.  The
  lemmas follow a request from the QEMU callback through the queues, the address translation
  and the byte lanes to that memory and back; a run of accesses refines the reference memory
  \<open>mem_run\<close>.
\<close>

section \<open>One transaction of the hardware\<close>

definition hdl_transaction ::
  "('w, 'z) czmq_scheme \<Rightarrow> byte list \<Rightarrow> poll_args \<Rightarrow> mem \<Rightarrow> ((dpi_pcie, 'w) proc, mem) cprog" where
  "hdl_transaction M stk p m =
     bindC (C_poll M p) (\<lambda>p'.
     bindC (getG dp_BUSW) (\<lambda>busw.
     if req_type p' = QEMUOp_val M_RD then
       thenC (C_resp_read M stk (v_addr p')
                (axi_read_beat busw (v_addr p') m @ replicate (BUFF_SIZE - unat busw) 0)) (retC m)
     else if req_type p' = QEMUOp_val M_WR then
       thenC (C_resp_write M stk) (retC (axi_write_beat busw (v_addr p') (v_strb p') (v_data p') m))
     else retC m))"

text \<open>
  The bridge after its setup: a bus of at most 64 byte lanes, a configuration with six BARs, the
  poller on its three PULL sockets.
\<close>

definition bridge_up :: "dpi_pcie \<Rightarrow> bool" where
  "bridge_up d \<longleftrightarrow> 0 < unat (dp_BUSW d) \<and> unat (dp_BUSW d) \<le> 64 \<and> wf_ACCConf (dp_conf d)
     \<and> dp_poller d = Some [dp_initsock d, dp_qemu_req d, dp_hdl_resp d]
     \<and> dp_initsock d \<noteq> None \<and> dp_qemu_req d \<noteq> None \<and> dp_qemu_resp d \<noteq> None
     \<and> dp_initsock d \<noteq> dp_qemu_req d"

text \<open>Where a guest access to a BAR lands, and that it stays inside one bus word.\<close>

definition bar_addr :: "dpi_pcie \<Rightarrow> nat \<Rightarrow> u64 \<Rightarrow> u64" where
  "bar_addr d num addr = addr + bar_offset (bars_conf (dp_conf d) ! num)"

definition one_beat :: "dpi_pcie \<Rightarrow> nat \<Rightarrow> u64 \<Rightarrow> u32 \<Rightarrow> bool" where
  "one_beat d num addr sz \<longleftrightarrow> num < 6 \<and> sz \<in> {1, 2, 4, 8}
     \<and> unat (bar_addr d num addr mod dp_BUSW d) + unat sz \<le> unat (dp_BUSW d)"

lemma of_nat_bar [simp]: "num < 6 \<Longrightarrow> unat (of_nat num :: u8) = num"
  by (simp add: unat_of_nat)

lemma size_small: "sz \<in> {1, 2, 4, 8} \<Longrightarrow> unat (sz :: u32) \<in> {1, 2, 4, 8}"
  by auto

text \<open>The messages QEMU sends, as the bridge's branch sees them.\<close>

lemma poll_mmio_write:
  assumes "one_beat d num addr sz" and "bridge_up d" and "length (v_data p) = BUFF_SIZE"
  shows "\<exists>p'. poll_qemu_req (dp_BUSW d) (dp_conf d) (mmio_write_request num addr val sz tx) p = Some p'
    \<and> req_type p' = QEMUOp_val M_WR
    \<and> axi_write_beat (dp_BUSW d) (v_addr p') (v_strb p') (v_data p') m
        = mem_store m (bar_addr d num addr) (take (unat sz) (to_le 8 val))"
proof -
  let ?acc = "mmio_write_request num addr val sz tx"
  from assms have num: "num < 6" and n: "unat sz \<in> {1, 2, 4, 8}"
    using size_small by (auto simp: one_beat_def)
  from n have "take (unat sz) (acc_buf ?acc) = take (unat sz) (to_le 8 val)"
    by (intro take_request_data) auto
  moreover have "\<exists>p'. poll_qemu_req (dp_BUSW d) (dp_conf d) ?acc p = Some p'
    \<and> req_type p' = QEMUOp_val M_WR \<and> v_addr p' = bar_addr d num addr \<and> v_len p' = 0
    \<and> axi_write_beat (dp_BUSW d) (v_addr p') (v_strb p') (v_data p') m
        = mem_store m (bar_addr d num addr) (take (unat (data_size ?acc)) (acc_buf ?acc))"
    using assms num n
    by (intro poll_write_beat)
       (auto simp: bridge_up_def one_beat_def bar_addr_def)
  ultimately show ?thesis by auto
qed

lemma poll_mmio_read:
  assumes "one_beat d num addr sz" and "bridge_up d"
  shows "\<exists>p'. poll_qemu_req (dp_BUSW d) (dp_conf d) (mmio_read_request num addr sz tx) p = Some p'
    \<and> req_type p' = QEMUOp_val M_RD \<and> v_addr p' = bar_addr d num addr \<and> v_len p' = 0"
proof -
  from assms have "unat sz \<le> unat (dp_BUSW d)" by (auto simp: one_beat_def)
  then have "axi_burst_len (dp_BUSW d) sz = 0" by (rule burst_len_single)
  moreover have "dp_BUSW d \<noteq> 0" using assms by (auto simp: bridge_up_def)
  ultimately show ?thesis
    using assms by (simp add: poll_qemu_req_def one_beat_def bar_addr_def Let_def)
qed

text \<open>
  The response frame of a read: the lanes from the address on, copied to the front of the
  buffer; the rest of the structure is what the stack held.
\<close>

definition read_reply :: "byte list \<Rightarrow> u64 \<Rightarrow> u64 \<Rightarrow> mem \<Rightarrow> byte list" where
  "read_reply stk busw a m =
     encode_ACCData (padding_ACCData stk) ((decode_ACCData stk)\<lparr>acc_buf :=
       the (memcpy (acc_buf (decode_ACCData stk)) 0
              (axi_read_beat busw a m @ replicate (BUFF_SIZE - unat busw) 0)
              (unat (a mod busw)) (BUFF_SIZE - unat (a mod busw)))\<rparr>)"

lemma read_reply_copy:
  assumes busw: "0 < unat busw" "unat busw \<le> 64" and stk: "length stk = sizeof_ACCData"
  shows "\<exists>buf. memcpy (acc_buf (decode_ACCData stk)) 0
      (axi_read_beat busw a m @ replicate (BUFF_SIZE - unat busw) 0)
      (unat (a mod busw)) (BUFF_SIZE - unat (a mod busw)) = Some buf \<and> length buf = BUFF_SIZE"
proof -
  have "wf_ACCData (decode_ACCData stk)" using stk by (intro wf_decode_ACCData) simp
  with busw mod_less_busw [OF busw(1), of a] show ?thesis
    by (simp add: memcpy_def wf_ACCData_def axi_read_beat_def length_bytes_at)
qed

lemma read_reply_data:
  assumes busw: "0 < unat busw" "unat busw \<le> 64" and stk: "length stk = sizeof_ACCData"
    and kn: "unat (a mod busw) + n \<le> unat busw"
  shows "length (read_reply stk busw a m) = sizeof_ACCData"
    and "take n (acc_buf (decode_ACCData (read_reply stk busw a m))) = mem_load m a n"
proof -
  let ?k = "unat (a mod busw)"
  let ?data = "axi_read_beat busw a m @ replicate (BUFF_SIZE - unat busw) 0"
  obtain buf where buf: "memcpy (acc_buf (decode_ACCData stk)) 0 ?data ?k (BUFF_SIZE - ?k) = Some buf"
    and lb: "length buf = BUFF_SIZE"
    using read_reply_copy [OF busw stk] by blast
  let ?acc = "(decode_ACCData stk)\<lparr>acc_buf := buf\<rparr>"
  have wfa: "wf_ACCData ?acc" using lb by (simp add: wf_ACCData_def)
  have R: "read_reply stk busw a m = encode_ACCData (padding_ACCData stk) ?acc"
    by (simp only: read_reply_def buf option.sel)
  have "take n buf = take n (drop ?k ?data)"
    using buf kn busw by (auto simp: memcpy_def bytes_at_def split: if_splits)
  also have "\<dots> = take n (drop ?k (axi_read_beat busw a m))"
    using kn by (simp add: axi_read_beat_def)
  also have "\<dots> = mem_load m a n" using busw(1) kn by (rule axi_read_beat_load)
  finally show "take n (acc_buf (decode_ACCData (read_reply stk busw a m))) = mem_load m a n"
    using R acc.dec_enc [OF wfa] stk by simp
  show "length (read_reply stk busw a m) = sizeof_ACCData"
    using R acc.length_enc [OF wfa] stk by simp
qed

section \<open>The transaction over the queues\<close>

context zmq_fifo
begin

lemma send_ACCData_eq:
  "send_ACCData L stk acc (Some s) (d, w) =
     (Done (), (d, enq (link s) (encode_ACCData (padding_ACCData stk) acc) w))"
  by (simp add: send_ACCData_def cprog_simps zmq_laws)

text \<open>
  With a request waiting and no initialisation pending, \<open>C_poll\<close> takes the request off the queue
  and translates it.
\<close>

lemma C_poll_request:
  assumes "bridge_up d" and "dp_initsock d = Some i" and "q w i = []"
    and "dp_qemu_req d = Some a" and qa: "q w a = encode_ACCData (replicate 7 0) acc # rest"
    and "wf_ACCData acc" and "poll_qemu_req (dp_BUSW d) (dp_conf d) acc p = Some p'"
  shows "C_poll L p (d, w) = (Done p', (d, deq a w))"
proof -
  have "cast_ACCData (encode_ACCData (replicate 7 0) acc) = Some acc"
    using acc.dec_enc assms(6) by (simp add: cast_ACCData_def)
  then show ?thesis
    using assms frame_recv [OF qa]
    by (auto simp: C_poll_def bridge_up_def recv_ACCData_def cprog_simps zmq_laws)
qed

text \<open>The BAR number of a message indexes the six BARs unchecked.\<close>

lemma C_poll_bad_bar:
  assumes "bridge_up d" and "dp_initsock d = Some i" and "q w i = []"
    and "dp_qemu_req d = Some a" and qa: "q w a = f # rest"
    and "sizeof_ACCData \<le> length f" and "6 \<le> unat (bar_num (decode_ACCData f))"
  shows "C_poll L p (d, w) = (Undefined, (d, deq a w))"
proof -
  have "poll_qemu_req (dp_BUSW d) (dp_conf d) (decode_ACCData f) p = None"
    using assms(7) by (simp add: poll_qemu_req_def)
  then show ?thesis
    using assms frame_recv [OF qa]
    by (auto simp: C_poll_def bridge_up_def recv_ACCData_def cast_ACCData_def cprog_simps zmq_laws)
qed

lemma hdl_transaction_write:
  assumes up: "bridge_up d" and i: "dp_initsock d = Some i" "q w i = []"
    and a: "dp_qemu_req d = Some a" and c: "dp_qemu_resp d = Some c"
    and qa: "q w a = encode_ACCData (replicate 7 0) (mmio_write_request num addr val sz tx) # rest"
    and beat: "one_beat d num addr sz" and vd: "length (v_data p) = BUFF_SIZE"
  shows "hdl_transaction L stk p m (d, w) =
    (Done (mem_store m (bar_addr d num addr) (take (unat sz) (to_le 8 val))),
     (d, enq (link c) (encode_ACCData (padding_ACCData stk) (decode_ACCData stk)) (deq a w)))"
proof -
  obtain p' where p': "poll_qemu_req (dp_BUSW d) (dp_conf d) (mmio_write_request num addr val sz tx) p = Some p'"
    "req_type p' = QEMUOp_val M_WR"
    "axi_write_beat (dp_BUSW d) (v_addr p') (v_strb p') (v_data p') m
       = mem_store m (bar_addr d num addr) (take (unat sz) (to_le 8 val))"
    using poll_mmio_write [OF beat up vd] by blast
  have "C_poll L p (d, w) = (Done p', (d, deq a w))"
    using C_poll_request [OF up i a qa wf_requests(1) p'(1)] .
  with p' c show ?thesis
    by (simp add: hdl_transaction_def C_resp_write_def send_ACCData_eq cprog_simps)
qed

lemma hdl_transaction_read:
  assumes up: "bridge_up d" and i: "dp_initsock d = Some i" "q w i = []"
    and a: "dp_qemu_req d = Some a" and c: "dp_qemu_resp d = Some c"
    and qa: "q w a = encode_ACCData (replicate 7 0) (mmio_read_request num addr sz tx) # rest"
    and beat: "one_beat d num addr sz" and stk: "length stk = sizeof_ACCData"
  shows "hdl_transaction L stk p m (d, w) =
    (Done m, (d, enq (link c) (read_reply stk (dp_BUSW d) (bar_addr d num addr) m) (deq a w)))"
proof -
  let ?A = "bar_addr d num addr" and ?busw = "dp_BUSW d"
  let ?data = "axi_read_beat ?busw ?A m @ replicate (BUFF_SIZE - unat ?busw) 0"
  have busw: "0 < unat ?busw" "unat ?busw \<le> 64" using up by (simp_all add: bridge_up_def)
  obtain p' where p': "poll_qemu_req ?busw (dp_conf d) (mmio_read_request num addr sz tx) p = Some p'"
    "req_type p' = QEMUOp_val M_RD" "v_addr p' = ?A"
    using poll_mmio_read [OF beat up] by blast
  have poll: "C_poll L p (d, w) = (Done p', (d, deq a w))"
    using C_poll_request [OF up i a qa wf_requests(2) p'(1)] .
  have "?busw \<noteq> 0" using busw by auto
  then have "C_resp_read L stk ?A ?data (d, deq a w) =
      (Done (), (d, enq (link c) (read_reply stk ?busw ?A m) (deq a w)))"
    using c align_offset_eq [OF busw, of ?A] copy_rest_align [OF busw, of ?A] read_reply_copy [OF busw stk, of ?A m]
    by (auto simp: C_resp_read_def send_ACCData_eq read_reply_def cprog_simps)
  then show ?thesis using p' poll by (simp add: hdl_transaction_def cprog_simps)
qed

end

section \<open>Both processes\<close>

text \<open>
  \<open>cosim_world\<close>: QEMU's device \<open>s\<close> and the bridge \<open>d\<close> share the queues, their sockets are connected
  pairwise, and while QEMU waits for a response the hardware serves one transaction on the
  memory \<open>hmem\<close> behind its bus.
\<close>

definition linked :: "(nat \<Rightarrow> nat) \<Rightarrow> ACCPCIeState \<Rightarrow> dpi_pcie \<Rightarrow> bool" where
  "linked link s d \<longleftrightarrow> qemu_req s \<noteq> None \<and> dp_qemu_resp d \<noteq> None
     \<and> dp_qemu_req d = map_option link (qemu_req s)
     \<and> qemu_resp s = map_option link (dp_qemu_resp d)
     \<and> dp_qemu_req d \<noteq> qemu_resp s \<and> dp_initsock d \<noteq> qemu_resp s"

definition mmio_idle :: "(nat \<Rightarrow> byte list list) \<Rightarrow> ACCPCIeState \<Rightarrow> dpi_pcie \<Rightarrow> bool" where
  "mmio_idle qs s d \<longleftrightarrow> qs (the (dp_initsock d)) = [] \<and> qs (the (dp_qemu_req d)) = []
     \<and> qs (the (qemu_resp s)) = []"

locale cosim_world = qemu: zmq_fifo L q enq deq link peer + hdl: zmq_fifo M q enq deq link peer'
  for L :: "('w, 'y) qemu_api_scheme"
    and M :: "('w, 'z) czmq_scheme"
    and q :: "'w \<Rightarrow> nat \<Rightarrow> byte list list"
    and enq :: "nat \<Rightarrow> byte list \<Rightarrow> 'w \<Rightarrow> 'w"
    and deq :: "nat \<Rightarrow> 'w \<Rightarrow> 'w"
    and link :: "nat \<Rightarrow> nat"
    and peer :: "'w \<Rightarrow> 'w"
    and peer' :: "'w \<Rightarrow> 'w" +
  fixes s :: ACCPCIeState
    and d :: dpi_pcie
    and stk :: "byte list"
    and p :: poll_args
    and hmem :: "'w \<Rightarrow> mem"
    and set_hmem :: "mem \<Rightarrow> 'w \<Rightarrow> 'w"
  assumes up: "bridge_up d"
    and links: "linked link s d"
    and stk: "length stk = sizeof_ACCData"
    and vd: "length (v_data p) = BUFF_SIZE"
    and peer_serves: "hdl_transaction M stk p (hmem w) (d, w) = (Done m', (d, w')) \<Longrightarrow>
          peer w = set_hmem m' w'"
    and hmem_laws: "hmem (enq n f w) = hmem w" "hmem (deq n w) = hmem w"
          "hmem (set_hmem m w) = m" "q (set_hmem m w) = q w"
begin

text \<open>
  What QEMU's exchange comes to, once the hardware's transaction is known to answer with one
  frame \<open>R\<close> and to leave memory \<open>m'\<close>.
\<close>

lemma exchange_served:
  assumes idle: "mmio_idle (q w) s d" and wf: "wf_ACCData req"
    and direct: "acc_zmq_warn_ms (log_init_fn L g) \<le> 0"
    and qr: "qemu_req s = Some a" and qp: "qemu_resp s = Some b" and c: "dp_qemu_resp d = Some c"
    and tr: "\<And>w1. q w1 (link a) = [encode_ACCData (replicate 7 0) req] \<Longrightarrow> q w1 (the (dp_initsock d)) = [] \<Longrightarrow>
        hmem w1 = hmem w \<Longrightarrow>
        hdl_transaction M stk p (hmem w1) (d, w1) = (Done m', (d, enq (link c) R (deq (link a) w1)))"
  shows "\<exists>w'. exchanged L s g req w (Some R) w' \<and> mmio_idle (q w') s d \<and> hmem w' = m'"
proof -
  let ?F = "encode_ACCData (replicate 7 0) req"
  let ?w1 = "enq (link a) ?F w"
  let ?w2 = "enq (link c) R (deq (link a) ?w1)"
  let ?w3 = "set_hmem m' ?w2"
  have lb: "link c = b" "dp_qemu_req d = Some (link a)" "link a \<noteq> b" "the (dp_initsock d) \<noteq> link a"
    "the (dp_initsock d) \<noteq> b"
    using links qr qp c up by (auto simp: linked_def bridge_up_def)
  have e: "q w (the (dp_initsock d)) = []" "q w (link a) = []" "q w b = []"
    using idle lb qp by (simp_all add: mmio_idle_def)
  have q1: "q ?w1 = (q w)(link a := [?F])" by (simp add: qemu.q_enq e)
  then have "hdl_transaction M stk p (hmem ?w1) (d, ?w1) = (Done m', (d, ?w2))"
    using e lb by (intro tr) (simp_all add: hmem_laws)
  then have peer: "peer ?w1 = ?w3" by (rule peer_serves)
  have qd: "q (deq (link a) ?w1) = (q ?w1)(link a := [])"
    by (rule qemu.q_deq [of _ _ ?F]) (simp add: q1)
  then have q3: "q ?w3 = (q w)(link a := [], b := [R])"
    using lb e by (auto simp: hmem_laws qemu.q_enq q1)
  have "zframe_recv L (Some b) ?w1 = zframe_recv L (Some b) (peer ?w1)"
    using lb e q3 peer by (intro qemu.recv_waits) (simp_all add: q1)
  also have "\<dots> = (Some R, deq b ?w3)"
    unfolding peer by (rule qemu.frame_recv [of _ _ _ "[]"]) (simp add: q3)
  finally have recv: "zframe_recv L (Some b) ?w1 = (Some R, deq b ?w3)" .
  have "exchanged L s g req w (Some R) (deq b ?w3)"
    using qr qp recv direct
    by (simp add: exchanged_def qemu.zmq_laws recv_ready_def)
  moreover have "q (deq b ?w3) = (q w)(link a := [], b := [])"
    using qemu.q_deq [of ?w3 b R "[]"] q3 by simp
  ultimately show ?thesis
    using lb e qp by (intro exI [of _ "deq b ?w3"]) (simp add: mmio_idle_def hmem_laws)
qed

lemma write_end_to_end:
  assumes "log_ok g" and idle: "mmio_idle (q w) s d"
    and direct: "acc_zmq_warn_ms (log_init_fn L g) \<le> 0" and beat: "one_beat d num addr sz"
  shows "\<exists>g' w'. mmio_write_bar L num s addr val sz (g, w) = (Done (), (g', w'))
    \<and> hmem w' = mem_store (hmem w) (bar_addr d num addr) (take (unat sz) (to_le 8 val))
    \<and> mmio_idle (q w') s d \<and> log_ok g'
    \<and> same_core L (g\<lparr>acc_global_txid := acc_global_txid g + 1\<rparr>) g'"
proof -
  obtain a b c i where s: "qemu_req s = Some a" "qemu_resp s = Some b" "dp_qemu_resp d = Some c"
    "dp_qemu_req d = Some (link a)" "dp_initsock d = Some i"
    using links up by (auto simp: linked_def bridge_up_def)
  let ?req = "mmio_write_request num addr val sz (acc_global_txid g + 1)"
  let ?R = "encode_ACCData (padding_ACCData stk) (decode_ACCData stk)"
  from exchange_served [OF idle wf_requests(1) direct s(1,2,3),
      of num addr val sz "acc_global_txid g + 1"
        "mem_store (hmem w) (bar_addr d num addr) (take (unat sz) (to_le 8 val))" ?R]
  obtain w' where ex: "exchanged L s g ?req w (Some ?R) w'"
    and w': "mmio_idle (q w') s d"
      "hmem w' = mem_store (hmem w) (bar_addr d num addr) (take (unat sz) (to_le 8 val))"
    using hdl.hdl_transaction_write [OF up s(5) _ s(4,3) _ beat vd] s(5) by auto
  from mmio_write_bar_eq [OF assms(1) ex] w' qemu.frame_destroy show ?thesis by auto
qed

lemma read_end_to_end:
  assumes "log_ok g" and idle: "mmio_idle (q w) s d"
    and direct: "acc_zmq_warn_ms (log_init_fn L g) \<le> 0" and beat: "one_beat d num addr sz"
  shows "\<exists>g' w'. mmio_read_bar L num s addr sz (g, w) =
      (Done (of_le (mem_load (hmem w) (bar_addr d num addr) (unat sz))), (g', w'))
    \<and> hmem w' = hmem w \<and> mmio_idle (q w') s d \<and> log_ok g'
    \<and> same_core L (g\<lparr>acc_global_txid := acc_global_txid g + 1\<rparr>) g'"
proof -
  obtain a b c i where s: "qemu_req s = Some a" "qemu_resp s = Some b" "dp_qemu_resp d = Some c"
    "dp_qemu_req d = Some (link a)" "dp_initsock d = Some i"
    using links up by (auto simp: linked_def bridge_up_def)
  let ?req = "mmio_read_request num addr sz (acc_global_txid g + 1)"
  let ?R = "read_reply stk (dp_BUSW d) (bar_addr d num addr) (hmem w)"
  from exchange_served [OF idle wf_requests(2) direct s(1,2,3),
      of num addr sz "acc_global_txid g + 1" "hmem w" ?R]
  obtain w' where ex: "exchanged L s g ?req w (Some ?R) w'"
    and w': "mmio_idle (q w') s d" "hmem w' = hmem w"
    using hdl.hdl_transaction_read [OF up s(5) _ s(4,3) _ beat stk] s(5) by auto
  have fits: "0 < unat (dp_BUSW d)" "unat (dp_BUSW d) \<le> 64"
    "unat (bar_addr d num addr mod dp_BUSW d) + unat sz \<le> unat (dp_BUSW d)" "sz \<in> {1, 2, 4, 8}"
    using up beat by (auto simp: bridge_up_def one_beat_def)
  have "response_value sz (Some ?R) = of_le (mem_load (hmem w) (bar_addr d num addr) (unat sz))"
    using read_reply_data [OF fits(1,2) stk fits(3)] read_switch_bytes [OF fits(4)]
    by (simp add: response_value_def)
  with mmio_read_bar_eq [OF assms(1) ex] w' qemu.frame_destroy show ?thesis by auto
qed

text \<open>What the guest writes to a BAR it reads back, cut to the access size.\<close>

lemma write_then_read:
  assumes "log_ok g" and "mmio_idle (q w) s d" and direct: "acc_zmq_warn_ms (log_init_fn L g) \<le> 0"
    and beat: "one_beat d num addr sz"
  shows "\<exists>g1 w1 g2 w2. mmio_write_bar L num s addr val sz (g, w) = (Done (), (g1, w1))
    \<and> mmio_read_bar L num s addr sz (g1, w1) = (Done (take_bit (8 * unat sz) val), (g2, w2))"
proof -
  let ?A = "bar_addr d num addr" and ?bs = "take (unat sz) (to_le 8 val)"
  from write_end_to_end [OF assms, of val] obtain g1 w1 where
    wr: "mmio_write_bar L num s addr val sz (g, w) = (Done (), (g1, w1))"
    and m1: "hmem w1 = mem_store (hmem w) ?A ?bs" and i1: "mmio_idle (q w1) s d" and g1: "log_ok g1"
      "same_core L (g\<lparr>acc_global_txid := acc_global_txid g + 1\<rparr>) g1" by blast
  from g1(2) direct have "acc_zmq_warn_ms (log_init_fn L g1) \<le> 0" by (simp add: same_core_def)
  from read_end_to_end [OF g1(1) i1 this beat] obtain g2 w2 where
    rd: "mmio_read_bar L num s addr sz (g1, w1) = (Done (of_le (mem_load (hmem w1) ?A (unat sz))), (g2, w2))"
    by blast
  from beat have n: "unat sz \<le> 8" by (auto simp: one_beat_def)
  then have "mem_load (hmem w1) ?A (unat sz) = ?bs"
    using mem_load_store [of ?bs "hmem w" ?A] m1 by simp
  with n rd wr show ?thesis by (simp add: of_le_take_bit)
qed

end

section \<open>Runs of accesses\<close>

text \<open>
  The reference for a run of guest accesses: a memory, where a write stores its bytes and a read
  returns what is there.  Accesses are naturally aligned when their address is a multiple of their
  size.
\<close>

fun mem_run :: "(nat \<Rightarrow> u64) \<Rightarrow> mem \<Rightarrow> mmio_op list \<Rightarrow> u64 list \<times> mem" where
  "mem_run off m [] = ([], m)"
| "mem_run off m (Mmio_write num addr val sz # ops) =
     mem_run off (mem_store m (addr + off num) (take (unat sz) (to_le 8 val))) ops"
| "mem_run off m (Mmio_read num addr sz # ops) =
     (let (vs, m') = mem_run off m ops in (of_le (mem_load m (addr + off num) (unat sz)) # vs, m'))"

fun aligned_op :: "mmio_op \<Rightarrow> bool" where
  "aligned_op (Mmio_write num addr val sz) \<longleftrightarrow> num < 6 \<and> sz \<in> {1, 2, 4, 8} \<and> unat addr mod unat sz = 0"
| "aligned_op (Mmio_read num addr sz) \<longleftrightarrow> num < 6 \<and> sz \<in> {1, 2, 4, 8} \<and> unat addr mod unat sz = 0"

text \<open>
  On a bus of 8 to 64 byte lanes, with BARs at multiples of 8, no naturally aligned access crosses
  a bus word.
\<close>

lemma aligned_fits_word:
  assumes n: "n \<in> {1, 2, 4, 8::nat}" and a: "unat (a :: u64) mod n = 0" and o: "unat (off :: u64) mod 8 = 0"
    and b: "unat (busw :: u64) \<in> {8, 16, 32, 64}"
  shows "unat ((a + off) mod busw) + n \<le> unat busw"
proof -
  let ?b = "unat busw"
  have nb: "n dvd ?b" using n b by auto
  have "n dvd 2 ^ 64" and "n dvd 8" using n by auto
  moreover have "n dvd unat a" using a by auto
  moreover have "n dvd unat off" using o \<open>n dvd 8\<close> by (meson dvd_trans mod_0_imp_dvd)
  ultimately have "n dvd unat (a + off)" by (simp add: unat_word_ariths dvd_mod)
  then have "n dvd unat (a + off) mod ?b" using nb by (rule dvd_mod)
  then have d: "n dvd ?b - unat ((a + off) mod busw)" using nb by (simp add: unat_mod dvd_diff_nat)
  have "unat ((a + off) mod busw) < ?b" using b by (intro mod_less_busw) auto
  then have "0 < ?b - unat ((a + off) mod busw)" by simp
  with d have "n \<le> ?b - unat ((a + off) mod busw)" by (rule dvd_imp_le)
  with \<open>unat ((a + off) mod busw) < ?b\<close> show ?thesis by simp
qed

lemma aligned_one_beat:
  assumes "num < 6" and "sz \<in> {1, 2, 4, 8}" and "unat addr mod unat sz = 0"
    and "unat (bar_offset (bars_conf (dp_conf d) ! num)) mod 8 = 0" and "unat (dp_BUSW d) \<in> {8, 16, 32, 64}"
  shows "one_beat d num addr sz"
  using assms aligned_fits_word [OF size_small [OF assms(2)] assms(3-5)]
  by (simp add: one_beat_def bar_addr_def)

context cosim_world
begin

lemma run_refines_memory:
  assumes "\<forall>num < 6. unat (bar_offset (bars_conf (dp_conf d) ! num)) mod 8 = 0"
    and "unat (dp_BUSW d) \<in> {8, 16, 32, 64}"
  shows "log_ok g \<Longrightarrow> mmio_idle (q w) s d \<Longrightarrow> acc_zmq_warn_ms (log_init_fn L g) \<le> 0 \<Longrightarrow> list_all aligned_op ops \<Longrightarrow>
    \<exists>g' w'. run_mmio L s ops (g, w) =
        (Done (fst (mem_run (\<lambda>num. bar_offset (bars_conf (dp_conf d) ! num)) (hmem w) ops)), (g', w'))
      \<and> hmem w' = snd (mem_run (\<lambda>num. bar_offset (bars_conf (dp_conf d) ! num)) (hmem w) ops)
      \<and> mmio_idle (q w') s d \<and> acc_global_txid g' = acc_global_txid g + of_nat (length ops)"
proof (induction ops arbitrary: g w)
  case Nil
  then show ?case by (simp add: cprog_simps)
next
  case (Cons op ops)
  let ?g = "g\<lparr>acc_global_txid := acc_global_txid g + 1\<rparr>"
  have next_step: "acc_zmq_warn_ms (log_init_fn L g1) \<le> 0" "acc_global_txid g1 = acc_global_txid g + 1"
    if "same_core L ?g g1" for g1 using that Cons.prems(3) by (simp_all add: same_core_def)
  show ?case
  proof (cases op)
    case (Mmio_write num addr val sz)
    then have "one_beat d num addr sz" using Cons.prems(4) assms by (intro aligned_one_beat) auto
    from write_end_to_end [OF Cons.prems(1-3) this, of val] obtain g1 w1 where
      1: "mmio_write_bar L num s addr val sz (g, w) = (Done (), (g1, w1))"
        "hmem w1 = mem_store (hmem w) (bar_addr d num addr) (take (unat sz) (to_le 8 val))"
        "mmio_idle (q w1) s d" "log_ok g1" "same_core L ?g g1" by blast
    from Cons.IH [OF 1(4,3) next_step(1) [OF 1(5)]] Cons.prems(4) 1 next_step(2) [OF 1(5)] show ?thesis
      by (auto simp: Mmio_write bar_addr_def thenC_def bindC_Done)
  next
    case (Mmio_read num addr sz)
    then have "one_beat d num addr sz" using Cons.prems(4) assms by (intro aligned_one_beat) auto
    from read_end_to_end [OF Cons.prems(1-3) this] obtain g1 w1 where
      1: "mmio_read_bar L num s addr sz (g, w) =
          (Done (of_le (mem_load (hmem w) (bar_addr d num addr) (unat sz))), (g1, w1))"
        "hmem w1 = hmem w" "mmio_idle (q w1) s d" "log_ok g1" "same_core L ?g g1" by blast
    from Cons.IH [OF 1(4,3) next_step(1) [OF 1(5)]] Cons.prems(4) 1 next_step(2) [OF 1(5)] show ?thesis
      by (auto simp: Mmio_read bar_addr_def cprog_simps split: prod.splits)
  qed
qed

end

end
