(* ===== verification/Cosim_Dma.thy ===== *)
theory Cosim_Dma
  imports Cosim
begin

text \<open>
  Accesses of the hardware to guest memory: \<open>C_req_write\<close>, \<open>C_req_read\<close> and \<open>C_req_interrupt\<close> of the
  bridge on one side, \<open>handle_hdl_request\<close> of the device on the other.  The copy loops of
  \<open>C_req_write\<close> are shown equal to a reference definition, which says that the strobed bytes of
  all beats are packed together from the start of the buffer.
\<close>

section \<open>The copy loops\<close>

definition beat_lanes :: "nat \<Rightarrow> nat \<Rightarrow> byte list \<Rightarrow> u64 \<Rightarrow> byte list" where
  "beat_lanes busw pos data st = map (\<lambda>j. data ! (pos + j)) (filter (bit st) [0..<busw])"

definition burst_lanes :: "nat \<Rightarrow> nat \<Rightarrow> nat \<Rightarrow> byte list \<Rightarrow> u64 list \<Rightarrow> byte list" where
  "burst_lanes n i busw data strb =
     concat (map (\<lambda>b. beat_lanes busw (b * busw) data (strb ! b)) [i..<i + n])"

text \<open>A buffer with \<open>bs\<close> written at \<open>k\<close>.\<close>

definition splice :: "nat \<Rightarrow> byte list \<Rightarrow> byte list \<Rightarrow> byte list" where
  "splice k bs buf = take k buf @ bs @ drop (k + length bs) buf"

lemma splice_Nil [simp]: "splice k [] buf = buf"
  by (simp add: splice_def)

lemma length_splice [simp]: "k + length bs \<le> length buf \<Longrightarrow> length (splice k bs buf) = length buf"
  by (simp add: splice_def)

lemma splice_step:
  assumes "k < length buf" and "Suc k + length bs \<le> length buf"
  shows "splice (Suc k) bs (buf[k := b]) = splice k (b # bs) buf"
  using assms by (simp add: splice_def take_Suc_conv_app_nth)

lemma splice_append:
  assumes "k + length bs + length cs \<le> length buf"
  shows "splice (k + length bs) cs (splice k bs buf) = splice k (bs @ cs) buf"
  using assms by (simp add: splice_def add_ac)

lemma beat_lanes_Suc:
  "beat_lanes (Suc n) pos data st =
     (if bit st 0 then [data ! pos] else []) @ beat_lanes n (Suc pos) data (drop_bit 1 st)"
proof -
  have "filter (bit st) [0..<Suc n] = (if bit st 0 then [0] else []) @ filter (bit st) (map Suc [0..<n])"
    by (simp add: upt_conv_Cons map_Suc_upt del: upt_Suc)
  moreover have "filter (bit st) (map Suc [0..<n]) = map Suc (filter (bit (drop_bit 1 st)) [0..<n])"
    by (simp add: filter_map comp_def bit_drop_bit_eq)
  ultimately show ?thesis by (simp add: beat_lanes_def comp_def)
qed

lemma beat_copy_eq:
  assumes "pos + n \<le> length data" and "k + length (beat_lanes n pos data st) \<le> length buf"
  shows "beat_copy n pos data st k buf =
    Some (drop_bit n st, k + length (beat_lanes n pos data st), splice k (beat_lanes n pos data st) buf)"
  using assms
proof (induction n arbitrary: pos st k buf)
  case 0
  then show ?case by (simp add: beat_lanes_def)
next
  case (Suc n)
  have odd: "st AND 1 \<noteq> 0 \<longleftrightarrow> bit st 0" by (simp add: and_one_eq bit_0 odd_iff_mod_2_eq_one)
  have sh: "drop_bit n (drop_bit 1 st) = drop_bit (Suc n) st" by simp
  show ?case
  proof (cases "bit st 0")
    case True
    with Suc.prems have k: "k < length buf" and
      le: "Suc k + length (beat_lanes n (Suc pos) data (drop_bit 1 st)) \<le> length buf"
      by (simp_all add: beat_lanes_Suc)
    with Suc.IH [of "Suc pos" "Suc k" "drop_bit 1 st" "buf[k := data ! pos]"] Suc.prems True odd
    show ?thesis by (simp add: beat_lanes_Suc splice_step del: drop_bit_Suc One_nat_def) (simp add: sh)
  next
    case False
    with Suc.IH [of "Suc pos" k "drop_bit 1 st" buf] Suc.prems odd
    show ?thesis by (simp add: beat_lanes_Suc del: drop_bit_Suc One_nat_def) (simp add: sh)
  qed
qed

lemma burst_lanes_Suc:
  "burst_lanes (Suc n) i busw data strb =
     beat_lanes busw (i * busw) data (strb ! i) @ burst_lanes n (Suc i) busw data strb"
  by (simp add: burst_lanes_def upt_conv_Cons del: upt_Suc)

lemma burst_lanes_upd: "burst_lanes n (Suc i) busw data (strb[i := st]) = burst_lanes n (Suc i) busw data strb"
  unfolding burst_lanes_def by (intro arg_cong [of _ _ concat] map_cong) auto

lemma burst_copy_eq:
  assumes "(i + n) * busw \<le> length data" and "i + n \<le> length strb"
    and "k + length (burst_lanes n i busw data strb) \<le> length buf"
  shows "\<exists>strb'. burst_copy n i busw data strb k buf =
      Some (strb', k + length (burst_lanes n i busw data strb),
            splice k (burst_lanes n i busw data strb) buf)
    \<and> length strb' = length strb"
  using assms
proof (induction n arbitrary: i strb k buf)
  case 0
  then show ?case by (simp add: burst_lanes_def)
next
  case (Suc n)
  let ?B = "beat_lanes busw (i * busw) data (strb ! i)"
  let ?R = "burst_lanes n (Suc i) busw data strb"
  let ?strb = "strb[i := drop_bit busw (strb ! i)]"
  have len: "k + length ?B + length ?R \<le> length buf" using Suc.prems by (simp add: burst_lanes_Suc)
  have "i * busw + busw \<le> (i + Suc n) * busw" by simp
  with Suc.prems(1) have "i * busw + busw \<le> length data" by (rule le_trans [rotated])
  then have b: "beat_copy busw (i * busw) data (strb ! i) k buf =
      Some (drop_bit busw (strb ! i), k + length ?B, splice k ?B buf)"
    using len by (intro beat_copy_eq) simp_all
  have "\<exists>strb'. burst_copy n (Suc i) busw data ?strb (k + length ?B) (splice k ?B buf) =
      Some (strb', k + length ?B + length ?R, splice (k + length ?B) ?R (splice k ?B buf))
    \<and> length strb' = length ?strb"
    using Suc.IH [of "Suc i" ?strb "k + length ?B" "splice k ?B buf"] Suc.prems len
    by (simp add: burst_lanes_upd)
  with b Suc.prems len show ?case
    by (auto simp: burst_lanes_Suc splice_append)
qed

text \<open>With every lane strobed, packing is the identity on the data of the burst.\<close>

lemma beat_lanes_full:
  assumes "\<forall>j < busw. bit st j" and "pos + busw \<le> length data"
  shows "beat_lanes busw pos data st = bytes_at pos busw data"
proof -
  have "filter (bit st) [0..<busw] = [0..<busw]" using assms by (simp add: filter_id_conv)
  then show ?thesis using assms(2)
    by (intro nth_equalityI) (simp_all add: beat_lanes_def length_bytes_at nth_bytes_at)
qed

lemma burst_lanes_full:
  assumes "\<forall>b < i + n. \<forall>j < busw. bit (strb ! b) j" and "(i + n) * busw \<le> length data"
  shows "burst_lanes n i busw data strb = bytes_at (i * busw) (n * busw) data"
  using assms
proof (induction n arbitrary: i)
  case 0
  then show ?case by (simp add: burst_lanes_def bytes_at_def)
next
  case (Suc n)
  have "i * busw + busw \<le> (i + Suc n) * busw" by simp
  with Suc.prems(2) have "i * busw + busw \<le> length data" by (rule le_trans [rotated])
  then have "beat_lanes busw (i * busw) data (strb ! i) = bytes_at (i * busw) busw data"
    using Suc.prems(1) by (intro beat_lanes_full) auto
  moreover have "burst_lanes n (Suc i) busw data strb = bytes_at (Suc i * busw) (n * busw) data"
    using Suc.prems by (intro Suc.IH) auto
  ultimately show ?case
    by (simp add: burst_lanes_Suc bytes_at_def take_add add_ac)
qed

section \<open>Messages of the hardware\<close>

text \<open>Where a burst's size in bytes is \<open>n\<close> beats of \<open>2 ^ width\<close> bytes and small, nothing overflows.\<close>

lemma burst_bytes_eq:
  assumes "0 \<le> width" and "width < 31" and "0 \<le> len" and "(len + 1) * 2 ^ nat width < 2 ^ 31"
  shows "burst_bytes width len = Some (of_int ((len + 1) * 2 ^ nat width))"
proof -
  have "len + 1 \<le> (len + 1) * 2 ^ nat width" using assms(3) by (simp add: mult_le_cancel_left1)
  with assms(4) have "len + 1 < 2 ^ 31" by linarith
  moreover have "0 \<le> (len + 1) * 2 ^ nat width" using assms(3) by simp
  ultimately have "in_int (len + 1)" "in_int ((len + 1) * 2 ^ nat width)"
    using assms(3,4) unfolding in_int_def by linarith+
  with assms(1,2) show ?thesis by (simp add: burst_bytes_def c_int_def)
qed

text \<open>The response frame of a guest-memory read, as the bridge decodes it.\<close>

lemma decode_frame_put_data:
  assumes "sizeof_ACCData \<le> length bs" and "length dat \<le> BUFF_SIZE"
  shows "decode_ACCData (frame_put_data bs dat) =
    (decode_ACCData bs)\<lparr>acc_buf := dat @ drop (length dat) (acc_buf (decode_ACCData bs))\<rparr>"
proof -
  have low: "bytes_at o' n (frame_put_data bs dat) = bytes_at o' n bs" if "o' + n \<le> 21" for o' n
  proof -
    have "o' + n \<le> length (take 21 bs)" using that assms by simp
    then have "bytes_at o' n (frame_put_data bs dat) = bytes_at o' n (take 21 bs)"
      unfolding frame_put_data_def by (rule bytes_at_append)
    also have "\<dots> = bytes_at o' n bs" using that by (simp add: bytes_at_def drop_take min_def)
    finally show ?thesis .
  qed
  have "frame_put_data bs dat ! 20 = bs ! 20" using assms by (simp add: frame_put_data_def nth_append)
  moreover have "bytes_at 21 BUFF_SIZE (frame_put_data bs dat) = dat @ drop (length dat) (bytes_at 21 BUFF_SIZE bs)"
    using assms by (simp add: frame_put_data_def bytes_at_def drop_take add.commute)
  moreover have "bytes_at 4120 4 (frame_put_data bs dat) = bytes_at 4120 4 bs"
    using assms by (simp add: frame_put_data_def bytes_at_def)
  ultimately show ?thesis by (simp add: decode_ACCData_def low)
qed

context zmq_fifo
begin

lemma C_req_write_frame:
  assumes hr: "dp_hdl_req d = Some h" and busw: "dp_BUSW d < 2 ^ 31"
    and sz: "burst_bytes width len = Some sz" and len: "0 \<le> len"
    and data: "(nat len + 1) * unat (dp_BUSW d) \<le> length data" and strb: "nat len + 1 \<le> length strb"
    and fits: "length (burst_lanes (nat len + 1) 0 (unat (dp_BUSW d)) data strb) \<le> BUFF_SIZE"
    and stk: "length stk = sizeof_ACCData"
  shows "\<exists>strb'. C_req_write L stk addr width len data strb (d, w) = (Done strb', (d, enq (link h)
    (encode_ACCData (padding_ACCData stk) ((decode_ACCData stk)\<lparr>data_size := sz, address := addr,
       acc_op := ACCOp_val WRITE,
       acc_buf := splice 0 (burst_lanes (nat len + 1) 0 (unat (dp_BUSW d)) data strb)
                    (acc_buf (decode_ACCData stk))\<rparr>)) w))"
proof -
  have "wf_ACCData (decode_ACCData stk)" using stk by (intro wf_decode_ACCData) simp
  then have "length (acc_buf (decode_ACCData stk)) = BUFF_SIZE" by (simp add: wf_ACCData_def)
  with burst_copy_eq [of 0 "nat len + 1" "unat (dp_BUSW d)" data strb 0 "acc_buf (decode_ACCData stk)"]
    data strb fits obtain strb' where
    "burst_copy (nat len + 1) 0 (unat (dp_BUSW d)) data strb 0 (acc_buf (decode_ACCData stk)) =
      Some (strb', length (burst_lanes (nat len + 1) 0 (unat (dp_BUSW d)) data strb),
        splice 0 (burst_lanes (nat len + 1) 0 (unat (dp_BUSW d)) data strb) (acc_buf (decode_ACCData stk)))"
    by auto
  moreover have "nat (len + 1) = nat len + 1" using len by (simp add: nat_add_distrib)
  ultimately show ?thesis
    using hr busw sz by (intro exI [of _ strb']) (simp add: C_req_write_def cprog_simps send_ACCData_eq)
qed

lemma C_req_read_frame:
  assumes "dp_hdl_req d = Some h" and "burst_bytes width len = Some sz"
  shows "C_req_read L stk addr width len i (d, w) = (Done (), (d, enq (link h)
    (encode_ACCData (padding_ACCData stk) ((decode_ACCData stk)\<lparr>data_size := sz, address := addr,
       acc_op := ACCOp_val READ, acc_id := of_int i\<rparr>)) w))"
  using assms by (simp add: C_req_read_def cprog_simps send_ACCData_eq)

lemma C_req_interrupt_frame:
  assumes "dp_hdl_req d = Some h"
  shows "C_req_interrupt L stk vec (d, w) = (Done (), (d, enq (link h)
    (encode_ACCData (padding_ACCData stk)
      ((decode_ACCData stk)\<lparr>acc_op := ACCOp_val INTR, vector := of_int vec\<rparr>)) w))"
  using assms by (simp add: C_req_interrupt_def cprog_simps send_ACCData_eq)

text \<open>A read response is the only thing waiting: \<open>C_poll\<close> hands its data to the bus lanes.\<close>

lemma C_poll_response:
  assumes "bridge_up d" and "dp_initsock d = Some i" "q w i = []"
    and "dp_qemu_req d = Some a" "q w a = []"
    and "dp_hdl_resp d = Some h" "h \<noteq> i" "h \<noteq> a" and qh: "q w h = bs # rest"
    and "sizeof_ACCData \<le> length bs"
    and "poll_hdl_resp (dp_BUSW d) (decode_ACCData bs) p = Some p'"
  shows "C_poll L p (d, w) = (Done p', (d, deq h w))"
  using assms frame_recv [OF qh]
  by (auto simp: C_poll_def bridge_up_def recv_ACCData_def cast_ACCData_def cprog_simps zmq_laws)

end

section \<open>Both sides\<close>

definition dma_linked :: "(nat \<Rightarrow> nat) \<Rightarrow> ACCPCIeState \<Rightarrow> dpi_pcie \<Rightarrow> bool" where
  "dma_linked link s d \<longleftrightarrow> dp_hdl_req d \<noteq> None \<and> hdl_resp s \<noteq> None
     \<and> hdl_req s = map_option link (dp_hdl_req d)
     \<and> dp_hdl_resp d = map_option link (hdl_resp s) \<and> hdl_req s \<noteq> dp_hdl_resp d"

locale dma_world = qemu_host L q enq deq link peer ram irqs + hdl: zmq_fifo M q enq deq link peer'
  for L :: "('w, 'y) qemu_api_scheme"
    and M :: "('w, 'z) czmq_scheme"
    and q :: "'w \<Rightarrow> nat \<Rightarrow> byte list list"
    and enq :: "nat \<Rightarrow> byte list \<Rightarrow> 'w \<Rightarrow> 'w"
    and deq :: "nat \<Rightarrow> 'w \<Rightarrow> 'w"
    and link :: "nat \<Rightarrow> nat"
    and peer :: "'w \<Rightarrow> 'w"
    and peer' :: "'w \<Rightarrow> 'w"
    and ram :: "'w \<Rightarrow> mem"
    and irqs :: "'w \<Rightarrow> u32 list" +
  fixes s :: ACCPCIeState
    and d :: dpi_pcie
  assumes dma_links: "dma_linked link s d"
begin

text \<open>One message of the hardware, with nothing waiting before it.\<close>

lemma message_served:
  assumes "log_ok g" and h: "dp_hdl_req d = Some h" and hp: "hdl_resp s = Some hp"
    and e: "q w (link h) = []" and wf: "wf_ACCData acc" "length pad = 7"
    and size: "acc_op acc \<in> {ACCOp_val READ, ACCOp_val WRITE} \<Longrightarrow> unat (data_size acc) \<le> BUFF_SIZE"
  shows "\<exists>g' w'. handle_hdl_request L s (g, enq (link h) (encode_ACCData pad acc) w) = (Done (), (g', w'))
    \<and> same_core L g g'
    \<and> (ram w', irqs w', q w' (link hp))
        = hdl_serve (encode_ACCData pad acc) (ram w, irqs w, q w (link hp))
    \<and> (\<forall>t. t \<noteq> link hp \<longrightarrow> q w' t = q w t)"
proof -
  let ?F = "encode_ACCData pad acc" and ?w = "enq (link h) (encode_ACCData pad acc) w"
  have hr: "hdl_req s = Some (link h)" and ne: "link hp \<noteq> link h"
    using dma_links h hp by (auto simp: dma_linked_def)
  have "decode_ACCData ?F = acc" using wf by (rule acc.dec_enc)
  then have "hdl_frame_ok ?F" using wf size by (auto simp: hdl_frame_ok_def)
  moreover have "q ?w (link h) = [?F]" by (simp add: q_enq e)
  ultimately obtain g' w' where r: "handle_hdl_request L s (g, ?w) = (Done (), (g', w'))" "same_core L g g'"
    "q w' (link h) = []" "\<forall>t. t \<noteq> link h \<longrightarrow> t \<noteq> link hp \<longrightarrow> q w' t = q ?w t"
    "(ram w', irqs w', q w' (link hp)) = hdl_serve ?F (ram w, irqs w, q w (link hp))"
    using hdl_request_drains [OF assms(1) hr hp ne, of ?w] e ne
    by (auto simp: queue_frame q_enq simp del: hdl_serve.simps)
  have "q w' t = q w t" if "t \<noteq> link hp" for t
    using that r(3,4) e by (cases "t = link h") (simp_all add: q_enq)
  with r show ?thesis by blast
qed

text \<open>
  A write with any strobes: the guest receives the packed bytes and, up to the size the message
  names, what the bridge's stack held behind them.
\<close>

lemma dma_write_any:
  assumes g: "log_ok g" and h: "dp_hdl_req d = Some h" and e: "q w (link h) = []"
    and width: "0 \<le> width" "width < 31" and busw: "dp_BUSW d < 2 ^ 31" and len: "0 \<le> len"
    and n: "n = (nat len + 1) * 2 ^ nat width" "n \<le> BUFF_SIZE"
    and data: "(nat len + 1) * unat (dp_BUSW d) \<le> length data" and strb: "nat len + 1 \<le> length strb"
    and B: "B = burst_lanes (nat len + 1) 0 (unat (dp_BUSW d)) data strb" "length B \<le> BUFF_SIZE"
    and stk: "length stk = sizeof_ACCData"
  shows "\<exists>strb' w1 g' w2. C_req_write M stk addr width len data strb (d, w) = (Done strb', (d, w1))
    \<and> handle_hdl_request L s (g, w1) = (Done (), (g', w2))
    \<and> ram w2 = mem_store (ram w) addr (take n (B @ drop (length B) (acc_buf (decode_ACCData stk))))
    \<and> irqs w2 = irqs w \<and> q w2 = q w"
proof -
  let ?buf = "splice 0 B (acc_buf (decode_ACCData stk))"
  let ?acc = "(decode_ACCData stk)\<lparr>data_size := of_nat n, address := addr,
       acc_op := ACCOp_val WRITE, acc_buf := ?buf\<rparr>"
  obtain hp where hp: "hdl_resp s = Some hp" using dma_links by (auto simp: dma_linked_def)
  have prod: "(len + 1) * 2 ^ nat width = int n" using n(1) len by (simp add: algebra_simps)
  have sz: "burst_bytes width len = Some (of_nat n)"
    using burst_bytes_eq [OF width(1,2) len] n(2) prod by simp
  obtain strb' where
    wr: "C_req_write M stk addr width len data strb (d, w) =
      (Done strb', (d, enq (link h) (encode_ACCData (padding_ACCData stk) ?acc) w))"
    using hdl.C_req_write_frame [OF h busw sz len data strb _ stk, of addr w] B by auto
  have "wf_ACCData (decode_ACCData stk)" using stk by (intro wf_decode_ACCData) simp
  then have wf: "wf_ACCData ?acc" using B(2) by (simp add: wf_ACCData_def)
  have pad: "length (padding_ACCData stk) = 7" using stk by simp
  have un: "unat (of_nat n :: u32) = n" using n(2) by (simp add: unat_of_nat)
  from message_served [OF g h hp e wf pad] un n(2) acc.dec_enc [OF wf pad]
  obtain g' w2 where "handle_hdl_request L s (g, enq (link h) (encode_ACCData (padding_ACCData stk) ?acc) w)
      = (Done (), (g', w2))" "ram w2 = mem_store (ram w) addr (take n ?buf)" "irqs w2 = irqs w"
    "q w2 (link hp) = q w (link hp)" "\<forall>t. t \<noteq> link hp \<longrightarrow> q w2 t = q w t"
    by (auto simp: Let_def)
  moreover from this(4,5) have "q w2 = q w" by (metis ext)
  ultimately show ?thesis using wr by (auto simp: splice_def)
qed

lemma dma_write:
  assumes g: "log_ok g" and h: "dp_hdl_req d = Some h" and e: "q w (link h) = []"
    and width: "0 \<le> width" "width < 31" "unat (dp_BUSW d) = 2 ^ nat width" and len: "0 \<le> len"
    and n: "n = (nat len + 1) * 2 ^ nat width" "n \<le> BUFF_SIZE" "n \<le> length data"
    and strb: "nat len + 1 \<le> length strb" "\<forall>b \<le> nat len. \<forall>j < 2 ^ nat width. bit (strb ! b) j"
    and stk: "length stk = sizeof_ACCData"
  shows "\<exists>strb' w1 g' w2. C_req_write M stk addr width len data strb (d, w) = (Done strb', (d, w1))
    \<and> handle_hdl_request L s (g, w1) = (Done (), (g', w2))
    \<and> ram w2 = mem_store (ram w) addr (take n data) \<and> irqs w2 = irqs w \<and> q w2 = q w"
proof -
  have lanes: "take n data = burst_lanes (nat len + 1) 0 (unat (dp_BUSW d)) data strb"
    using burst_lanes_full [of 0 "nat len + 1" "2 ^ nat width" strb data] strb n width(3)
    by (simp add: bytes_at_def less_Suc_eq_le)
  have "2 ^ nat width \<le> n" using n(1) by simp
  then have "dp_BUSW d < 2 ^ 31" using n(2) width(3) by (simp add: word_less_nat_alt)
  with dma_write_any [OF g h e width(1,2) _ len n(1,2) _ strb(1) lanes _ stk] n width(3) show ?thesis
    by simp
qed

lemma interrupt_raised:
  assumes g: "log_ok g" and h: "dp_hdl_req d = Some h" and e: "q w (link h) = []"
    and stk: "length stk = sizeof_ACCData"
  shows "\<exists>w1 g' w2. C_req_interrupt M stk vec (d, w) = (Done (), (d, w1))
    \<and> handle_hdl_request L s (g, w1) = (Done (), (g', w2))
    \<and> irqs w2 = irqs w @ [of_int vec] \<and> ram w2 = ram w \<and> q w2 = q w"
proof -
  let ?acc = "(decode_ACCData stk)\<lparr>acc_op := ACCOp_val INTR, vector := of_int vec\<rparr>"
  obtain hp where hp: "hdl_resp s = Some hp" using dma_links by (auto simp: dma_linked_def)
  have "wf_ACCData (decode_ACCData stk)" using stk by (intro wf_decode_ACCData) simp
  then have wf: "wf_ACCData ?acc" by (simp add: wf_ACCData_def)
  have pad: "length (padding_ACCData stk) = 7" using stk by simp
  from message_served [OF g h hp e wf pad] acc.dec_enc [OF wf pad] obtain g' w2 where
    "handle_hdl_request L s (g, enq (link h) (encode_ACCData (padding_ACCData stk) ?acc) w)
      = (Done (), (g', w2))" "ram w2 = ram w" "irqs w2 = irqs w @ [of_int vec]"
    "q w2 (link hp) = q w (link hp)" "\<forall>t. t \<noteq> link hp \<longrightarrow> q w2 t = q w t"
    by (auto simp: Let_def)
  moreover from this(4,5) have "q w2 = q w" by (metis ext)
  ultimately show ?thesis using hdl.C_req_interrupt_frame [OF h] by metis
qed

text \<open>
  A read: the request, the callback on QEMU's side, and the poll that finds the response.
\<close>

lemma dma_read:
  assumes g: "log_ok g" and h: "dp_hdl_req d = Some h" and hp: "hdl_resp s = Some hp"
    and up: "bridge_up d" and i: "dp_initsock d = Some i" and a: "dp_qemu_req d = Some a"
    and e: "q w (link h) = []" "q w (link hp) = []" "q w i = []" "q w a = []"
    and ne: "link hp \<noteq> i" "link hp \<noteq> a"
    and width: "0 \<le> width" "width < 31" and len: "0 \<le> len"
    and n: "n = (nat len + 1) * 2 ^ nat width" "unat (addr mod dp_BUSW d) + n \<le> BUFF_SIZE"
    and vd: "length (v_data p) = BUFF_SIZE" and stk: "length stk = sizeof_ACCData"
  shows "\<exists>w1 g' w2 p' w3. C_req_read M stk addr width len j (d, w) = (Done (), (d, w1))
    \<and> handle_hdl_request L s (g, w1) = (Done (), (g', w2))
    \<and> C_poll M p (d, w2) = (Done p', (d, w3)) \<and> req_type p' = QEMUOp_val S_RD
    \<and> bytes_at (unat (addr mod dp_BUSW d)) n (v_data p') = mem_load (ram w) addr n
    \<and> ram w2 = ram w \<and> irqs w2 = irqs w \<and> q w3 = q w"
proof -
  let ?acc = "(decode_ACCData stk)\<lparr>data_size := of_nat n, address := addr,
       acc_op := ACCOp_val READ, acc_id := of_int j\<rparr>"
  let ?F = "encode_ACCData (padding_ACCData stk) ?acc" and ?off = "unat (addr mod dp_BUSW d)"
  let ?R = "frame_put_data ?F (mem_load (ram w) addr n)"
  have prod: "(len + 1) * 2 ^ nat width = int n" using n(1) len by (simp add: algebra_simps)
  have sz: "burst_bytes width len = Some (of_nat n)"
    using burst_bytes_eq [OF width len] n(2) prod by simp
  have rd: "C_req_read M stk addr width len j (d, w) = (Done (), (d, enq (link h) ?F w))"
    by (rule hdl.C_req_read_frame [OF h sz])
  have "wf_ACCData (decode_ACCData stk)" using stk by (intro wf_decode_ACCData) simp
  then have wf: "wf_ACCData ?acc" by (simp add: wf_ACCData_def)
  have pad: "length (padding_ACCData stk) = 7" using stk by simp
  have un: "unat (of_nat n :: u32) = n" using n(2) by (simp add: unat_of_nat)
  note dec = acc.dec_enc [OF wf pad]
  from message_served [OF g h hp e(1) wf pad] un n(2) dec e(2) obtain g' w2 where
    w2: "handle_hdl_request L s (g, enq (link h) ?F w) = (Done (), (g', w2))" "ram w2 = ram w"
      "irqs w2 = irqs w" "q w2 (link hp) = [?R]" "\<forall>t. t \<noteq> link hp \<longrightarrow> q w2 t = q w t"
    by (auto simp: Let_def)
  have F: "length ?F = 4128" using wf pad by simp
  have R: "decode_ACCData ?R = ?acc\<lparr>acc_buf := mem_load (ram w) addr n @ drop n (acc_buf ?acc)\<rparr>"
    using decode_frame_put_data [of ?F "mem_load (ram w) addr n"] F n(2) dec by simp
  have busw: "0 < unat (dp_BUSW d)" "unat (dp_BUSW d) \<le> 64" using up by (simp_all add: bridge_up_def)
  have "memcpy (v_data p) ?off (mem_load (ram w) addr n @ drop n (acc_buf ?acc)) 0 n \<noteq> None"
    using vd n(2) by (simp add: memcpy_None_iff)
  then obtain dd where dd: "memcpy (v_data p) ?off (mem_load (ram w) addr n @ drop n (acc_buf ?acc)) 0 n = Some dd"
    by blast
  have "bytes_at ?off n dd = mem_load (ram w) addr n"
    using memcpy_bytes_at [OF dd] by (simp add: bytes_at_def)
  moreover have "poll_hdl_resp (dp_BUSW d) (decode_ACCData ?R) p =
      Some (p\<lparr>req_type := QEMUOp_val S_RD, v_data := dd\<rparr>)"
    using busw dd un align_offset_eq [OF busw, of addr] unfolding R poll_hdl_resp_def by auto
  moreover have "length ?R = 4128" using F n(2) by (simp add: frame_put_data_def)
  moreover have hr: "dp_hdl_resp d = Some (link hp)" using dma_links hp by (simp add: dma_linked_def)
  ultimately have poll: "C_poll M p (d, w2) = (Done (p\<lparr>req_type := QEMUOp_val S_RD, v_data := dd\<rparr>),
      (d, deq (link hp) w2))"
    using e ne w2(4,5) by (intro hdl.C_poll_response [OF up i _ a _ hr ne]) simp_all
  have "q (deq (link hp) w2) = (q w2)(link hp := [])" using w2(4) by (rule q_deq)
  also have "\<dots> = q w" using w2(5) e(2) by auto
  finally have "q (deq (link hp) w2) = q w" .
  with rd w2(1-3) poll \<open>bytes_at ?off n dd = mem_load (ram w) addr n\<close> show ?thesis by fastforce
qed

end

section \<open>Properties\<close>

text \<open>
  C16: the nested copy loops of \<open>C_req_write\<close> pack exactly the strobed bytes of the burst, beat by
  beat and lane by lane, from the start of the buffer; the rest of the buffer is not written.
  With all lanes strobed the buffer starts with the data of the burst as it is.
\<close>

theorem burst_copy_packs:
  assumes "n * busw \<le> length data" and "n \<le> length strb"
    and "length (burst_lanes n 0 busw data strb) \<le> length buf"
  shows "\<exists>strb'. burst_copy n 0 busw data strb 0 buf =
      Some (strb', length (burst_lanes n 0 busw data strb),
        burst_lanes n 0 busw data strb @ drop (length (burst_lanes n 0 busw data strb)) buf)
    \<and> ((\<forall>b < n. \<forall>j < busw. bit (strb ! b) j) \<longrightarrow> burst_lanes n 0 busw data strb = take (n * busw) data)"
  using burst_copy_eq [of 0 n busw data strb 0 buf] burst_lanes_full [of 0 n busw strb data] assms
  by (auto simp: splice_def bytes_at_def)

theorem burst_copy_packs_witness:
  "\<exists>strb'. burst_copy 2 0 2 [1, 2, 3, 4] [2, 3] 0 [9, 9, 9, 9] = Some (strb', 3, [2, 3, 4, 9])"
proof -
  have "burst_lanes 2 0 2 [1, 2, 3, 4] [2, 3] = [2, 3, 4]" by code_simp
  with burst_copy_packs [of 2 2 "[1, 2, 3, 4]" "[2, 3]" "[9, 9, 9, 9]"] show ?thesis
    by (auto simp del: burst_copy.simps)
qed

end
