(* ===== verification/Acc_Net.thy ===== *)
theory Acc_Net
  imports Acc_Mmio Zmq_Link
begin

text \<open>
  The network card and the serial port of \<^verbatim>\<open>accelerator_pcie.c\<close>.  \<open>net_rx_packet\<close> and \<open>serial_rx\<close>
  carry data from the guest's side to the hardware, \<open>net_tx_packet\<close> and \<open>serial_tx\<close> are the
  callbacks that drain the sockets in the other direction.  The locales \<open>nic_host\<close> and
  \<open>serial_host\<close> say what QEMU's network and character layers do with what they are given; the
  lemmas show that each callback delivers every waiting message, in order, exactly once.
\<close>

section \<open>Network\<close>

text \<open>\<open>sz\<close> bytes from the data array of a received structure: undefined beyond its end.\<close>

definition nic_payload :: "ACCNICData \<Rightarrow> byte list option" where
  "nic_payload acc = (if unat (nic_size acc) \<le> BUFF_SIZE
     then Some (take (unat (nic_size acc)) (nic_buf acc)) else None)"

definition net_tx_round ::
  "('w, 'z) qemu_api_scheme \<Rightarrow> ACCPCIeState \<Rightarrow> zpoller \<Rightarrow> ((qemu, 'w) proc, unit option) cprog" where
  "net_tx_round L s poller =
     bindC (callC (zpoller_wait L poller 0)) (\<lambda>which.
     bindC (queryC (zpoller_expired L poller)) (\<lambda>expired.
     bindC (queryC (zpoller_terminated L poller)) (\<lambda>terminated.
     if expired \<or> terminated \<or> which \<noteq> nic_resp s then
       thenC (doC (zpoller_destroy L poller)) (retC (Some ()))
     else
       bindC (callC (zframe_recv L (nic_resp s))) (\<lambda>frame.
       thenC (assertC (frame \<noteq> None))
       (if length (the frame) < sizeof_ACCNICData then
          thenC (ACCELERATOR_EPRINTF L ''net_tx_packet'' 594)
          (thenC (doC (zframe_destroy L frame)) (exitC 1))
        else
          (let acc = decode_ACCNICData (the frame) in
           thenC (ACCELERATOR_DPRINTF L ''net_tx_packet'' 600)
           (bindC (definedC (nic_payload acc)) (\<lambda>d.
            thenC (doC (qemu_send_packet L d))
            (thenC (doC (zframe_destroy L frame)) (retC None))))))))))"

definition net_tx_packet ::
  "('w, 'z) qemu_api_scheme \<Rightarrow> ACCPCIeState \<Rightarrow> ((qemu, 'w) proc, unit) cprog" where
  "net_tx_packet L s =
     thenC (ACCELERATOR_TPRINTF L ''net_tx_packet'' 576)
     (bindC (callC (zpoller_new L [nic_resp s])) (\<lambda>poller.
      thenC (assertC (poller \<noteq> None)) (loopC (net_tx_round L s poller))))"

text \<open>
  The message of \<open>net_rx_packet\<close>: \<open>memcpy(acc_req.data, buf, size)\<close> has no check, so a packet longer
  than the array is undefined.
\<close>

definition net_rx_request :: "byte list \<Rightarrow> ACCNICData option" where
  "net_rx_request buf =
     map_option (\<lambda>d. zero_ACCNICData\<lparr>nic_size := of_nat (length buf), nic_id := 1, nic_buf := d\<rparr>)
       (memcpy (nic_buf zero_ACCNICData) 0 buf 0 (length buf))"

definition net_rx_packet ::
  "('w, 'z) qemu_api_scheme \<Rightarrow> ACCPCIeState \<Rightarrow> byte list \<Rightarrow> ((qemu, 'w) proc, nat) cprog" where
  "net_rx_packet L s buf =
     bindC (definedC (net_rx_request buf)) (\<lambda>req.
     bindC (callC (zframe_new L (encode_ACCNICData (replicate 3 0) req))) (\<lambda>frame.
     thenC (assertC (frame \<noteq> None))
     (thenC (ACCELERATOR_DPRINTF L ''net_rx_packet'' 620)
     (bindC (callC (zframe_send L frame (nic_req s) 0)) (\<lambda>rv.
      thenC (assertC (rv = 0))
      (thenC (ACCELERATOR_DPRINTF L ''net_rx_packet'' 623) (retC (length buf))))))))"

section \<open>Serial port\<close>

definition serial_read ::
  "('w, 'z) qemu_api_scheme \<Rightarrow> u64 \<Rightarrow> u32 \<Rightarrow> ((qemu, 'w) proc, u64) cprog" where
  "serial_read L addr sz = thenC (ACCELERATOR_DPRINTF L ''serial_read'' 635) (retC 0)"

definition serial_write ::
  "('w, 'z) qemu_api_scheme \<Rightarrow> u64 \<Rightarrow> u64 \<Rightarrow> u32 \<Rightarrow> ((qemu, 'w) proc, unit) cprog" where
  "serial_write L addr val sz = ACCELERATOR_DPRINTF L ''serial_write'' 641"

text \<open>The results of \<open>zframe_new\<close> and \<open>zframe_send\<close> are not looked at.\<close>

definition serial_rx ::
  "('w, 'z) qemu_api_scheme \<Rightarrow> ACCPCIeState \<Rightarrow> byte list \<Rightarrow> ((qemu, 'w) proc, unit) cprog" where
  "serial_rx L s buf =
     thenC (ACCELERATOR_DPRINTF L ''serial_rx'' 660)
     (bindC (callC (zframe_new L buf)) (\<lambda>frame.
      bindC (callC (zframe_send L frame (serial_rx_sock s) 0)) (\<lambda>_. skipC)))"

text \<open>
  \<open>serial_tx\<close> writes the first byte of each frame without a test.  An empty frame has none, which is
  undefined.  \<open>zframe_data\<close> of a NULL frame is outside what CZMQ specifies (its implementation
  asserts that it is given a frame), so it is counted as undefined too.
\<close>

definition frame_byte :: "zframe \<Rightarrow> byte option" where
  "frame_byte frame = (case frame of Some (c # _) \<Rightarrow> Some c | _ \<Rightarrow> None)"

definition serial_tx_round ::
  "('w, 'z) qemu_api_scheme \<Rightarrow> ACCPCIeState \<Rightarrow> zpoller \<Rightarrow> ((qemu, 'w) proc, unit option) cprog" where
  "serial_tx_round L s poller =
     bindC (callC (zpoller_wait L poller 0)) (\<lambda>which.
     bindC (queryC (zpoller_expired L poller)) (\<lambda>expired.
     bindC (queryC (zpoller_terminated L poller)) (\<lambda>terminated.
     if expired \<or> terminated \<or> which \<noteq> serial_tx_sock s then
       thenC (doC (zpoller_destroy L poller)) (retC (Some ()))
     else
       bindC (callC (zframe_recv L (serial_tx_sock s))) (\<lambda>frame.
       bindC (definedC (frame_byte frame)) (\<lambda>c.
       thenC (ACCELERATOR_TPRINTF L ''serial_tx'' 682)
       (thenC (doC (qemu_chr_fe_write L [c]))
       (thenC (doC (zframe_destroy L frame)) (retC None))))))))"

definition serial_tx ::
  "('w, 'z) qemu_api_scheme \<Rightarrow> ACCPCIeState \<Rightarrow> ((qemu, 'w) proc, unit) cprog" where
  "serial_tx L s =
     thenC (ACCELERATOR_TPRINTF L ''serial_tx'' 667)
     (bindC (callC (zpoller_new L [serial_tx_sock s])) (\<lambda>poller.
      thenC (assertC (poller \<noteq> None)) (loopC (serial_tx_round L s poller))))"

section \<open>Delivery\<close>

text \<open>
  \<open>pkts w\<close> are the packets the network layer was given so far, \<open>chars w\<close> the bytes the character
  backend was given.  Neither layer touches the sockets.
\<close>

locale nic_host = zmq_fifo L q enq deq link peer
  for L :: "('w, 'z) qemu_api_scheme"
    and q :: "'w \<Rightarrow> nat \<Rightarrow> byte list list"
    and enq :: "nat \<Rightarrow> byte list \<Rightarrow> 'w \<Rightarrow> 'w"
    and deq :: "nat \<Rightarrow> 'w \<Rightarrow> 'w"
    and link :: "nat \<Rightarrow> nat"
    and peer :: "'w \<Rightarrow> 'w" +
  fixes pkts :: "'w \<Rightarrow> byte list list"
  assumes send_packet: "pkts (qemu_send_packet L d w) = pkts w @ [d]"
    and send_packet_q: "q (qemu_send_packet L d w) = q w"
    and pkts_deq: "pkts (deq s w) = pkts w"
begin

lemma net_tx_round_delivers:
  assumes "log_ok g" and nr: "nic_resp s = Some n" and qw: "q w n = bs # rest"
    and len: "sizeof_ACCNICData \<le> length bs" and pl: "nic_payload (decode_ACCNICData bs) = Some d"
  shows "\<exists>g' w'. net_tx_round L s (Some [Some n]) (g, w) = (Done None, (g', w'))
    \<and> log_ok g' \<and> same_core L g g' \<and> q w' = (q w)(n := rest) \<and> pkts w' = pkts w @ [d]"
  using assms poll_one_ready [of w n] frame_recv [OF qw] q_deq [OF qw]
  by (simp add: net_tx_round_def cprog_simps zmq_laws poll_one poller_alive Let_def send_packet
      send_packet_q pkts_deq del: sizeof_simps)

lemma net_tx_start:
  assumes "log_ok g" and "nic_resp s = Some n"
  shows "net_tx_packet L s (g, w) = loopC (net_tx_round L s (Some [Some n]))
    (log_fn L ACC_LOG_TRACE ''net_tx_packet'' 576 g, w)"
  using assms by (simp add: net_tx_packet_def cprog_simps zmq_laws)

lemma net_tx_delivers:
  assumes g: "log_ok g" and nr: "nic_resp s = Some n"
    and ok: "list_all (\<lambda>bs. sizeof_ACCNICData \<le> length bs
               \<and> unat (nic_size (decode_ACCNICData bs)) \<le> BUFF_SIZE) (q w n)"
  shows "\<exists>g' w'. net_tx_packet L s (g, w) = (Done (), (g', w')) \<and> same_core L g g'
    \<and> q w' = (q w)(n := [])
    \<and> pkts w' = pkts w @ map (\<lambda>bs. the (nic_payload (decode_ACCNICData bs))) (q w n)"
proof -
  let ?body = "net_tx_round L s (Some [Some n])"
  let ?pl = "\<lambda>bs. the (nic_payload (decode_ACCNICData bs))"
  let ?g = "log_fn L ACC_LOG_TRACE ''net_tx_packet'' 576 g"
  define I where "I = (\<lambda>(g', w'). log_ok g' \<and> same_core L g g' \<and> (q w')(n := []) = (q w)(n := []))"
  define Q where "Q = (\<lambda>(g' :: qemu, w'). q w' n)"
  define V where "V = (\<lambda>(g' :: qemu, w'). pkts w')"
  define good where "good = (\<lambda>bs. sizeof_ACCNICData \<le> length bs
    \<and> unat (nic_size (decode_ACCNICData bs)) \<le> BUFF_SIZE)"
  have step: "\<exists>s'. ?body st = (Done None, s') \<and> I s' \<and> Q s' = xs \<and> V s' = V st @ [?pl x]"
    if "I st" "Q st = x # xs" "good x" for st x xs
  proof -
    obtain g1 w1 where st: "st = (g1, w1)" by (cases st)
    from that have g1: "log_ok g1" "same_core L g g1" and q1: "q w1 n = x # xs"
      and f1: "(q w1)(n := []) = (q w)(n := [])"
      by (simp_all add: st I_def Q_def)
    from that(3) have x: "sizeof_ACCNICData \<le> length x"
      "nic_payload (decode_ACCNICData x) = Some (?pl x)" by (simp_all add: good_def nic_payload_def)
    from net_tx_round_delivers [OF g1(1) nr q1 x] g1(2) f1 show ?thesis
      by (fastforce simp: st I_def Q_def V_def intro: same_core_trans)
  qed
  have stop: "\<exists>s'. ?body st = (Done (Some ()), s') \<and> I s' \<and> Q s' = [] \<and> V s' = V st"
    if "I st" "Q st = []" for st
    using that nr
    by (cases st) (auto simp: I_def Q_def V_def net_tx_round_def cprog_simps zmq_laws poll_one)
  have "I (?g, w)" "list_all good (Q (?g, w))" using ok by (simp_all add: I_def Q_def good_def)
  from loopC_drains [of I Q good ?body V "\<lambda>x v. v @ [?pl x]" "()", OF step stop this]
  obtain g' w' where "loopC ?body (?g, w) = (Done (), (g', w'))" "same_core L g g'"
    "(q w')(n := []) = (q w)(n := [])" "q w' n = []"
    "pkts w' = pkts w @ map ?pl (q w n)"
    by (auto simp: I_def Q_def V_def fold_snoc)
  moreover from calculation have "q w' = (q w)(n := [])" by (metis fun_upd_triv)
  ultimately show ?thesis using net_tx_start [OF g nr] by simp
qed

text \<open>A packet of the guest becomes one message on \<open>nic_req\<close>.\<close>

lemma net_rx_sends:
  assumes "log_ok g" and "nic_req s = Some n" and "net_rx_request buf = Some req"
  shows "\<exists>g'. net_rx_packet L s buf (g, w)
        = (Done (length buf), (g', enq (link n) (encode_ACCNICData (replicate 3 0) req) w))
    \<and> same_core L g g'"
  using assms by (simp add: net_rx_packet_def cprog_simps zmq_laws)

end

lemma net_rx_request_fields:
  assumes "length buf \<le> BUFF_SIZE"
  shows "\<exists>req. net_rx_request buf = Some req \<and> wf_ACCNICData req
    \<and> nic_size req = of_nat (length buf) \<and> unat (nic_size req) = length buf
    \<and> take (length buf) (nic_buf req) = buf"
  using assms
  by (simp add: net_rx_request_def memcpy_def zero_ACCNICData_def wf_ACCNICData_def bytes_at_def
      unat_of_nat)

locale serial_host = zmq_fifo L q enq deq link peer
  for L :: "('w, 'z) qemu_api_scheme"
    and q :: "'w \<Rightarrow> nat \<Rightarrow> byte list list"
    and enq :: "nat \<Rightarrow> byte list \<Rightarrow> 'w \<Rightarrow> 'w"
    and deq :: "nat \<Rightarrow> 'w \<Rightarrow> 'w"
    and link :: "nat \<Rightarrow> nat"
    and peer :: "'w \<Rightarrow> 'w" +
  fixes chars :: "'w \<Rightarrow> byte list"
  assumes chr_write: "chars (qemu_chr_fe_write L d w) = chars w @ d"
    and chr_write_q: "q (qemu_chr_fe_write L d w) = q w"
    and chars_deq: "chars (deq s w) = chars w"
begin

lemma serial_tx_round_writes:
  assumes "log_ok g" and st: "serial_tx_sock s = Some n" and qw: "q w n = (c # cs) # rest"
  shows "\<exists>g' w'. serial_tx_round L s (Some [Some n]) (g, w) = (Done None, (g', w'))
    \<and> log_ok g' \<and> same_core L g g' \<and> q w' = (q w)(n := rest) \<and> chars w' = chars w @ [c]"
  using assms poll_one_ready [of w n] frame_recv [OF qw] q_deq [OF qw]
  by (simp add: serial_tx_round_def cprog_simps zmq_laws poll_one poller_alive frame_byte_def
      chr_write chr_write_q chars_deq)

lemma serial_tx_start:
  assumes "log_ok g" and "serial_tx_sock s = Some n"
  shows "serial_tx L s (g, w) = loopC (serial_tx_round L s (Some [Some n]))
    (log_fn L ACC_LOG_TRACE ''serial_tx'' 667 g, w)"
  using assms by (simp add: serial_tx_def cprog_simps zmq_laws)

lemma serial_tx_writes:
  assumes g: "log_ok g" and st: "serial_tx_sock s = Some n"
    and ok: "list_all (\<lambda>bs. bs \<noteq> []) (q w n)"
  shows "\<exists>g' w'. serial_tx L s (g, w) = (Done (), (g', w')) \<and> same_core L g g'
    \<and> q w' = (q w)(n := []) \<and> chars w' = chars w @ map hd (q w n)"
proof -
  let ?body = "serial_tx_round L s (Some [Some n])"
  let ?g = "log_fn L ACC_LOG_TRACE ''serial_tx'' 667 g"
  define I where "I = (\<lambda>(g', w'). log_ok g' \<and> same_core L g g' \<and> (q w')(n := []) = (q w)(n := []))"
  define Q where "Q = (\<lambda>(g' :: qemu, w'). q w' n)"
  define V where "V = (\<lambda>(g' :: qemu, w'). chars w')"
  have step: "\<exists>s'. ?body s0 = (Done None, s') \<and> I s' \<and> Q s' = xs \<and> V s' = V s0 @ [hd x]"
    if "I s0" "Q s0 = x # xs" "x \<noteq> []" for s0 x xs
  proof -
    obtain g1 w1 where s0: "s0 = (g1, w1)" by (cases s0)
    from that(3) obtain c cs where x: "x = c # cs" by (cases x) auto
    from that have g1: "log_ok g1" "same_core L g g1" and q1: "q w1 n = (c # cs) # xs"
      and f1: "(q w1)(n := []) = (q w)(n := [])"
      by (simp_all add: s0 x I_def Q_def)
    from serial_tx_round_writes [OF g1(1) st q1] g1(2) f1 show ?thesis
      by (fastforce simp: s0 x I_def Q_def V_def intro: same_core_trans)
  qed
  have stop: "\<exists>s'. ?body s0 = (Done (Some ()), s') \<and> I s' \<and> Q s' = [] \<and> V s' = V s0"
    if "I s0" "Q s0 = []" for s0
    using that st
    by (cases s0) (auto simp: I_def Q_def V_def serial_tx_round_def cprog_simps zmq_laws poll_one)
  have "I (?g, w)" "list_all (\<lambda>bs. bs \<noteq> []) (Q (?g, w))" using ok by (simp_all add: I_def Q_def)
  from loopC_drains [of I Q "\<lambda>bs. bs \<noteq> []" ?body V "\<lambda>x v. v @ [hd x]" "()", OF step stop this]
  obtain g' w' where "loopC ?body (?g, w) = (Done (), (g', w'))" "same_core L g g'"
    "(q w')(n := []) = (q w)(n := [])" "q w' n = []" "chars w' = chars w @ map hd (q w n)"
    by (auto simp: I_def Q_def V_def fold_snoc)
  moreover from calculation have "q w' = (q w)(n := [])" by (metis fun_upd_triv)
  ultimately show ?thesis using serial_tx_start [OF g st] by simp
qed

lemma serial_rx_sends:
  assumes "log_ok g" and "serial_rx_sock s = Some n"
  shows "\<exists>g'. serial_rx L s buf (g, w) = (Done (), (g', enq (link n) buf w)) \<and> same_core L g g'"
  using assms by (simp add: serial_rx_def cprog_simps zmq_laws)

end

end
