(* ===== verification/Acc_Msix.thy ===== *)
theory Acc_Msix
  imports Acc_Mmio
begin

text \<open>
  MSI-X of \<^verbatim>\<open>accelerator_pcie.c\<close>: marking vectors as used, initialisation from the configuration the
  hardware sent, and cleanup.  The PCI core's tables live in the world; the locale \<open>msix_core\<close>
  states what QEMU's \<^verbatim>\<open>msix.c\<close> does to the use counts, and the lemmas show that a failed
  \<open>acc_use_msix_vectors\<close> leaves the counts as they were and that cleanup undoes initialisation.
\<close>

section \<open>Operations\<close>

text \<open>The loop \<open>for (i = 0; i < num_vectors; i++)\<close> with \<open>n\<close> rounds to go.\<close>

fun unuse_vectors :: "('w, 'z) qemu_api_scheme \<Rightarrow> nat \<Rightarrow> int \<Rightarrow> ((qemu, 'w) proc, unit) cprog" where
  "unuse_vectors L 0 i = skipC"
| "unuse_vectors L (Suc n) i = thenC (doC (msix_vector_unuse L i)) (unuse_vectors L n (i + 1))"

definition acc_unuse_msix_vectors ::
  "('w, 'z) qemu_api_scheme \<Rightarrow> int \<Rightarrow> ((qemu, 'w) proc, unit) cprog" where
  "acc_unuse_msix_vectors L num_vectors =
     thenC (ACCELERATOR_DPRINTF L ''acc_unuse_msix_vectors'' 252)
     (unuse_vectors L (nat num_vectors) 0)"

fun use_vectors :: "('w, 'z) qemu_api_scheme \<Rightarrow> nat \<Rightarrow> int \<Rightarrow> ((qemu, 'w) proc, bool) cprog" where
  "use_vectors L 0 i = retC True"
| "use_vectors L (Suc n) i =
     bindC (queryC (msix_entries_nr L)) (\<lambda>nr.
     if i \<ge> nr then thenC (acc_unuse_msix_vectors L i) (retC False)
     else thenC (doC (msix_vector_use L i)) (use_vectors L n (i + 1)))"

definition acc_use_msix_vectors ::
  "('w, 'z) qemu_api_scheme \<Rightarrow> int \<Rightarrow> ((qemu, 'w) proc, bool) cprog" where
  "acc_use_msix_vectors L num_vectors =
     thenC (ACCELERATOR_DPRINTF L ''acc_use_msix_vectors'' 262)
     (use_vectors L (nat num_vectors) 0)"

text \<open>
  \<open>&s->bars[k]\<close>: the device has six memory regions, and C also allows the address one past the last.
\<close>

definition bars_ref :: "u16 \<Rightarrow> nat option" where
  "bars_ref k = (if unat k \<le> 6 then Some (unat k) else None)"

text \<open>
  The offsets are 64 bits wide in the configuration and \<open>unsigned\<close> in the parameters of
  \<open>msix_init\<close>; the bar numbers shrink to 8 bits.
\<close>

definition acc_init_msix :: "('w, 'z) qemu_api_scheme \<Rightarrow> ((qemu, 'w) proc, unit) cprog" where
  "acc_init_msix L =
     thenC (ACCELERATOR_DPRINTF L ''acc_init_msix'' 283)
     (bindC (getG hdlconf) (\<lambda>c.
      bindC (definedC (bars_ref (msix_table_bar c))) (\<lambda>tb.
      bindC (definedC (bars_ref (msix_pba_bar c))) (\<lambda>pb.
      bindC (callC (msix_init L (msix_vec_num c) tb (ucast (msix_table_bar c)) (ucast (msix_table_offset c))
                      pb (ucast (msix_pba_bar c)) (ucast (msix_pba_offset c)))) (\<lambda>res.
      if res < 0 then thenC (ACCELERATOR_EPRINTF L ''acc_init_msix'' 303) (exitC 0)
      else
        bindC (acc_use_msix_vectors L (uint (msix_vec_num c))) (\<lambda>ok.
        whenC (\<not> ok) (doC (msix_uninit L tb pb))))))))"

definition acc_cleanup_msix :: "('w, 'z) qemu_api_scheme \<Rightarrow> ((qemu, 'w) proc, unit) cprog" where
  "acc_cleanup_msix L =
     bindC (queryC (msix_present L)) (\<lambda>present.
     whenC present
      (thenC (ACCELERATOR_DPRINTF L ''acc_cleanup_msix'' 318)
      (bindC (getG hdlconf) (\<lambda>c.
       thenC (acc_unuse_msix_vectors L (uint (msix_vec_num c)))
       (bindC (definedC (bars_ref (msix_table_bar c))) (\<lambda>tb.
        bindC (definedC (bars_ref (msix_pba_bar c))) (\<lambda>pb.
        doC (msix_uninit L tb pb))))))))"

section \<open>What the PCI core promises\<close>

text \<open>
  \<open>used w v\<close> is the use count of vector \<open>v\<close>.  Only vectors of the table are counted; using one
  adds to its count, giving it back subtracts, never below zero.  A successful \<open>msix_init\<close> makes a
  table of the requested length with all counts zero.
\<close>

locale msix_core =
  fixes L :: "('w, 'z) qemu_api_scheme"
    and used :: "'w \<Rightarrow> int \<Rightarrow> nat"
  assumes use_used: "0 \<le> v \<Longrightarrow> v < msix_entries_nr L w \<Longrightarrow>
           used (msix_vector_use L v w) = (used w)(v := Suc (used w v))"
    and unuse_used: "0 \<le> v \<Longrightarrow> v < msix_entries_nr L w \<Longrightarrow>
           used (msix_vector_unuse L v w) = (used w)(v := used w v - 1)"
    and use_entries: "msix_entries_nr L (msix_vector_use L v w) = msix_entries_nr L w"
    and unuse_entries: "msix_entries_nr L (msix_vector_unuse L v w) = msix_entries_nr L w"
    and init_entries: "msix_init L n tb tbn toff pb pbn poff w = (res, w') \<Longrightarrow> 0 \<le> res \<Longrightarrow>
           msix_entries_nr L w' = uint n \<and> used w' = (\<lambda>_. 0)"
begin

lemma unuse_vectors_counts:
  assumes "0 \<le> i" and "i + int n \<le> msix_entries_nr L w"
  shows "\<exists>w'. unuse_vectors L n i (g, w) = (Done (), (g, w'))
    \<and> used w' = (\<lambda>v. if i \<le> v \<and> v < i + int n then used w v - 1 else used w v)
    \<and> msix_entries_nr L w' = msix_entries_nr L w"
  using assms
proof (induction n arbitrary: i w)
  case 0
  then show ?case by (auto simp: cprog_simps fun_eq_iff)
next
  case (Suc n)
  let ?w = "msix_vector_unuse L i w"
  from Suc.prems have "used ?w = (used w)(i := used w i - 1)" by (intro unuse_used) simp_all
  moreover from Suc.IH [of "i + 1" ?w] Suc.prems obtain w' where
    "unuse_vectors L n (i + 1) (g, ?w) = (Done (), (g, w'))"
    "used w' = (\<lambda>v. if i + 1 \<le> v \<and> v < i + 1 + int n then used ?w v - 1 else used ?w v)"
    "msix_entries_nr L w' = msix_entries_nr L w"
    by (auto simp: unuse_entries)
  ultimately show ?case by (intro exI [of _ w']) (auto simp: cprog_simps)
qed

lemma unuse_msix_counts:
  assumes "log_ok g" and "0 \<le> n" and "n \<le> msix_entries_nr L w"
  shows "\<exists>g' w'. acc_unuse_msix_vectors L n (g, w) = (Done (), (g', w'))
    \<and> used w' = (\<lambda>v. if 0 \<le> v \<and> v < n then used w v - 1 else used w v)
    \<and> msix_entries_nr L w' = msix_entries_nr L w \<and> log_ok g' \<and> same_core L g g'"
proof -
  let ?g = "log_fn L ACC_LOG_DEBUG ''acc_unuse_msix_vectors'' 252 g"
  from unuse_vectors_counts [of 0 "nat n" w ?g] assms obtain w' where
    "unuse_vectors L (nat n) 0 (?g, w) = (Done (), (?g, w'))"
    "used w' = (\<lambda>v. if 0 \<le> v \<and> v < n then used w v - 1 else used w v)"
    "msix_entries_nr L w' = msix_entries_nr L w" by auto
  with assms(1) show ?thesis
    by (intro exI [of _ ?g] exI [of _ w']) (simp add: acc_unuse_msix_vectors_def cprog_simps)
qed

text \<open>
  The loop of \<open>acc_use_msix_vectors\<close> from vector \<open>i\<close> on, relative to the counts \<open>u0\<close> before the first
  round.
\<close>

lemma use_vectors_counts:
  assumes "log_ok g" and "0 \<le> i" and "i \<le> msix_entries_nr L w"
    and "used w = (\<lambda>v. if 0 \<le> v \<and> v < i then Suc (u0 v) else u0 v)"
  shows "\<exists>g' w'. use_vectors L n i (g, w) = (Done (i + int n \<le> msix_entries_nr L w), (g', w'))
    \<and> used w' = (if i + int n \<le> msix_entries_nr L w
                 then (\<lambda>v. if 0 \<le> v \<and> v < i + int n then Suc (u0 v) else u0 v) else u0)
    \<and> msix_entries_nr L w' = msix_entries_nr L w \<and> log_ok g' \<and> same_core L g g'"
  using assms
proof (induction n arbitrary: i w)
  case 0
  then show ?case by (simp add: cprog_simps)
next
  case (Suc n)
  show ?case
  proof (cases "msix_entries_nr L w \<le> i")
    case True
    with Suc.prems unuse_msix_counts [of g i w] obtain g' w' where
      "acc_unuse_msix_vectors L i (g, w) = (Done (), (g', w'))"
      "used w' = (\<lambda>v. if 0 \<le> v \<and> v < i then used w v - 1 else used w v)"
      "msix_entries_nr L w' = msix_entries_nr L w" "log_ok g'" "same_core L g g'"
      by auto
    with True Suc.prems show ?thesis
      by (intro exI [of _ g'] exI [of _ w']) (auto simp: cprog_simps)
  next
    case False
    let ?w = "msix_vector_use L i w"
    have "used ?w = (used w)(i := Suc (used w i))" using False Suc.prems by (intro use_used) simp_all
    with Suc.prems have "used ?w = (\<lambda>v. if 0 \<le> v \<and> v < i + 1 then Suc (u0 v) else u0 v)" by auto
    from Suc.IH [OF _ _ _ this] False Suc.prems show ?thesis
      by (auto simp: cprog_simps use_entries algebra_simps)
  qed
qed

lemma use_msix_all_or_none:
  assumes "log_ok g" and "0 \<le> n" and "0 \<le> msix_entries_nr L w"
  shows "\<exists>g' w'. acc_use_msix_vectors L n (g, w) = (Done (n \<le> msix_entries_nr L w), (g', w'))
    \<and> used w' = (if n \<le> msix_entries_nr L w
                 then (\<lambda>v. if 0 \<le> v \<and> v < n then Suc (used w v) else used w v) else used w)
    \<and> msix_entries_nr L w' = msix_entries_nr L w \<and> log_ok g' \<and> same_core L g g'"
proof -
  let ?g = "log_fn L ACC_LOG_DEBUG ''acc_use_msix_vectors'' 262 g"
  have "used w = (\<lambda>v. if 0 \<le> v \<and> v < 0 then Suc (used w v) else used w v)" by (simp add: fun_eq_iff)
  from use_vectors_counts [OF _ _ _ this, of ?g "nat n"] assms show ?thesis
    by (auto simp: acc_use_msix_vectors_def cprog_simps)
qed

text \<open>After initialisation every vector of the configuration is in use once.\<close>

lemma init_msix_uses:
  assumes "log_ok g" and "unat (msix_table_bar (hdlconf g)) < 6" and "unat (msix_pba_bar (hdlconf g)) < 6"
    and init: "msix_init L (msix_vec_num (hdlconf g)) (unat (msix_table_bar (hdlconf g)))
        (ucast (msix_table_bar (hdlconf g))) (ucast (msix_table_offset (hdlconf g)))
        (unat (msix_pba_bar (hdlconf g))) (ucast (msix_pba_bar (hdlconf g)))
        (ucast (msix_pba_offset (hdlconf g))) w = (res, w1)"
    and res: "0 \<le> res"
  shows "\<exists>g' w'. acc_init_msix L (g, w) = (Done (), (g', w'))
    \<and> used w' = (\<lambda>v. if 0 \<le> v \<and> v < uint (msix_vec_num (hdlconf g)) then 1 else 0)
    \<and> msix_entries_nr L w' = uint (msix_vec_num (hdlconf g)) \<and> log_ok g' \<and> same_core L g g'"
proof -
  let ?n = "uint (msix_vec_num (hdlconf g))"
  let ?g = "log_fn L ACC_LOG_DEBUG ''acc_init_msix'' 283 g"
  have w1: "msix_entries_nr L w1 = ?n" "used w1 = (\<lambda>_. 0)" using init_entries [OF init res] by simp_all
  from use_msix_all_or_none [of ?g ?n w1] w1 obtain g' w' where
    "acc_use_msix_vectors L ?n (?g, w1) = (Done True, (g', w'))" "log_ok g'" "same_core L ?g g'"
    "used w' = (\<lambda>v. if 0 \<le> v \<and> v < ?n then Suc (used w1 v) else used w1 v)" "msix_entries_nr L w' = ?n"
    by auto
  with assms w1 show ?thesis
    by (intro exI [of _ g'] exI [of _ w'])
       (simp add: acc_init_msix_def cprog_simps bars_ref_def same_core_def fun_eq_iff)
qed

text \<open>Cleanup gives back every vector before the tables go.\<close>

lemma cleanup_msix_returns:
  assumes "log_ok g" and "unat (msix_table_bar (hdlconf g)) < 6" and "unat (msix_pba_bar (hdlconf g)) < 6"
    and "msix_present L w" and "uint (msix_vec_num (hdlconf g)) \<le> msix_entries_nr L w"
  shows "\<exists>g' w'. acc_cleanup_msix L (g, w) = (Done (), (g', msix_uninit L
        (unat (msix_table_bar (hdlconf g))) (unat (msix_pba_bar (hdlconf g))) w'))
    \<and> used w' = (\<lambda>v. if 0 \<le> v \<and> v < uint (msix_vec_num (hdlconf g)) then used w v - 1 else used w v)"
proof -
  let ?g = "log_fn L ACC_LOG_DEBUG ''acc_cleanup_msix'' 318 g"
  from unuse_msix_counts [of ?g "uint (msix_vec_num (hdlconf g))" w] assms obtain g' w' where
    "acc_unuse_msix_vectors L (uint (msix_vec_num (hdlconf g))) (?g, w) = (Done (), (g', w'))"
    "used w' = (\<lambda>v. if 0 \<le> v \<and> v < uint (msix_vec_num (hdlconf g)) then used w v - 1 else used w v)"
    by auto
  with assms show ?thesis
    by (intro exI [of _ g'] exI [of _ w']) (simp add: acc_cleanup_msix_def cprog_simps bars_ref_def)
qed

end

end
