(* ===== verification/Acc_Device.thy ===== *)
theory Acc_Device
  imports Acc_Hdl_Request Acc_Net Acc_Msix
begin

text \<open>
  Life cycle of the device of \<^verbatim>\<open>accelerator_pcie.c\<close>: the class initialiser, which asks the hardware
  for its configuration before the device exists, realisation, which registers the BARs, opens
  the eight sockets, hooks the callbacks into QEMU's main loop and sets up MSI-X, and the exit
  and reset callbacks.
\<close>

section \<open>Class initialisation\<close>

definition init_request :: "u64 \<Rightarrow> ACCData" where
  "init_request txid = zero_ACCData\<lparr>bar_num := 16, address := 9999, acc_op := ACCOp_val INIT,
     data_size := 32, acc_id := ucast txid\<rparr>"

text \<open>\<open>getenv("NPU_COSIM_PORT")\<close>, with an empty value treated as missing.\<close>

definition port_string :: "(string \<Rightarrow> string option) \<Rightarrow> string option" where
  "port_string getenv = (case getenv ''NPU_COSIM_PORT'' of
       None \<Rightarrow> None | Some s \<Rightarrow> if s = [] then None else Some s)"

text \<open>
  The second half of \<open>acc_pcie_class_init\<close>, from the response on.  The frame that was sent is
  gone (\<open>zframe_send\<close> clears the pointer), the response and the two sockets are destroyed at the
  end.
\<close>

definition class_init_conf ::
  "('w, 'z) qemu_api_scheme \<Rightarrow> zsock \<Rightarrow> zsock \<Rightarrow> zframe \<Rightarrow> ((qemu, 'w) proc, unit) cprog" where
  "class_init_conf L initsock initsock2 initframe2 =
     (case initframe2 of
        None \<Rightarrow> thenC (ACCELERATOR_EPRINTF L ''acc_pcie_class_init'' 888) (exitC 1)
      | Some bs \<Rightarrow>
          if length bs < sizeof_ACCConf then
            thenC (ACCELERATOR_EPRINTF L ''acc_pcie_class_init'' 892) (exitC 1)
          else
            thenC (putG (\<lambda>g. g\<lparr>hdlconf := decode_ACCConf bs\<rparr>))
            (thenC (ACCELERATOR_DPRINTF L ''acc_pcie_class_init'' 897)
            (bindC (getG hdlconf) (\<lambda>c.
             thenC (doC (pci_class_setup L (vendor_id c) (device_id c) 0x0200 1
                      ''PCIe HDL-VM Data Transfer with NIC Support''))
             (thenC (doC (zframe_destroy L None))
             (thenC (doC (zframe_destroy L initframe2))
             (thenC (doC (zsock_destroy L initsock))
             (doC (zsock_destroy L initsock2)))))))))"

definition acc_pcie_class_init :: "('w, 'z) qemu_api_scheme \<Rightarrow> ((qemu, 'w) proc, unit) cprog" where
  "acc_pcie_class_init L =
     bindC (getG environ) (\<lambda>env.
     case port_string env of
       None \<Rightarrow> thenC (ACCELERATOR_EPRINTF L ''acc_pcie_class_init'' 859) (exitC 1)
     | Some str \<Rightarrow>
         bindC (definedC (atoi str)) (\<lambda>port.
         thenC (ACCELERATOR_DPRINTF L ''acc_pcie_class_init'' 863)
         (bindC acc_next_txid (\<lambda>txid.
          bindC (definedC (sock_endpoint SEND_SOCK port (- 1))) (\<lambda>e1.
          thenC (ACCELERATOR_DPRINTF L ''acc_pcie_class_init'' 875)
          (bindC (callC (zsock_new_push L e1)) (\<lambda>initsock.
           bindC (callC (zframe_new L (encode_ACCData (replicate 7 0) (init_request txid)))) (\<lambda>initframe.
           bindC (callC (zframe_send L initframe initsock 0)) (\<lambda>rv.
           thenC (assertC (rv = 0))
           (bindC (definedC (sock_endpoint RECV_SOCK port 10)) (\<lambda>e2.
            thenC (ACCELERATOR_DPRINTF L ''acc_pcie_class_init'' 882)
            (bindC (callC (zsock_new_pull L e2)) (\<lambda>initsock2.
             bindC (acc_zframe_recv_logged L initsock2) (\<lambda>initframe2.
             class_init_conf L initsock initsock2 initframe2))))))))))))))"

section \<open>Realisation\<close>

definition bar_names :: "string list" where
  "bar_names = [''mmio-bar0'', ''mmio-bar1'', ''mmio-bar2'', ''mmio-bar3'', ''mmio-bar4'', ''mmio-bar5'']"

text \<open>\<open>PCI_BASE_ADDRESS_SPACE_MEMORY\<close> is 0, \<open>..._MEM_TYPE_64\<close> is 4, \<open>..._MEM_PREFETCH\<close> is 8.\<close>

definition realize_attr :: "ACCConf \<Rightarrow> u8" where
  "realize_attr c = (if is_64 c then 4 else 0) OR (if prefetch c then 8 else 0)"

fun realize_bars ::
  "('w, 'z) qemu_api_scheme \<Rightarrow> u8 \<Rightarrow> nat \<Rightarrow> BARConf list \<Rightarrow> ((qemu, 'w) proc, unit) cprog" where
  "realize_bars L attr i [] = skipC"
| "realize_bars L attr i (b # bs) =
     thenC (whenC (is_valid b)
       (thenC (ACCELERATOR_DPRINTF L ''acc_pcie_realize'' 725)
       (thenC (doC (memory_region_init_io L (bar_names ! i) (bar_size b)))
       (doC (pci_register_bar L i attr)))))
     (realize_bars L attr (Suc i) bs)"

definition realize_push ::
  "('w, 'z) qemu_api_scheme \<Rightarrow> nat \<Rightarrow> int \<Rightarrow> int \<Rightarrow> ((qemu, 'w) proc, zsock) cprog" where
  "realize_push L line port k =
     bindC (definedC (sock_endpoint SEND_SOCK port k)) (\<lambda>e.
     thenC (ACCELERATOR_DPRINTF L ''acc_pcie_realize'' line) (callC (zsock_new_push L e)))"

definition realize_pull ::
  "('w, 'z) qemu_api_scheme \<Rightarrow> nat \<Rightarrow> int \<Rightarrow> int \<Rightarrow> ((qemu, 'w) proc, zsock) cprog" where
  "realize_pull L line port k =
     bindC (definedC (sock_endpoint RECV_SOCK port k)) (\<lambda>e.
     thenC (ACCELERATOR_DPRINTF L ''acc_pcie_realize'' line) (callC (zsock_new_pull L e)))"

definition realize_sockets ::
  "('w, 'z) qemu_api_scheme \<Rightarrow> int \<Rightarrow> ((qemu, 'w) proc, ACCPCIeState) cprog" where
  "realize_sockets L port =
     bindC (realize_push L 739 port 0) (\<lambda>qreq.
     bindC (realize_pull L 743 port 1) (\<lambda>qresp.
     bindC (realize_pull L 747 port 2) (\<lambda>hreq.
     bindC (realize_push L 751 port 3) (\<lambda>hresp.
     bindC (realize_push L 755 port 4) (\<lambda>nreq.
     bindC (realize_pull L 759 port 5) (\<lambda>nresp.
     bindC (realize_push L 763 port 8) (\<lambda>srx.
     bindC (realize_pull L 767 port 9) (\<lambda>stx.
     thenC (assertC (qreq \<noteq> None \<and> qresp \<noteq> None))
     (thenC (assertC (hreq \<noteq> None \<and> hresp \<noteq> None))
     (thenC (assertC (nreq \<noteq> None \<and> nresp \<noteq> None))
     (thenC (assertC (stx \<noteq> None \<and> srx \<noteq> None))
     (retC \<lparr>qemu_req = qreq, qemu_resp = qresp, hdl_req = hreq, hdl_resp = hresp,
            nic_req = nreq, nic_resp = nresp, serial_tx_sock = stx, serial_rx_sock = srx\<rparr>))))))))))))"

text \<open>Registering a socket's file descriptor with a handler; a failure exits.\<close>

definition register_fd ::
  "('w, 'z) qemu_api_scheme \<Rightarrow> nat \<Rightarrow> nat \<Rightarrow> zsock \<Rightarrow> string \<Rightarrow> ((qemu, 'w) proc, unit) cprog" where
  "register_fd L err_line ok_line sock handler =
     bindC (callC (zmq_getsockopt_fd L sock)) (\<lambda>(rv, fd).
     if rv \<noteq> 0 then thenC (ACCELERATOR_EPRINTF L ''acc_pcie_realize'' err_line) (exitC 1)
     else thenC (ACCELERATOR_DPRINTF L ''acc_pcie_realize'' ok_line)
            (doC (qemu_set_fd_handler L fd handler)))"

text \<open>
  \<open>acc_pcie_realize\<close> answers \<open>Inl\<close> with the message it puts into \<open>errp\<close>, or \<open>Inr\<close> with the device's
  channels.
\<close>

definition acc_pcie_realize ::
  "('w, 'z) qemu_api_scheme \<Rightarrow> ((qemu, 'w) proc, string + ACCPCIeState) cprog" where
  "acc_pcie_realize L =
     bindC (getG environ) (\<lambda>env.
     case port_string env of
       None \<Rightarrow> retC (Inl ''NPU_COSIM_PORT environment variable not set'')
     | Some str \<Rightarrow>
         bindC (definedC (atoi str)) (\<lambda>port.
         thenC (ACCELERATOR_DPRINTF L ''acc_pcie_realize'' 709)
         (thenC (doC (pci_config_write L 4 3))
         (bindC (getG hdlconf) (\<lambda>c.
          thenC (realize_bars L (realize_attr c) 0 (bars_conf c))
          (bindC (realize_sockets L port) (\<lambda>s.
           thenC (register_fd L 781 785 (hdl_req s) ''handle_hdl_request'')
           (thenC (register_fd L 792 796 (nic_resp s) ''net_tx_packet'')
           (thenC (register_fd L 803 807 (serial_tx_sock s) ''serial_tx'')
           (thenC (doC (qemu_macaddr_default_if_unset L))
           (thenC (doC (qemu_new_nic L))
           (thenC (doC (qemu_format_nic_info_str L))
           (thenC (acc_init_msix L)
           (thenC (doC (memory_region_init_io L ''serial-mmio'' 8))
           (thenC (doC (qemu_chr_fe_set_handlers L))
           (thenC (doC (qemu_chr_fe_set_echo L True))
           (retC (Inr s))))))))))))))))))"

section \<open>Exit and reset\<close>

text \<open>\<open>zsock_destroy(&s->x)\<close> clears the pointer; the result is the device's state afterwards.\<close>

definition acc_pcie_exit ::
  "('w, 'z) qemu_api_scheme \<Rightarrow> ACCPCIeState \<Rightarrow> ((qemu, 'w) proc, ACCPCIeState) cprog" where
  "acc_pcie_exit L s =
     thenC (ACCELERATOR_DPRINTF L ''acc_pcie_exit'' 832)
     (thenC (acc_cleanup_msix L)
     (thenC (doC (zsock_destroy L (hdl_req s)))
     (thenC (doC (zsock_destroy L (hdl_resp s)))
     (thenC (doC (zsock_destroy L (qemu_req s)))
     (thenC (doC (zsock_destroy L (qemu_resp s)))
     (thenC (doC (zsock_destroy L (nic_req s)))
     (thenC (doC (zsock_destroy L (nic_resp s)))
     (retC (s\<lparr>hdl_req := None, hdl_resp := None, qemu_req := None, qemu_resp := None,
             nic_req := None, nic_resp := None\<rparr>)))))))))"

definition acc_pcie_reset :: "('w, 'z) qemu_api_scheme \<Rightarrow> ((qemu, 'w) proc, unit) cprog" where
  "acc_pcie_reset L = ACCELERATOR_DPRINTF L ''acc_pcie_reset'' 844"

end
