(* ===== verification/Dpi_Nic.thy ===== *)
theory Dpi_Nic
  imports Dpi_Pcie
begin

text \<open>
  The NIC bridge \<^verbatim>\<open>bridge-ip/nic_sim_bridge/hdl/dpi-nic.c\<close>.  \<open>C_nic_poll\<close> hands a packet of the
  guest to the stream master as a number of beats, a byte-enable mask for the last beat and the
  data; \<open>C_send_packet\<close> sends a packet of the hardware to QEMU.  The lemmas show that the beats and
  the mask describe exactly the bytes of the packet.  The debug output is left out, but not the
  array accesses it makes.
\<close>

section \<open>State\<close>

record dpi_nic =
  dn_environ :: "string \<Rightarrow> string option"
  dn_nic_req :: zsock
  dn_nic_resp :: zsock
  dn_poller :: zpoller
  dn_BUSW :: int

record nic_args =
  n_req :: u8
  n_len :: u32
  n_keep :: u64
  n_data :: "byte list"

section \<open>Operations\<close>

definition C_teardown_nic_connection :: "('w, 'z) czmq_scheme \<Rightarrow> ((dpi_nic, 'w) proc, unit) cprog" where
  "C_teardown_nic_connection L = (\<lambda>(g, w).
     (Done (), (g\<lparr>dn_poller := None, dn_nic_req := None, dn_nic_resp := None\<rparr>,
       zsock_destroy L (dn_nic_resp g) (zsock_destroy L (dn_nic_req g)
         (zpoller_destroy L (dn_poller g) w)))))"

definition C_setup_nic_connection ::
  "('w, 'z) czmq_scheme \<Rightarrow> int \<Rightarrow> ((dpi_nic, 'w) proc, unit) cprog" where
  "C_setup_nic_connection L bus_width =
     bindC (getG dn_environ) (\<lambda>env.
     bindC (definedC (cosim_port env)) (\<lambda>port.
     bindC (pullC L RECV_SOCK port 4) (\<lambda>req.
     bindC (pushC L SEND_SOCK port 5) (\<lambda>resp.
     thenC (putG (\<lambda>g. g\<lparr>dn_nic_req := req, dn_nic_resp := resp\<rparr>))
     (thenC (assertC (req \<noteq> None \<and> resp \<noteq> None))
     (bindC (callC (zpoller_new L [req])) (\<lambda>p.
      thenC (putG (\<lambda>g. g\<lparr>dn_poller := p\<rparr>))
      (thenC (assertC (p \<noteq> None))
      (putG (\<lambda>g. g\<lparr>dn_BUSW := bus_width\<rparr>))))))))))"

definition C_send_packet ::
  "('w, 'z) czmq_scheme \<Rightarrow> byte list \<Rightarrow> int \<Rightarrow> int \<Rightarrow> byte list \<Rightarrow> ((dpi_nic, 'w) proc, unit) cprog" where
  "C_send_packet L stk i sz data =
     bindC (definedC (memcpy (nic_buf (decode_ACCNICData stk)) 0 data 0 BUFF_SIZE)) (\<lambda>d.
     bindC (callC (zframe_new L (encode_ACCNICData (padding_ACCNICData stk)
        ((decode_ACCNICData stk)\<lparr>nic_id := of_int i, nic_size := of_int sz, nic_buf := d\<rparr>)))) (\<lambda>frame.
     thenC (assertC (frame \<noteq> None))
     (bindC (getG dn_nic_resp) (\<lambda>sock.
      bindC (callC (zframe_send L frame sock 0)) (\<lambda>rv.
      thenC (assertC (rv = 0))
      (definedC (if sz \<le> int (length data) then Some () else None)))))))"

text \<open>
  The geometry of a packet: beats minus one, and the byte enables of the last beat.  The
  arithmetic is unsigned, as \<open>size\<close> is; it is undefined for a bus of width 0 and where the shift
  is 64 or more.
\<close>

definition nic_geometry :: "u32 \<Rightarrow> u32 \<Rightarrow> (u32 \<times> u64) option" where
  "nic_geometry busw sz =
     (if busw = 0 then None
      else
        (let align_offset = sz mod busw;
             len = (if align_offset \<noteq> 0 then sz div busw else sz div busw - 1) in
         if unat align_offset < 64 then
           (let keep = push_bit (unat align_offset) 1 - 1 in
            Some (len, if align_offset = 0 then NOT keep else keep))
         else None))"

definition cast_ACCNICData :: "byte list \<Rightarrow> ACCNICData option" where
  "cast_ACCNICData bs = (if length bs < sizeof_ACCNICData then None else Some (decode_ACCNICData bs))"

definition C_nic_poll ::
  "('w, 'z) czmq_scheme \<Rightarrow> nic_args \<Rightarrow> ((dpi_nic, 'w) proc, nic_args) cprog" where
  "C_nic_poll L a =
     (let a0 = a\<lparr>n_req := 0\<rparr> in
      bindC (getG id) (\<lambda>g.
      bindC (callC (zpoller_wait L (dn_poller g) 0)) (\<lambda>sock.
      if sock \<noteq> dn_nic_req g then retC a0
      else
        bindC (callC (zframe_recv L (dn_nic_req g))) (\<lambda>frame.
        thenC (assertC (frame \<noteq> None))
        (bindC (definedC (cast_ACCNICData (the frame))) (\<lambda>acc.
         bindC (definedC (nic_geometry (of_int (dn_BUSW g)) (nic_size acc))) (\<lambda>(len, keep).
         bindC (definedC (memcpy (n_data a) 0 (nic_buf acc) 0 BUFF_SIZE)) (\<lambda>d.
         bindC (definedC (if unat (nic_size acc) \<le> length d then Some () else None)) (\<lambda>_.
         thenC (doC (zframe_destroy L frame))
         (retC (a0\<lparr>n_req := 1, n_len := len, n_keep := keep, n_data := d\<rparr>)))))))))))"

section \<open>Behaviour\<close>

text \<open>
  For a packet of at least one byte on a bus of at most 64 lanes, the number of beats is the
  size divided by the bus width, rounded up, and a lane of the last beat is enabled exactly when
  it carries a byte of the packet.
\<close>

lemma nic_geometry_covers:
  assumes b: "0 < unat busw" "unat busw \<le> 64" and n: "0 < unat sz"
  obtains len keep where "nic_geometry busw sz = Some (len, keep)"
    and "unat len = (unat sz - 1) div unat busw"
    and "\<And>lane. lane < unat busw \<Longrightarrow> bit keep lane \<longleftrightarrow> unat len * unat busw + lane < unat sz"
proof -
  let ?b = "unat busw" and ?n = "unat sz"
  define len :: u32 where "len = (if sz mod busw \<noteq> 0 then sz div busw else sz div busw - 1)"
  define keep :: u64 where "keep = (if sz mod busw = 0 then NOT 0 else push_bit (unat (sz mod busw)) 1 - 1)"
  have um: "unat (sz mod busw) = ?n mod ?b" by (simp add: unat_mod)
  have m64: "?n mod ?b < 64" using b mod_less_divisor [of ?b ?n] by linarith
  have zero: "sz mod busw = 0 \<longleftrightarrow> ?n mod ?b = 0" using um by (metis unat_eq_zero)
  have "nic_geometry busw sz = Some (len, keep)"
    using b m64 um zero by (auto simp: nic_geometry_def len_def keep_def Let_def)
  moreover have len: "unat len = (?n - 1) div ?b"
  proof (cases "?n mod ?b = 0")
    case True
    then have "?b \<le> ?n" using n b by (metis dvd_imp_le mod_0_imp_dvd)
    then have "1 \<le> ?n div ?b" using b by (simp add: Suc_le_eq div_greater_zero_iff)
    then have "unat (sz div busw - 1) = ?n div ?b - 1"
      by (simp add: unat_sub word_le_nat_alt unat_div)
    with True zero ceil_div_pred [OF b(1) n] show ?thesis by (simp add: len_def)
  next
    case False
    with zero ceil_div_pred [OF b(1) n] show ?thesis by (simp add: len_def unat_div)
  qed
  moreover have "bit keep lane \<longleftrightarrow> unat len * ?b + lane < ?n" if lane: "lane < ?b" for lane
  proof (cases "?n mod ?b = 0")
    case True
    then have whole: "?n div ?b * ?b = ?n" using div_mult_mod_eq [of ?n ?b] by simp
    with n obtain k where k: "?n div ?b = Suc k" by (cases "?n div ?b") auto
    have "unat len = ?n div ?b - 1" using True len ceil_div_pred [OF b(1) n] by simp
    then have "unat len * ?b + ?b = ?n" using whole k by simp
    moreover have "bit keep lane" using True zero lane b by (simp add: keep_def)
    ultimately show ?thesis using lane by linarith
  next
    case False
    have "bit keep lane \<longleftrightarrow> lane < ?n mod ?b"
      using False zero um lane b bit_ones_shifted [of lane 0 "?n mod ?b"]
      by (simp add: keep_def mask_eq_exp_minus_1 [symmetric] bit_mask_iff)
    also have "\<dots> \<longleftrightarrow> (?n div ?b) * ?b + lane < ?n"
      by (metis add_less_cancel_left div_mult_mod_eq)
    finally show ?thesis using False len ceil_div_pred [OF b(1) n] by simp
  qed
  ultimately show ?thesis using that by blast
qed

lemma unat_busw:
  assumes "0 < b" and "b \<le> 64"
  shows "unat (of_int b :: u32) = nat b"
  using assms by (simp add: unat_eq_nat_uint uint_word_of_int_eq take_bit_int_eq_self)

context zmq_fifo
begin

lemma nic_poll_packet:
  assumes d: "dn_poller d = Some [Some n]" "dn_nic_req d = Some n"
    and b: "0 < dn_BUSW d" "dn_BUSW d \<le> 64"
    and qw: "q w n = encode_ACCNICData pad req # rest" and wf: "wf_ACCNICData req" "length pad = 3"
    and sz: "0 < unat (nic_size req)" "unat (nic_size req) \<le> BUFF_SIZE"
    and a: "length (n_data a) = BUFF_SIZE"
  shows "\<exists>a'. C_nic_poll L a (d, w) = (Done a', (d, deq n w)) \<and> n_req a' = 1
    \<and> unat (n_len a') = (unat (nic_size req) - 1) div nat (dn_BUSW d)
    \<and> (\<forall>lane < nat (dn_BUSW d). bit (n_keep a') lane \<longleftrightarrow>
          unat (n_len a') * nat (dn_BUSW d) + lane < unat (nic_size req))
    \<and> n_data a' = nic_buf req"
proof -
  let ?busw = "of_int (dn_BUSW d) :: u32"
  have ub: "unat ?busw = nat (dn_BUSW d)" using b by (rule unat_busw)
  have b': "0 < unat ?busw" "unat ?busw \<le> 64" using b ub by simp_all
  obtain len keep where geo: "nic_geometry ?busw (nic_size req) = Some (len, keep)"
    "unat len = (unat (nic_size req) - 1) div nat (dn_BUSW d)"
    "\<And>lane. lane < nat (dn_BUSW d) \<Longrightarrow>
       bit keep lane \<longleftrightarrow> unat len * nat (dn_BUSW d) + lane < unat (nic_size req)"
    using nic_geometry_covers [OF b' sz(1)] unfolding ub by blast
  have cast: "cast_ACCNICData (encode_ACCNICData pad req) = Some req"
    using nic.dec_enc wf by (simp add: cast_ACCNICData_def)
  have cpy: "memcpy (n_data a) 0 (nic_buf req) 0 BUFF_SIZE = Some (nic_buf req)"
    using a wf by (simp add: memcpy_def wf_ACCNICData_def bytes_at_def)
  have "C_nic_poll L a (d, w) =
      (Done (a\<lparr>n_req := 1, n_len := len, n_keep := keep, n_data := nic_buf req\<rparr>), (d, deq n w))"
    using d qw geo(1) cast cpy sz wf frame_recv [OF qw]
    by (simp add: C_nic_poll_def Let_def cprog_simps zmq_laws wf_ACCNICData_def del: BUFF_SIZE_eq)
  with geo(2,3) show ?thesis by simp
qed

text \<open>A packet without bytes: the beats wrap around.\<close>

lemma nic_poll_empty:
  assumes d: "dn_poller d = Some [Some n]" "dn_nic_req d = Some n"
    and b: "0 < dn_BUSW d" "dn_BUSW d \<le> 64"
    and qw: "q w n = encode_ACCNICData pad req # rest" and wf: "wf_ACCNICData req" "length pad = 3"
    and sz: "nic_size req = 0" and a: "length (n_data a) = BUFF_SIZE"
  shows "C_nic_poll L a (d, w) =
    (Done (a\<lparr>n_req := 1, n_len := - 1, n_keep := - 1, n_data := nic_buf req\<rparr>), (d, deq n w))"
proof -
  have "(of_int (dn_BUSW d) :: u32) \<noteq> 0" using unat_busw [OF b] b by auto
  then have geo: "nic_geometry (of_int (dn_BUSW d)) (nic_size req) = Some (- 1, - 1)"
    by (simp add: nic_geometry_def sz)
  have cast: "cast_ACCNICData (encode_ACCNICData pad req) = Some req"
    using nic.dec_enc wf by (simp add: cast_ACCNICData_def)
  have cpy: "memcpy (n_data a) 0 (nic_buf req) 0 BUFF_SIZE = Some (nic_buf req)"
    using a wf by (simp add: memcpy_def wf_ACCNICData_def bytes_at_def)
  show ?thesis
    using d qw geo cast cpy sz wf frame_recv [OF qw]
    by (simp add: C_nic_poll_def Let_def cprog_simps zmq_laws wf_ACCNICData_def del: BUFF_SIZE_eq)
qed

lemma nic_poll_idle:
  assumes "dn_poller d = Some [Some n]" and "dn_nic_req d = Some n" and "q w n = []"
  shows "C_nic_poll L a (d, w) = (Done (a\<lparr>n_req := 0\<rparr>), (d, w))"
  using assms by (simp add: C_nic_poll_def Let_def cprog_simps zmq_laws)

lemma send_packet_frame:
  assumes "dn_nic_resp d = Some n" and "length data = BUFF_SIZE" and "sz \<le> int BUFF_SIZE"
    and "length stk = sizeof_ACCNICData"
  shows "C_send_packet L stk i sz data (d, w) = (Done (), (d, enq (link n)
    (encode_ACCNICData (padding_ACCNICData stk)
      ((decode_ACCNICData stk)\<lparr>nic_id := of_int i, nic_size := of_int sz, nic_buf := data\<rparr>)) w))"
proof -
  have "wf_ACCNICData (decode_ACCNICData stk)" using assms(4) by (intro wf_decode_ACCNICData) simp
  then have "memcpy (nic_buf (decode_ACCNICData stk)) 0 data 0 BUFF_SIZE = Some data"
    using assms(2) by (simp add: memcpy_def wf_ACCNICData_def bytes_at_def)
  with assms show ?thesis
    by (simp add: C_send_packet_def cprog_simps zmq_laws del: BUFF_SIZE_eq)
qed

end

section \<open>Properties\<close>

text \<open>
  C17: the beats and byte enables \<open>C_nic_poll\<close> computes describe the packet exactly: byte \<open>b\<close> of the
  stream, at beat \<open>b div busw\<close> and lane \<open>b mod busw\<close>, is a beat's enabled lane if and only if it is
  a byte of the packet.  Every beat but the last has all its lanes enabled.
\<close>

theorem nic_beats_exact:
  assumes "0 < unat busw" "unat busw \<le> 64" and "0 < unat sz"
  shows "\<exists>len keep. nic_geometry busw sz = Some (len, keep)
    \<and> (\<forall>b. (b div unat busw < unat len
             \<or> b div unat busw = unat len \<and> bit keep (b mod unat busw)) \<longleftrightarrow> b < unat sz)"
proof -
  let ?b = "unat busw"
  obtain len keep where geo: "nic_geometry busw sz = Some (len, keep)"
    and len: "unat len = (unat sz - 1) div ?b"
    and keep: "\<And>lane. lane < ?b \<Longrightarrow> bit keep lane \<longleftrightarrow> unat len * ?b + lane < unat sz"
    using nic_geometry_covers [OF assms] by blast
  have "(x div ?b < unat len \<or> x div ?b = unat len \<and> bit keep (x mod ?b)) \<longleftrightarrow> x < unat sz" for x
  proof -
    have split: "x = x div ?b * ?b + x mod ?b" and lane: "x mod ?b < ?b" using assms(1) by simp_all
    have full: "unat len * ?b \<le> unat sz - 1" using len by (simp add: div_times_less_eq_dividend)
    consider "x div ?b < unat len" | "x div ?b = unat len" | "unat len < x div ?b" by linarith
    then show ?thesis
    proof cases
      case 1
      then have "x < unat len * ?b" using assms(1) by (simp add: div_less_iff_less_mult)
      with 1 full assms(3) show ?thesis by linarith
    next
      case 2
      with keep [OF lane] split show ?thesis by auto
    next
      case 3
      then have "\<not> x \<le> unat sz - 1" using len div_le_mono [of x "unat sz - 1" ?b] by auto
      with 3 show ?thesis by linarith
    qed
  qed
  with geo show ?thesis by blast
qed

theorem nic_beats_exact_witness:
  "\<exists>len keep. nic_geometry 8 60 = Some (len, keep)
    \<and> (\<forall>b. (b div unat (8 :: u32) < unat len
             \<or> b div unat (8 :: u32) = unat len \<and> bit keep (b mod unat (8 :: u32))) \<longleftrightarrow> b < unat (60 :: u32))"
  by (rule nic_beats_exact) simp_all

end
