(* ===== verification/Dpi_Uart.thy ===== *)
theory Dpi_Uart
  imports Dpi_Pcie
begin

text \<open>
  The serial bridge \<^verbatim>\<open>bridge-ip/uart_sim_1.0/hdl/dpi-uart.c\<close>: polling for a character of the
  guest, reading it, and sending one.
\<close>

record dpi_uart =
  du_environ :: "string \<Rightarrow> string option"
  du_uart_rx :: zsock
  du_uart_tx :: zsock
  du_poller :: zpoller

definition C_teardown_uart_connection :: "('w, 'z) czmq_scheme \<Rightarrow> ((dpi_uart, 'w) proc, unit) cprog" where
  "C_teardown_uart_connection L = (\<lambda>(g, w).
     (Done (), (g\<lparr>du_poller := None, du_uart_rx := None, du_uart_tx := None\<rparr>,
       zsock_destroy L (du_uart_tx g) (zsock_destroy L (du_uart_rx g)
         (zpoller_destroy L (du_poller g) w)))))"

definition C_setup_uart_connection :: "('w, 'z) czmq_scheme \<Rightarrow> ((dpi_uart, 'w) proc, unit) cprog" where
  "C_setup_uart_connection L =
     bindC (getG du_environ) (\<lambda>env.
     bindC (definedC (cosim_port env)) (\<lambda>port.
     bindC (pullC L RECV_SOCK port 8) (\<lambda>rx.
     bindC (pushC L SEND_SOCK port 9) (\<lambda>tx.
     thenC (putG (\<lambda>g. g\<lparr>du_uart_rx := rx, du_uart_tx := tx\<rparr>))
     (thenC (assertC (rx \<noteq> None \<and> tx \<noteq> None))
     (bindC (callC (zpoller_new L [rx])) (\<lambda>p.
      thenC (putG (\<lambda>g. g\<lparr>du_poller := p\<rparr>)) (assertC (p \<noteq> None)))))))))"

text \<open>\<open>*data_available = (sock == NULL)\<close>.\<close>

definition C_uart_poll :: "('w, 'z) czmq_scheme \<Rightarrow> ((dpi_uart, 'w) proc, u8) cprog" where
  "C_uart_poll L =
     bindC (getG du_poller) (\<lambda>p.
     bindC (callC (zpoller_wait L p 0)) (\<lambda>sock.
     retC (if sock = None then 1 else 0)))"

text \<open>
  The argument is the value \<open>*c\<close> has on entry, the result the one it has on return.  A frame of
  less than four bytes does not hold an \<open>unsigned int\<close>, so reading one is undefined.
\<close>

definition frame_uint :: "zframe \<Rightarrow> u32 option" where
  "frame_uint frame = (case frame of None \<Rightarrow> None
     | Some bs \<Rightarrow> if length bs < 4 then None else Some (of_le (take 4 bs)))"

definition C_uart_rx :: "('w, 'z) czmq_scheme \<Rightarrow> u32 \<Rightarrow> ((dpi_uart, 'w) proc, u32) cprog" where
  "C_uart_rx L c =
     bindC (getG id) (\<lambda>g.
     bindC (callC (zpoller_wait L (du_poller g) 0)) (\<lambda>sock.
     if sock = None then retC c
     else
       bindC (callC (zframe_recv L (du_uart_rx g))) (\<lambda>frame.
       bindC (definedC (frame_uint frame)) (\<lambda>c'.
       thenC (doC (zframe_destroy L frame)) (retC c')))))"

definition C_uart_tx :: "('w, 'z) czmq_scheme \<Rightarrow> u32 \<Rightarrow> ((dpi_uart, 'w) proc, unit) cprog" where
  "C_uart_tx L data =
     bindC (callC (zframe_new L [ucast data])) (\<lambda>frame.
     bindC (getG du_uart_tx) (\<lambda>sock.
     bindC (callC (zframe_send L frame sock 0)) (\<lambda>_. skipC)))"

section \<open>Behaviour\<close>

context zmq_fifo
begin

lemma uart_poll_value:
  assumes "du_poller d = Some [Some n]"
  shows "C_uart_poll L (d, w) = (Done (if q w n = [] then 1 else 0), (d, w))"
  using assms by (simp add: C_uart_poll_def cprog_simps zmq_laws)

lemma uart_rx_frame:
  assumes "du_poller d = Some [Some n]" and "du_uart_rx d = Some n" and qw: "q w n = bs # rest"
  shows "C_uart_rx L c (d, w) =
    (if length bs < 4 then (Undefined, (d, deq n w)) else (Done (of_le (take 4 bs)), (d, deq n w)))"
  using assms frame_recv [OF qw]
  by (simp add: C_uart_rx_def cprog_simps zmq_laws frame_uint_def)

lemma uart_rx_idle:
  assumes "du_poller d = Some [Some n]" and "q w n = []"
  shows "C_uart_rx L c (d, w) = (Done c, (d, w))"
  using assms by (simp add: C_uart_rx_def cprog_simps zmq_laws)

lemma uart_tx_frame:
  assumes "du_uart_tx d = Some n"
  shows "C_uart_tx L c (d, w) = (Done (), (d, enq (link n) [ucast c] w))"
  using assms by (simp add: C_uart_tx_def cprog_simps zmq_laws)

end

end
