(* ===== verification/Cosim_Boot.thy ===== *)
theory Cosim_Boot
  imports Cosim_Dma Acc_Device Dpi_Nic Dpi_Uart
begin

text \<open>
  Bringing the system up: what the setup functions of the bridges and the realisation of the
  QEMU device leave behind, that their sockets end up connected pairwise when both processes
  were started with the same \<open>NPU_COSIM_PORT\<close>, and that the class initialiser receives the
  configuration the bridge was set up with.  At the end of a device's life, what its exit closes.
\<close>

section \<open>The PCI core as the device sees it\<close>

text \<open>
  What the device does to QEMU while it is realised, as a sequence of events.  \<open>Region\<close> and \<open>Bar\<close>
  are \<open>memory_region_init_io\<close> and \<open>pci_register_bar\<close>, \<open>Watch\<close> is \<open>qemu_set_fd_handler\<close>.
\<close>

datatype pci_event = Region string u64 | Bar nat u8 | Watch int string

definition quiet :: "('w \<Rightarrow> 'q) \<Rightarrow> ('w \<Rightarrow> pci_event list) \<Rightarrow> ('w \<Rightarrow> 'w) \<Rightarrow> bool" where
  "quiet q ev f \<longleftrightarrow> (\<forall>w. q (f w) = q w \<and> ev (f w) = ev w)"

lemma quiet_simp: "quiet q ev f \<Longrightarrow> q (f w) = q w" "quiet q ev f \<Longrightarrow> ev (f w) = ev w"
  by (simp_all add: quiet_def)

text \<open>The events of the BARs: one region and one registration for each valid one, in order.\<close>

fun bar_events :: "u8 \<Rightarrow> nat \<Rightarrow> BARConf list \<Rightarrow> pci_event list" where
  "bar_events attr i [] = []"
| "bar_events attr i (b # bs) =
     (if is_valid b then [Region (bar_names ! i) (bar_size b), Bar i attr] else [])
     @ bar_events attr (Suc i) bs"

locale pci_core = zmq_ports L q enq deq link peer bound conn + msix_core L used
  for L :: "('w, 'z) qemu_api_scheme"
    and q :: "'w \<Rightarrow> nat \<Rightarrow> byte list list"
    and enq :: "nat \<Rightarrow> byte list \<Rightarrow> 'w \<Rightarrow> 'w"
    and deq :: "nat \<Rightarrow> 'w \<Rightarrow> 'w"
    and link :: "nat \<Rightarrow> nat"
    and peer :: "'w \<Rightarrow> 'w"
    and bound :: "int \<Rightarrow> nat"
    and conn :: "int \<Rightarrow> nat"
    and used :: "'w \<Rightarrow> int \<Rightarrow> nat" +
  fixes ev :: "'w \<Rightarrow> pci_event list"
    and fd_of :: "nat \<Rightarrow> int"
  assumes region: "ev (memory_region_init_io L name sz w) = ev w @ [Region name sz]"
        "q (memory_region_init_io L name sz w) = q w"
    and register_bar: "ev (pci_register_bar L num at w) = ev w @ [Bar num at]"
        "q (pci_register_bar L num at w) = q w"
    and set_handler: "ev (qemu_set_fd_handler L fd h w) = ev w @ [Watch fd h]"
        "q (qemu_set_fd_handler L fd h w) = q w"
    and sock_fd: "zmq_getsockopt_fd L (Some t) w = ((0, fd_of t), w)"
    and quiet_calls: "quiet q ev (pci_config_write L a v)" "quiet q ev (qemu_macaddr_default_if_unset L)"
        "quiet q ev (qemu_new_nic L)" "quiet q ev (qemu_format_nic_info_str L)"
        "quiet q ev (qemu_chr_fe_set_handlers L)" "quiet q ev (qemu_chr_fe_set_echo L b)"
        "quiet q ev (msix_vector_use L i)" "quiet q ev (pci_class_setup L vid did cls revn desc)"
        "quiet q ev (\<lambda>w. snd (msix_init L n tb tbn toff pb pbn poff w))"
begin

lemmas quiet_laws = quiet_calls [THEN quiet_simp(1)] quiet_calls [THEN quiet_simp(2)]
lemmas pci_laws = region register_bar set_handler quiet_laws

lemma realize_bars_events:
  assumes "log_ok g"
  shows "\<exists>g' w'. realize_bars L attr i bs (g, w) = (Done (), (g', w')) \<and> log_ok g'
    \<and> same_core L g g' \<and> q w' = q w \<and> ev w' = ev w @ bar_events attr i bs"
  using assms
proof (induction bs arbitrary: i g w)
  case Nil
  then show ?case by (simp add: cprog_simps)
next
  case (Cons b bs)
  show ?case
  proof (cases "is_valid b")
    case True
    let ?g = "log_fn L ACC_LOG_DEBUG ''acc_pcie_realize'' 725 g"
    let ?w = "pci_register_bar L i attr (memory_region_init_io L (bar_names ! i) (bar_size b) w)"
    from Cons.IH [of ?g "Suc i" ?w] True Cons.prems show ?thesis
      by (auto simp: cprog_simps pci_laws)
  next
    case False
    with Cons.IH [of g "Suc i" w] Cons.prems show ?thesis by (auto simp: cprog_simps)
  qed
qed

lemma realize_push_eq [cprog_simps]:
  assumes "log_ok g" and "tcp_port (port + k)"
  shows "realize_push L line port k (g, w) =
    (Done (Some (bound (port + k))), (log_fn L ACC_LOG_DEBUG ''acc_pcie_realize'' line g, w))"
  using assms
  by (simp add: realize_push_def cprog_simps endpoint_of_port sock_modes open_push [unfolded sock_modes])

lemma realize_pull_eq [cprog_simps]:
  assumes "log_ok g" and "tcp_port (port + k)"
  shows "realize_pull L line port k (g, w) =
    (Done (Some (conn (port + k))), (log_fn L ACC_LOG_DEBUG ''acc_pcie_realize'' line g, w))"
  using assms
  by (simp add: realize_pull_def cprog_simps endpoint_of_port sock_modes open_pull [unfolded sock_modes])

end

text \<open>The channels of a realised device.\<close>

definition device_on :: "(int \<Rightarrow> nat) \<Rightarrow> (int \<Rightarrow> nat) \<Rightarrow> int \<Rightarrow> ACCPCIeState" where
  "device_on bound conn port = \<lparr>qemu_req = Some (bound port), qemu_resp = Some (conn (port + 1)),
     hdl_req = Some (conn (port + 2)), hdl_resp = Some (bound (port + 3)),
     nic_req = Some (bound (port + 4)), nic_resp = Some (conn (port + 5)),
     serial_tx_sock = Some (conn (port + 9)), serial_rx_sock = Some (bound (port + 8))\<rparr>"

context pci_core
begin

lemma realize_sockets_eq:
  assumes "log_ok g" and p: "tcp_port port" "tcp_port (port + 9)"
  shows "\<exists>g'. realize_sockets L port (g, w) = (Done (device_on bound conn port), (g', w))
    \<and> log_ok g' \<and> same_core L g g'"
proof -
  have ports: "tcp_port (port + 0)" "tcp_port (port + 1)" "tcp_port (port + 2)" "tcp_port (port + 3)"
    "tcp_port (port + 4)" "tcp_port (port + 5)" "tcp_port (port + 8)"
    using p by (simp_all add: tcp_port_def)
  with p assms(1) show ?thesis by (simp add: realize_sockets_def cprog_simps device_on_def)
qed

lemma register_fd_eq [cprog_simps]:
  assumes "log_ok g"
  shows "register_fd L e k (Some t) h (g, w) =
    (Done (), (log_fn L ACC_LOG_DEBUG ''acc_pcie_realize'' k g, qemu_set_fd_handler L (fd_of t) h w))"
  using assms by (simp add: register_fd_def cprog_simps sock_fd)

text \<open>Initialising MSI-X is invisible to the queues and to the events.\<close>

lemma use_vectors_quiet:
  "i + int n \<le> msix_entries_nr L w \<Longrightarrow>
   \<exists>w'. use_vectors L n i (g, w) = (Done True, (g, w')) \<and> q w' = q w \<and> ev w' = ev w"
proof (induction n arbitrary: i w)
  case 0
  then show ?case by (simp add: cprog_simps)
next
  case (Suc n)
  from Suc.IH [of "i + 1" "msix_vector_use L i w"] Suc.prems show ?case
    by (auto simp: cprog_simps use_entries pci_laws)
qed

lemma init_msix_quiet:
  assumes "log_ok g" and "unat (msix_table_bar (hdlconf g)) < 6" and "unat (msix_pba_bar (hdlconf g)) < 6"
    and init: "\<And>n tb tbn toff pb pbn poff. 0 \<le> fst (msix_init L n tb tbn toff pb pbn poff w)"
  shows "\<exists>g' w'. acc_init_msix L (g, w) = (Done (), (g', w')) \<and> log_ok g' \<and> same_core L g g'
    \<and> q w' = q w \<and> ev w' = ev w"
proof -
  let ?c = "hdlconf g" and ?g = "log_fn L ACC_LOG_DEBUG ''acc_init_msix'' 283 g"
  let ?g1 = "log_fn L ACC_LOG_DEBUG ''acc_use_msix_vectors'' 262 ?g"
  obtain res w1 where init1: "msix_init L (msix_vec_num ?c) (unat (msix_table_bar ?c))
      (ucast (msix_table_bar ?c)) (ucast (msix_table_offset ?c)) (unat (msix_pba_bar ?c))
      (ucast (msix_pba_bar ?c)) (ucast (msix_pba_offset ?c)) w = (res, w1)" by force
  with init have res: "0 \<le> res" by (metis fst_conv)
  have w1: "q w1 = q w" "ev w1 = ev w" using init1 quiet_laws(9,18) by (metis snd_conv)+
  have "0 + int (nat (uint (msix_vec_num ?c))) \<le> msix_entries_nr L w1"
    using init_entries [OF init1 res] by simp
  from use_vectors_quiet [OF this, of ?g1] obtain w2 where
    "use_vectors L (nat (uint (msix_vec_num ?c))) 0 (?g1, w1) = (Done True, (?g1, w2))"
    "q w2 = q w1" "ev w2 = ev w1" by auto
  with assms(1-3) init1 res w1 show ?thesis
    by (intro exI [of _ ?g1] exI [of _ w2])
       (simp add: acc_init_msix_def acc_use_msix_vectors_def cprog_simps bars_ref_def)
qed

lemma realize_device:
  assumes g: "log_ok g" and port: "port_string (environ g) = Some str" "atoi str = Some port"
    and p: "tcp_port port" "tcp_port (port + 9)"
    and bars: "unat (msix_table_bar (hdlconf g)) < 6" "unat (msix_pba_bar (hdlconf g)) < 6"
    and init: "\<And>n tb tbn toff pb pbn poff w. 0 \<le> fst (msix_init L n tb tbn toff pb pbn poff w)"
  shows "\<exists>g' w'. acc_pcie_realize L (g, w) = (Done (Inr (device_on bound conn port)), (g', w'))
    \<and> log_ok g' \<and> same_core L g g' \<and> q w' = q w
    \<and> ev w' = ev w @ bar_events (realize_attr (hdlconf g)) 0 (bars_conf (hdlconf g))
        @ [Watch (fd_of (conn (port + 2))) ''handle_hdl_request'',
           Watch (fd_of (conn (port + 5))) ''net_tx_packet'',
           Watch (fd_of (conn (port + 9))) ''serial_tx'', Region ''serial-mmio'' 8]"
proof -
  let ?c = "hdlconf g" and ?g0 = "log_fn L ACC_LOG_DEBUG ''acc_pcie_realize'' 709 g"
  let ?w0 = "pci_config_write L 4 3 w" and ?dbg = "log_fn L ACC_LOG_DEBUG ''acc_pcie_realize''"
  from realize_bars_events [of ?g0 "realize_attr ?c" 0 "bars_conf ?c" ?w0] obtain g1 w1 where
    1: "realize_bars L (realize_attr ?c) 0 (bars_conf ?c) (?g0, ?w0) = (Done (), (g1, w1))"
      "log_ok g1" "same_core L g g1" "q w1 = q w"
      "ev w1 = ev w @ bar_events (realize_attr ?c) 0 (bars_conf ?c)"
    by (auto simp: pci_laws)
  from realize_sockets_eq [OF 1(2) p, of w1] obtain g2 where
    2: "realize_sockets L port (g1, w1) = (Done (device_on bound conn port), (g2, w1))"
      "log_ok g2" "same_core L g1 g2" by blast
  let ?g3 = "?dbg 807 (?dbg 796 (?dbg 785 g2))"
  let ?w3 = "qemu_format_nic_info_str L (qemu_new_nic L (qemu_macaddr_default_if_unset L
    (qemu_set_fd_handler L (fd_of (conn (port + 9))) ''serial_tx''
    (qemu_set_fd_handler L (fd_of (conn (port + 5))) ''net_tx_packet''
    (qemu_set_fd_handler L (fd_of (conn (port + 2))) ''handle_hdl_request'' w1)))))"
  have c3: "hdlconf ?g3 = ?c" using 1(3) 2(3) by (simp add: same_core_def)
  have "log_ok ?g3" by simp
  from init_msix_quiet [OF this, of ?w3] bars init c3 obtain g4 w4 where
    3: "acc_init_msix L (?g3, ?w3) = (Done (), (g4, w4))" "log_ok g4" "same_core L ?g3 g4"
      "q w4 = q ?w3" "ev w4 = ev ?w3" by auto
  have "acc_pcie_realize L (g, w) = (Done (Inr (device_on bound conn port)),
      (g4, qemu_chr_fe_set_echo L True (qemu_chr_fe_set_handlers L
        (memory_region_init_io L ''serial-mmio'' 8 w4))))"
    using g port 1(1,2) 2(1,2) 3(1)
    by (simp add: acc_pcie_realize_def cprog_simps device_on_def)
  moreover have "same_core L g g4" using 1(3) 2(3) 3(3) by (simp add: same_core_def)
  ultimately show ?thesis
    using 1(4,5) 3(2,4,5) by (simp add: pci_laws)
qed

end

section \<open>The end of a device\<close>

text \<open>
  \<open>closed\<close> is the sequence of sockets destroyed.  Closing a socket undoes no registration, and giving
  MSI-X back neither closes sockets nor registers anything.
\<close>

locale device_life = pci_core L q enq deq link peer bound conn used ev fd_of
  for L :: "('w, 'z) qemu_api_scheme"
    and q :: "'w \<Rightarrow> nat \<Rightarrow> byte list list"
    and enq :: "nat \<Rightarrow> byte list \<Rightarrow> 'w \<Rightarrow> 'w"
    and deq :: "nat \<Rightarrow> 'w \<Rightarrow> 'w"
    and link :: "nat \<Rightarrow> nat"
    and peer :: "'w \<Rightarrow> 'w"
    and bound :: "int \<Rightarrow> nat"
    and conn :: "int \<Rightarrow> nat"
    and used :: "'w \<Rightarrow> int \<Rightarrow> nat"
    and ev :: "'w \<Rightarrow> pci_event list"
    and fd_of :: "nat \<Rightarrow> int" +
  fixes closed :: "'w \<Rightarrow> zsock list"
  assumes close_log: "closed (zsock_destroy L x w) = closed w @ [x]" "ev (zsock_destroy L x w) = ev w"
    and unuse_quiet: "closed (msix_vector_unuse L v w) = closed w" "ev (msix_vector_unuse L v w) = ev w"
    and uninit_quiet: "closed (msix_uninit L tb pb w) = closed w" "ev (msix_uninit L tb pb w) = ev w"
begin

lemma unuse_vectors_quiet:
  "\<exists>w'. unuse_vectors L n i (g, w) = (Done (), (g, w')) \<and> closed w' = closed w \<and> ev w' = ev w"
proof (induction n arbitrary: i w)
  case 0
  then show ?case by (simp add: cprog_simps)
next
  case (Suc n)
  from Suc [of "i + 1" "msix_vector_unuse L i w"] show ?case by (auto simp: cprog_simps unuse_quiet)
qed

lemma cleanup_msix_quiet:
  assumes "log_ok g" and "unat (msix_table_bar (hdlconf g)) < 6" and "unat (msix_pba_bar (hdlconf g)) < 6"
  shows "\<exists>g' w'. acc_cleanup_msix L (g, w) = (Done (), (g', w')) \<and> log_ok g'
    \<and> closed w' = closed w \<and> ev w' = ev w"
proof (cases "msix_present L w")
  case True
  let ?g = "log_fn L ACC_LOG_DEBUG ''acc_unuse_msix_vectors'' 252 (log_fn L ACC_LOG_DEBUG ''acc_cleanup_msix'' 318 g)"
  obtain w1 where w1: "unuse_vectors L (nat (uint (msix_vec_num (hdlconf g)))) 0 (?g, w) = (Done (), (?g, w1))"
    "closed w1 = closed w" "ev w1 = ev w" using unuse_vectors_quiet by blast
  let ?w = "msix_uninit L (unat (msix_table_bar (hdlconf g))) (unat (msix_pba_bar (hdlconf g))) w1"
  have "acc_cleanup_msix L (g, w) = (Done (), (?g, ?w))"
    using assms True w1(1)
    by (simp add: acc_cleanup_msix_def acc_unuse_msix_vectors_def cprog_simps bars_ref_def)
  then show ?thesis using w1(2,3) by (simp add: uninit_quiet)
next
  case False
  with assms(1) show ?thesis by (simp add: acc_cleanup_msix_def cprog_simps)
qed

lemma exit_closes:
  assumes "log_ok g" and "unat (msix_table_bar (hdlconf g)) < 6" and "unat (msix_pba_bar (hdlconf g)) < 6"
  shows "\<exists>g' w'. acc_pcie_exit L s (g, w) =
      (Done (s\<lparr>hdl_req := None, hdl_resp := None, qemu_req := None, qemu_resp := None,
         nic_req := None, nic_resp := None\<rparr>), (g', w'))
    \<and> closed w' = closed w @ [hdl_req s, hdl_resp s, qemu_req s, qemu_resp s, nic_req s, nic_resp s]
    \<and> ev w' = ev w"
proof -
  let ?g = "log_fn L ACC_LOG_DEBUG ''acc_pcie_exit'' 832 g"
  have "log_ok ?g" "unat (msix_table_bar (hdlconf ?g)) < 6" "unat (msix_pba_bar (hdlconf ?g)) < 6"
    using assms by simp_all
  from cleanup_msix_quiet [OF this, of w] obtain g1 w1 where
    "acc_cleanup_msix L (?g, w) = (Done (), (g1, w1))" "closed w1 = closed w" "ev w1 = ev w" by blast
  with assms(1) show ?thesis by (simp add: acc_pcie_exit_def cprog_simps close_log)
qed

end

section \<open>The bridges\<close>

definition bridge_on ::
  "(int \<Rightarrow> nat) \<Rightarrow> (int \<Rightarrow> nat) \<Rightarrow> int \<Rightarrow> u64 \<Rightarrow> ACCConf \<Rightarrow> (string \<Rightarrow> string option) \<Rightarrow> dpi_pcie" where
  "bridge_on bound conn port busw c env = \<lparr>dp_environ = env, dp_qemu_req = Some (conn port),
     dp_qemu_resp = Some (bound (port + 1)), dp_hdl_req = Some (bound (port + 2)),
     dp_hdl_resp = Some (conn (port + 3)),
     dp_poller = Some [Some (conn (port - 1)), Some (conn port), Some (conn (port + 3))],
     dp_initsock = Some (conn (port - 1)), dp_initsock2 = Some (bound (port + 10)),
     dp_BUSW = busw, dp_conf = c\<rparr>"

lemma setup_bars_eq:
  assumes "length vs = k" and "length szs = k" and "length offs = k" and "\<forall>n \<in> set szs. unat n < 64"
  shows "setup_bars k vs szs offs = Some (map (\<lambda>(v, n, off).
    \<lparr>is_valid = (v \<noteq> 0), bar_size = 2 ^ unat n, bar_offset = off\<rparr>) (zip vs (zip szs offs)))"
  using assms
proof (induction k vs szs offs rule: setup_bars.induct)
  case (2 k v vs sz szs off offs)
  then show ?case by (simp add: shl1_u64_def push_bit_eq_mult)
qed simp_all

text \<open>
  The report is defined exactly for valid BARs of fewer than \<open>2 ^ 5\<close> bytes: it shifts by the size,
  not by its exponent.
\<close>

lemma report_after_setup:
  assumes "length vs = k" and "length szs = k" and "length offs = k" and "\<forall>n \<in> set szs. unat n < 64"
    and "setup_bars k vs szs offs = Some bs"
  shows "report_bars bs \<noteq> None \<longleftrightarrow> (\<forall>i < k. vs ! i \<noteq> 0 \<longrightarrow> unat (szs ! i) < 5)"
proof -
  have size: "unat (2 ^ unat n :: u64) < 31 \<longleftrightarrow> unat n < 5" if "unat n < 64" for n :: u64
  proof -
    have "(2::nat) ^ unat n < 2 ^ 64" using that by (intro power_strict_increasing) simp_all
    then have "unat (of_nat (2 ^ unat n) :: u64) = 2 ^ unat n" by (simp only: unat_of_nat) simp
    then have "unat (2 ^ unat n :: u64) = 2 ^ unat n" by simp
    moreover have "(2::nat) ^ unat n < 31 \<longleftrightarrow> unat n < 5"
    proof (cases "unat n < 5")
      case True
      then have "(2::nat) ^ unat n \<le> 2 ^ 4" by (intro power_increasing) simp_all
      with True show ?thesis by simp
    next
      case False
      then have "(2::nat) ^ 5 \<le> 2 ^ unat n" by (intro power_increasing) simp_all
      with False show ?thesis by simp
    qed
    ultimately show ?thesis by simp
  qed
  have "bs = map (\<lambda>(v, n, off). \<lparr>is_valid = (v \<noteq> 0), bar_size = 2 ^ unat n, bar_offset = off\<rparr>)
      (zip vs (zip szs offs))"
    using setup_bars_eq [OF assms(1-4)] assms(5) by simp
  then have "(\<forall>b \<in> set bs. is_valid b \<longrightarrow> unat (bar_size b) < 31)
      \<longleftrightarrow> (\<forall>i < k. vs ! i \<noteq> 0 \<longrightarrow> unat (2 ^ unat (szs ! i) :: u64) < 31)"
    using assms(1-3) by (simp add: all_set_conv_all_nth)
  also have "\<dots> \<longleftrightarrow> (\<forall>i < k. vs ! i \<noteq> 0 \<longrightarrow> unat (szs ! i) < 5)"
    using size assms(2,4) by auto
  finally show ?thesis by (simp only: report_bars_defined)
qed

context zmq_ports
begin

lemma setup_sockets_eq:
  assumes "cosim_port (dp_environ d) = Some port" and "tcp_port (port - 1)" and "tcp_port (port + 10)"
  shows "setup_sockets L (d, w) =
    (Done (), (bridge_on bound conn port (dp_BUSW d) (dp_conf d) (dp_environ d), w))"
proof -
  have ports: "tcp_port port" "tcp_port (port + 0)" "tcp_port (port + 1)" "tcp_port (port + 2)"
    "tcp_port (port + 3)" "tcp_port (port + 6)" using assms by (simp_all add: tcp_port_def)
  have "sock_endpoint SEND_SOCK port 6 \<noteq> None"
    using endpoint_of_port [OF ports(6), of SEND_SOCK] by (simp add: sock_modes)
  with assms ports show ?thesis
    by (auto simp: setup_sockets_def bridge_on_def cprog_simps zmq_laws)
qed

text \<open>The whole setup: its report decides whether it comes to the sockets.\<close>

lemma setup_pcie_eq:
  assumes "setup_conf busw vid did attr vb szs offs n tb toff pb poff (d, w) = (Done (), (dc, w))"
  shows "C_setup_pcie_connection L busw vid did attr vb szs offs n tb toff pb poff (d, w) =
    (if report_bars (bars_conf (dp_conf dc)) = None then (Undefined, (dc, w)) else setup_sockets L (dc, w))"
  using assms
  by (cases "report_bars (bars_conf (dp_conf dc))")
    (simp_all add: C_setup_pcie_connection_def setup_report_def cprog_simps)

end

section \<open>All channels\<close>

text \<open>The sockets of the network and serial bridges after their setup.\<close>

context zmq_ports
begin

lemma setup_nic_eq:
  assumes "cosim_port (dn_environ d) = Some port" and "tcp_port (port + 4)" and "tcp_port (port + 5)"
  shows "C_setup_nic_connection L bw (d, w) = (Done (), (d\<lparr>dn_nic_req := Some (conn (port + 4)),
    dn_nic_resp := Some (bound (port + 5)), dn_poller := Some [Some (conn (port + 4))], dn_BUSW := bw\<rparr>, w))"
  using assms by (simp add: C_setup_nic_connection_def cprog_simps zmq_laws)

lemma setup_uart_eq:
  assumes "cosim_port (du_environ d) = Some port" and "tcp_port (port + 8)" and "tcp_port (port + 9)"
  shows "C_setup_uart_connection L (d, w) = (Done (), (d\<lparr>du_uart_rx := Some (conn (port + 8)),
    du_uart_tx := Some (bound (port + 9)), du_poller := Some [Some (conn (port + 8))]\<rparr>, w))"
  using assms by (simp add: C_setup_uart_connection_def cprog_simps zmq_laws)

lemma bridge_on_up:
  assumes "tcp_port (port - 1)" and "tcp_port port" and "length (bars_conf c) = 6"
    and "0 < unat busw" "unat busw \<le> 64"
  shows "bridge_up (bridge_on bound conn port busw c env)"
  using assms by (simp add: bridge_up_def bridge_on_def wf_ACCConf_def conn_inj)

lemma device_bridge_linked:
  assumes "tcp_port (port - 1)" and "tcp_port (port + 10)"
  shows "linked link (device_on bound conn port) (bridge_on bound conn port busw c env)"
    and "dma_linked link (device_on bound conn port) (bridge_on bound conn port busw c env)"
proof -
  have ports: "tcp_port port" "tcp_port (port + 1)" "tcp_port (port + 2)" "tcp_port (port + 3)"
    using assms by (simp_all add: tcp_port_def)
  show "linked link (device_on bound conn port) (bridge_on bound conn port busw c env)"
    using assms ports by (simp add: linked_def device_on_def bridge_on_def link_bound conn_inj)
  show "dma_linked link (device_on bound conn port) (bridge_on bound conn port busw c env)"
    using ports by (simp add: dma_linked_def device_on_def bridge_on_def link_bound conn_inj)
qed

end

section \<open>The configuration handshake\<close>

context zmq_fifo
begin

text \<open>An initialisation request is answered with the configuration, whatever else is waiting.\<close>

lemma C_poll_init:
  assumes "bridge_up d" and "dp_initsock d = Some i" and "dp_initsock2 d = Some j"
    and qi: "q w i = F # rest"
  shows "C_poll L p (d, w) = (Done (p\<lparr>req_type := ACCOp_val NOOP\<rparr>),
    (d, enq (link j) (encode_ACCConf (dp_conf d)) (deq i w)))"
  using assms frame_recv [OF qi]
  by (auto simp: C_poll_def bridge_up_def cprog_simps zmq_laws)

lemma hdl_transaction_init:
  assumes "bridge_up d" and "dp_initsock d = Some i" and "dp_initsock2 d = Some j"
    and "q w i = F # rest"
  shows "hdl_transaction L stk p m (d, w) =
    (Done m, (d, enq (link j) (encode_ACCConf (dp_conf d)) (deq i w)))"
  using C_poll_init [OF assms, of p] by (simp add: hdl_transaction_def cprog_simps)

end

locale cosim_boot = cosim_world L M q enq deq link peer peer' s d stk p hmem set_hmem
    + pci_core L q enq deq link peer bound conn used ev fd_of
  for L :: "('w, 'y) qemu_api_scheme"
    and M :: "('w, 'z) czmq_scheme"
    and q :: "'w \<Rightarrow> nat \<Rightarrow> byte list list"
    and enq :: "nat \<Rightarrow> byte list \<Rightarrow> 'w \<Rightarrow> 'w"
    and deq :: "nat \<Rightarrow> 'w \<Rightarrow> 'w"
    and link :: "nat \<Rightarrow> nat"
    and peer :: "'w \<Rightarrow> 'w"
    and peer' :: "'w \<Rightarrow> 'w"
    and s :: ACCPCIeState
    and d :: dpi_pcie
    and stk :: "byte list"
    and p :: poll_args
    and hmem :: "'w \<Rightarrow> mem"
    and set_hmem :: "mem \<Rightarrow> 'w \<Rightarrow> 'w"
    and bound :: "int \<Rightarrow> nat"
    and conn :: "int \<Rightarrow> nat"
    and used :: "'w \<Rightarrow> int \<Rightarrow> nat"
    and ev :: "'w \<Rightarrow> pci_event list"
    and fd_of :: "nat \<Rightarrow> int"
begin

text \<open>What the receive of the class initialiser finds after the request went out.\<close>

lemma init_response:
  assumes "dp_initsock d = Some (conn i)" and j: "dp_initsock2 d = Some (bound j)"
    and "tcp_port i" "tcp_port j" "i \<noteq> j" and e: "q w (conn i) = []" "q w (conn j) = []"
  shows "\<exists>w'. zframe_recv L (Some (conn j)) (enq (conn i) F w) = (Some (encode_ACCConf (dp_conf d)), w')
    \<and> q w' = q w"
proof -
  let ?w1 = "enq (conn i) F w" and ?C = "encode_ACCConf (dp_conf d)"
  let ?w2 = "set_hmem (hmem ?w1) (enq (conn j) ?C (deq (conn i) ?w1))"
  have ne: "conn i \<noteq> conn j" using assms by (simp add: conn_inj)
  have q1: "q ?w1 = (q w)(conn i := [F])" by (simp add: qemu.q_enq e)
  have qd: "q (deq (conn i) ?w1) = q w"
    using qemu.q_deq [of ?w1 "conn i" F "[]"] q1 e by (simp add: fun_upd_idem)
  have "hdl_transaction M stk p (hmem ?w1) (d, ?w1) = (Done (hmem ?w1), (d, enq (link (bound j)) ?C (deq (conn i) ?w1)))"
    using hdl.hdl_transaction_init [OF up assms(1) j] q1 by simp
  then have "peer ?w1 = ?w2" using peer_serves link_bound assms by simp
  moreover have q2: "q ?w2 = (q w)(conn j := [?C])" by (simp add: hmem_laws qemu.q_enq qd e)
  ultimately have "zframe_recv L (Some (conn j)) ?w1 = zframe_recv L (Some (conn j)) ?w2"
    using qemu.recv_waits [of ?w1 "conn j"] q1 ne e by simp
  also have "\<dots> = (Some ?C, deq (conn j) ?w2)" using q2 by (intro qemu.frame_recv) simp
  finally have "zframe_recv L (Some (conn j)) ?w1 = (Some ?C, deq (conn j) ?w2)" .
  moreover have "q (deq (conn j) ?w2) = q w"
    using qemu.q_deq [of ?w2 "conn j" ?C "[]"] q2 e by (simp add: fun_upd_idem)
  ultimately show ?thesis by blast
qed

lemma class_init_receives_conf:
  assumes g: "log_ok g" and direct: "acc_zmq_warn_ms (log_init_fn L g) \<le> 0"
    and port: "port_string (environ g) = Some str" "atoi str = Some port"
    and p: "tcp_port (port - 1)" "tcp_port (port + 10)"
    and i: "dp_initsock d = Some (conn (port - 1))" and j: "dp_initsock2 d = Some (bound (port + 10))"
    and e: "q w (conn (port - 1)) = []" "q w (conn (port + 10)) = []"
  shows "\<exists>g' w'. acc_pcie_class_init L (g, w) = (Done (), (g', w')) \<and> hdlconf g' = dp_conf d
    \<and> environ g' = environ g \<and> acc_global_txid g' = acc_global_txid g + 1
    \<and> (\<forall>t. t \<noteq> bound (port - 1) \<longrightarrow> t \<noteq> conn (port + 10) \<longrightarrow> q w' t = q w t)"
proof -
  let ?tx = "acc_global_txid g + 1"
  let ?F = "encode_ACCData (replicate 7 0) (init_request ?tx)"
  let ?C = "encode_ACCConf (dp_conf d)"
  let ?dbg = "log_fn L ACC_LOG_DEBUG ''acc_pcie_class_init''"
  let ?g1 = "?dbg 882 (?dbg 875 ((?dbg 863 g)\<lparr>acc_global_txid := ?tx\<rparr>))"
  from init_response [OF i j p _ e, of ?F] obtain w1 where
    w1: "zframe_recv L (Some (conn (port + 10))) (enq (conn (port - 1)) ?F w) = (Some ?C, w1)" "q w1 = q w"
    by auto
  have g1: "log_ok ?g1" by simp
  have "recv_ready L (Some (conn (port + 10))) ?g1 (enq (conn (port - 1)) ?F w) (enq (conn (port - 1)) ?F w)"
    using direct by (simp add: recv_ready_def)
  from recv_logged_eq [OF g1 this] w1 obtain g2 where
    g2: "acc_zframe_recv_logged L (Some (conn (port + 10))) (?g1, enq (conn (port - 1)) ?F w)
       = (Done (Some ?C), (g2, w1))" "same_core L ?g1 g2" "log_ok g2" by auto
  have wf: "wf_ACCConf (dp_conf d)" using up by (simp add: bridge_up_def)
  have C: "\<not> length ?C < sizeof_ACCConf" "decode_ACCConf ?C = dp_conf d"
    using wf conf.dec_enc [of "dp_conf d" "[]"] by simp_all
  let ?g3 = "?dbg 897 (g2\<lparr>hdlconf := dp_conf d\<rparr>)"
  let ?w3 = "zsock_destroy L (Some (conn (port + 10))) (zsock_destroy L (Some (bound (port - 1)))
    (pci_class_setup L (vendor_id (dp_conf d)) (device_id (dp_conf d)) 0x0200 1
       ''PCIe HDL-VM Data Transfer with NIC Support'' w1))"
  have eps: "sock_endpoint SEND_SOCK port (- 1) = Some (SOCK_BASE SEND_SOCK (port - 1))"
    "sock_endpoint RECV_SOCK port 10 = Some (SOCK_BASE RECV_SOCK (port + 10))"
    using endpoint_of_port [of port "- 1" SEND_SOCK] endpoint_of_port [of port 10 RECV_SOCK] p
    by (simp_all add: sock_modes)
  have "class_init_conf L (Some (bound (port - 1))) (Some (conn (port + 10))) (Some ?C) (g2, w1)
      = (Done (), (?g3, ?w3))"
    using C g2(3) by (simp add: class_init_conf_def cprog_simps qemu.zmq_laws del: sizeof_simps)
  then have "acc_pcie_class_init L (g, w) = (Done (), (?g3, ?w3))"
    using g port p g2(1) eps
    by (simp add: acc_pcie_class_init_def cprog_simps qemu.zmq_laws open_push open_pull link_bound)
  moreover have "q ?w3 t = q w t" if "t \<noteq> bound (port - 1)" "t \<noteq> conn (port + 10)" for t
    using that w1(2) by (simp add: sock_close pci_laws)
  moreover have "environ ?g3 = environ g" "acc_global_txid ?g3 = ?tx" "hdlconf ?g3 = dp_conf d"
    using g2(2) by (simp_all add: same_core_def)
  ultimately show ?thesis by blast
qed

end

end
