(* ===== verification/Cosim_Net.thy ===== *)
theory Cosim_Net
  imports Cosim_Boot
begin

text \<open>
  A world in which both processes can run: queues per port, guest memory with its interrupts,
  a memory behind the hardware's bus, and logs of what was sent, registered and closed.  A socket handle is its port number, so that the two
  ends of a connection have the same handle.  While QEMU waits for a response, the hardware
  side serves one transaction with the bridge's own functions.  The interpretations show that
  the contracts of \<^verbatim>\<open>Zmq_Link.thy\<close> and \<^verbatim>\<open>Cosim.thy\<close> hold together here, for the bridge with the
  default parameters of \<^verbatim>\<open>axi4_ip_mod.sv\<close>.
\<close>

record cosim =
  cw_q :: "nat \<Rightarrow> byte list list"
  cw_ram :: mem
  cw_irqs :: "u32 list"
  cw_hmem :: mem
  cw_pkts :: "byte list list"
  cw_chars :: "byte list"
  cw_entries :: int
  cw_used :: "int \<Rightarrow> nat"
  cw_ev :: "pci_event list"
  cw_closed :: "zsock list"
  cw_sent :: "(nat \<times> byte list) list"

definition net_enq :: "nat \<Rightarrow> byte list \<Rightarrow> cosim \<Rightarrow> cosim" where
  "net_enq n f w = w\<lparr>cw_q := (cw_q w)(n := cw_q w n @ [f]), cw_sent := cw_sent w @ [(n, f)]\<rparr>"

definition net_deq :: "nat \<Rightarrow> cosim \<Rightarrow> cosim" where
  "net_deq n w = w\<lparr>cw_q := (cw_q w)(n := tl (cw_q w n))\<rparr>"

definition net_sock :: "string \<Rightarrow> zsock" where
  "net_sock e = map_option nat (atoi (drop 17 e))"

definition net_send :: "zframe \<Rightarrow> zsock \<Rightarrow> int \<Rightarrow> cosim \<Rightarrow> int \<times> cosim" where
  "net_send f s fl w = (case (f, s) of (Some d, Some n) \<Rightarrow> (0, net_enq n d w) | _ \<Rightarrow> (- 1, w))"

definition net_recv :: "(cosim \<Rightarrow> cosim) \<Rightarrow> zsock \<Rightarrow> cosim \<Rightarrow> zframe \<times> cosim" where
  "net_recv peer s w = (case s of None \<Rightarrow> (None, w) | Some n \<Rightarrow>
     (let v = (if cw_q w n = [] then peer w else w) in
      case cw_q v n of [] \<Rightarrow> (None, v) | d # _ \<Rightarrow> (Some d, net_deq n v)))"

definition net_ext :: "(cosim \<Rightarrow> cosim) \<Rightarrow> cosim qemu_api" where
  "net_ext peer = \<lparr>
     zsock_new_push = (\<lambda>e w. (net_sock e, w)), zsock_new_pull = (\<lambda>e w. (net_sock e, w)),
     zsock_destroy = (\<lambda>s w. w\<lparr>cw_closed := cw_closed w @ [s]\<rparr>),
     zframe_new = (\<lambda>d w. (Some d, w)), zframe_send = net_send, zframe_recv = net_recv peer,
     zframe_destroy = (\<lambda>f w. w),
     zpoller_new = (\<lambda>ss w. (Some ss, w)),
     zpoller_wait = (\<lambda>p ms w. ((case p of None \<Rightarrow> None | Some ss \<Rightarrow> first_ready (cw_q w) ss), w)),
     zpoller_expired = (\<lambda>p w. case p of None \<Rightarrow> True | Some ss \<Rightarrow> first_ready (cw_q w) ss = None),
     zpoller_terminated = (\<lambda>p w. False), zpoller_destroy = (\<lambda>p w. w),
     g_ascii_strcasecmp = ascii_casecmp, g_get_monotonic_time = int,
     cpu_physical_memory_read = (\<lambda>a n w. (mem_load (cw_ram w) a n, w)),
     cpu_physical_memory_write = (\<lambda>a bs w. w\<lparr>cw_ram := mem_store (cw_ram w) a bs\<rparr>),
     msix_notify = (\<lambda>v w. w\<lparr>cw_irqs := cw_irqs w @ [v]\<rparr>),
     msix_entries_nr = cw_entries,
     msix_vector_use = (\<lambda>v w. w\<lparr>cw_used := (cw_used w)(v := Suc (cw_used w v))\<rparr>),
     msix_vector_unuse = (\<lambda>v w. w\<lparr>cw_used := (cw_used w)(v := cw_used w v - 1)\<rparr>),
     msix_init = (\<lambda>n tb tbn toff pb pbn poff w. (0, w\<lparr>cw_entries := uint n, cw_used := (\<lambda>_. 0)\<rparr>)),
     msix_uninit = (\<lambda>t p w. w\<lparr>cw_entries := 0\<rparr>), msix_present = (\<lambda>w. 0 < cw_entries w),
     pci_config_write = (\<lambda>a v w. w),
     memory_region_init_io = (\<lambda>n sz w. w\<lparr>cw_ev := cw_ev w @ [Region n sz]\<rparr>),
     pci_register_bar = (\<lambda>i a w. w\<lparr>cw_ev := cw_ev w @ [Bar i a]\<rparr>),
     zmq_getsockopt_fd = (\<lambda>s w. ((case s of None \<Rightarrow> (- 1, 0) | Some n \<Rightarrow> (0, int n)), w)),
     qemu_set_fd_handler = (\<lambda>fd h w. w\<lparr>cw_ev := cw_ev w @ [Watch fd h]\<rparr>),
     qemu_macaddr_default_if_unset = (\<lambda>w. w), qemu_new_nic = (\<lambda>w. w),
     qemu_format_nic_info_str = (\<lambda>w. w), qemu_send_packet = (\<lambda>d w. w\<lparr>cw_pkts := cw_pkts w @ [d]\<rparr>),
     qemu_chr_fe_set_handlers = (\<lambda>w. w), qemu_chr_fe_set_echo = (\<lambda>b w. w),
     qemu_chr_fe_write = (\<lambda>d w. w\<lparr>cw_chars := cw_chars w @ d\<rparr>), pci_class_setup = (\<lambda>v d c r n w. w)\<rparr>"

lemma net_ext_simps [simp]:
  "zframe_new (net_ext peer) d w = (Some d, w)"
  "zframe_send (net_ext peer) = net_send"
  "zframe_recv (net_ext peer) = net_recv peer"
  "zframe_destroy (net_ext peer) f w = w"
  "zpoller_new (net_ext peer) ss w = (Some ss, w)"
  "zpoller_wait (net_ext peer) (Some ss) ms w = (first_ready (cw_q w) ss, w)"
  "zpoller_expired (net_ext peer) (Some ss) w = (first_ready (cw_q w) ss = None)"
  "zpoller_terminated (net_ext peer) p w = False"
  "zpoller_destroy (net_ext peer) p w = w"
  "cpu_physical_memory_read (net_ext peer) a n w = (mem_load (cw_ram w) a n, w)"
  "cpu_physical_memory_write (net_ext peer) a bs w = w\<lparr>cw_ram := mem_store (cw_ram w) a bs\<rparr>"
  "msix_notify (net_ext peer) v w = w\<lparr>cw_irqs := cw_irqs w @ [v]\<rparr>"
  "g_ascii_strcasecmp (net_ext peer) = ascii_casecmp"
  by (simp_all add: net_ext_def)

interpretation net: qemu_host "net_ext peer" cw_q net_enq net_deq "\<lambda>s. s" peer cw_ram cw_irqs
  for peer
  by unfold_locales
    (simp_all add: net_send_def net_recv_def net_enq_def net_deq_def split: list.splits)

interpretation net: nic_host "net_ext peer" cw_q net_enq net_deq "\<lambda>s. s" peer cw_pkts
  for peer
  by unfold_locales (simp_all add: net_ext_def net_deq_def)

interpretation net: serial_host "net_ext peer" cw_q net_enq net_deq "\<lambda>s. s" peer cw_chars
  for peer
  by unfold_locales (simp_all add: net_ext_def net_deq_def)

lemma net_sock_port: "tcp_port p \<Longrightarrow> length m = 1 \<Longrightarrow> net_sock (SOCK_BASE m p) = Some (nat p)"
  by (simp add: net_sock_def SOCK_BASE_def atoi_dec_int tcp_port_def in_int_def)

interpretation net: pci_core "net_ext peer" cw_q net_enq net_deq "\<lambda>s. s" peer nat nat cw_used cw_ev int
  for peer
proof unfold_locales
  fix p :: int and w
  assume p: "tcp_port p"
  then show "zsock_new_push (net_ext peer) (SOCK_BASE SEND_SOCK p) w = (Some (nat p), w)"
    and "zsock_new_pull (net_ext peer) (SOCK_BASE RECV_SOCK p) w = (Some (nat p), w)"
    by (simp_all add: net_ext_def net_sock_port sock_modes)
  fix p' :: int
  assume "tcp_port p'"
  with p show "nat p = nat p' \<longleftrightarrow> p = p'" by (auto simp: tcp_port_def)
qed (simp_all add: net_ext_def quiet_def)

interpretation net: device_life "net_ext peer" cw_q net_enq net_deq "\<lambda>s. s" peer nat nat cw_used cw_ev int
  cw_closed for peer
  by unfold_locales (simp_all add: net_ext_def)

section \<open>The hardware with default parameters\<close>

definition bridge0 :: dpi_pcie where
  "bridge0 = \<lparr>dp_environ = (\<lambda>v. if v = ''NPU_COSIM_PORT'' then Some ''5000'' else None),
     dp_qemu_req = Some 5000, dp_qemu_resp = Some 5001, dp_hdl_req = Some 5002, dp_hdl_resp = Some 5003,
     dp_poller = Some [Some 4999, Some 5000, Some 5003],
     dp_initsock = Some 4999, dp_initsock2 = Some 5010, dp_BUSW = 64,
     dp_conf = \<lparr>bars_conf =
         [\<lparr>is_valid = True, bar_size = 0x20000000, bar_offset = 0xC0000000\<rparr>,
          \<lparr>is_valid = False, bar_size = 2, bar_offset = 0\<rparr>,
          \<lparr>is_valid = True, bar_size = 0x200000, bar_offset = 0x80000000\<rparr>,
          \<lparr>is_valid = False, bar_size = 2, bar_offset = 0\<rparr>,
          \<lparr>is_valid = False, bar_size = 2, bar_offset = 0\<rparr>,
          \<lparr>is_valid = False, bar_size = 2, bar_offset = 0\<rparr>],
       is_64 = True, prefetch = False, device_id = 0xC951, vendor_id = 0x10EE, msix_vec_num = 3,
       msix_table_bar = 0, msix_table_offset = 0x90000, msix_pba_bar = 0, msix_pba_offset = 0x91000\<rparr>\<rparr>"

definition device0 :: ACCPCIeState where
  "device0 = \<lparr>qemu_req = Some 5000, qemu_resp = Some 5001, hdl_req = Some 5002, hdl_resp = Some 5003,
     nic_req = Some 5004, nic_resp = Some 5005, serial_tx_sock = Some 5009, serial_rx_sock = Some 5008\<rparr>"

definition args0 :: poll_args where
  "args0 = \<lparr>req_type = 0, v_addr = 0, v_len = 0, v_size = 0, v_strb = 0, v_data = replicate 4096 0\<rparr>"

definition qemu0 :: qemu where
  "qemu0 = \<lparr>environ = (\<lambda>v. if v = ''NPU_COSIM_PORT'' then Some ''5000'' else None),
     acc_log_inited = False, acc_log_level = 0, acc_zmq_warn_ms = 0, acc_log_t0_us = 0,
     acc_global_txid = 0, hdlconf = dp_conf bridge0, stderr_log = [], clock_reads = 0\<rparr>"

definition world0 :: cosim where
  "world0 = \<lparr>cw_q = (\<lambda>_. []), cw_ram = (\<lambda>_. 0), cw_irqs = [], cw_hmem = (\<lambda>_. 0),
     cw_pkts = [], cw_chars = [], cw_entries = 0, cw_used = (\<lambda>_. 0), cw_ev = [],
     cw_closed = [], cw_sent = []\<rparr>"

definition peer0 :: "cosim \<Rightarrow> cosim" where
  "peer0 w = (case hdl_transaction (net_ext (\<lambda>w. w)) (replicate 4128 0) args0 (cw_hmem w) (bridge0, w) of
       (Done m, (_, w')) \<Rightarrow> w'\<lparr>cw_hmem := m\<rparr> | _ \<Rightarrow> w)"

lemma bridge0_up [simp]: "bridge_up bridge0"
  by (simp add: bridge_up_def bridge0_def wf_ACCConf_def)

lemma device0_linked [simp]: "linked (\<lambda>s. s) device0 bridge0"
  by (simp add: linked_def device0_def bridge0_def)

interpretation sim: cosim_world "net_ext peer0" "net_ext (\<lambda>w. w)" cw_q net_enq net_deq "\<lambda>s. s"
  peer0 "\<lambda>w. w" device0 bridge0 "replicate 4128 0" args0 cw_hmem "\<lambda>m w. w\<lparr>cw_hmem := m\<rparr>"
  by unfold_locales
    (simp_all add: args0_def peer0_def net_enq_def net_deq_def)

interpretation sim: cosim_boot "net_ext peer0" "net_ext (\<lambda>w. w)" cw_q net_enq net_deq "\<lambda>s. s"
  peer0 "\<lambda>w. w" device0 bridge0 "replicate 4128 0" args0 cw_hmem "\<lambda>m w. w\<lparr>cw_hmem := m\<rparr>"
  nat nat cw_used cw_ev int
  by unfold_locales

lemma device0_dma [simp]: "dma_linked (\<lambda>s. s) device0 bridge0"
  by (simp add: dma_linked_def device0_def bridge0_def)

interpretation sim: dma_world "net_ext peer0" "net_ext (\<lambda>w. w)" cw_q net_enq net_deq "\<lambda>s. s"
  peer0 "\<lambda>w. w" cw_ram cw_irqs device0 bridge0
  by unfold_locales simp

text \<open>The network and serial bridges beside it.\<close>

definition nic0 :: dpi_nic where
  "nic0 = \<lparr>dn_environ = (\<lambda>v. if v = ''NPU_COSIM_PORT'' then Some ''5000'' else None),
     dn_nic_req = Some 5004, dn_nic_resp = Some 5005, dn_poller = Some [Some 5004], dn_BUSW = 64\<rparr>"

definition nargs0 :: nic_args where
  "nargs0 = \<lparr>n_req = 0, n_len = 0, n_keep = 0, n_data = replicate 4096 0\<rparr>"

definition uart0 :: dpi_uart where
  "uart0 = \<lparr>du_environ = (\<lambda>v. if v = ''NPU_COSIM_PORT'' then Some ''5000'' else None),
     du_uart_rx = Some 5008, du_uart_tx = Some 5009, du_poller = Some [Some 5008]\<rparr>"

text \<open>The start of every run: idle queues, logging possible, no timed waiting.\<close>

lemma run0 [simp]: "log_ok qemu0" "mmio_idle (\<lambda>_. []) device0 bridge0"
  "acc_zmq_warn_ms (log_init_fn L qemu0) \<le> 0" "one_beat bridge0 0 0x10 4" "cw_q world0 = (\<lambda>_. [])"
  by (simp_all add: log_ok_def qemu0_def env_warn_ms_def mmio_idle_def world0_def log_init_fn_def
      one_beat_def bar_addr_def bridge0_def)

lemma values0 [simp]: "bar_offset (bars_conf (dp_conf bridge0) ! 0) = 0xC0000000"
  "acc_global_txid qemu0 = 0" "cw_hmem world0 = (\<lambda>_. 0)" "cw_ram world0 = (\<lambda>_. 0)" "cw_irqs world0 = []"
  "cw_pkts world0 = []" "cw_chars world0 = []" "cw_ev world0 = []"
  "dp_hdl_req bridge0 = Some 5002" "hdl_resp device0 = Some 5003" "hdl_req device0 = Some 5002"
  "dp_initsock bridge0 = Some 4999" "dp_initsock2 bridge0 = Some 5010" "dp_qemu_req bridge0 = Some 5000"
  "dp_BUSW bridge0 = 64"
  by (simp_all add: bridge0_def qemu0_def world0_def device0_def)

section \<open>What the device has sent\<close>

definition sent_on :: "nat \<Rightarrow> cosim \<Rightarrow> byte list list" where
  "sent_on n w = map snd (filter (\<lambda>x. fst x = n) (cw_sent w))"

lemma sent_on_simps [simp]:
  "sent_on n (net_enq m f w) = sent_on n w @ (if m = n then [f] else [])"
  "sent_on n (net_deq m w) = sent_on n w" "sent_on n (w\<lparr>cw_hmem := h\<rparr>) = sent_on n w"
  by (simp_all add: sent_on_def net_enq_def net_deq_def)

text \<open>The bridge sends on its own sockets only, so the request socket of the device is its own.\<close>

lemma bridge0_sends: "keepsC (\<lambda>(g, w). g = bridge0 \<and> sent_on 5000 w = fs) (hdl_transaction (net_ext (\<lambda>w. w)) stk p m)"
  unfolding hdl_transaction_def C_poll_def recv_ACCData_def C_resp_read_def C_resp_write_def send_ACCData_def
  by (rule keeps_proc_rules
     | fastforce simp: net_send_def net_recv_def bridge0_def split: option.splits list.splits)+

lemma peer0_sends: "sent_on 5000 (peer0 w) = sent_on 5000 w"
proof -
  obtain r d' w' where run: "hdl_transaction (net_ext (\<lambda>w. w)) (replicate 4128 0) args0 (cw_hmem w) (bridge0, w)
      = (r, (d', w'))" by (metis prod.exhaust)
  have "sent_on 5000 w' = sent_on 5000 w"
    using keepsCD [OF bridge0_sends [of "sent_on 5000 w" "replicate 4128 0" args0 "cw_hmem w"], of "(bridge0, w)"]
    by (simp add: run)
  then show ?thesis unfolding peer0_def run by (cases r) simp_all
qed

interpretation req: request_log "net_ext peer0" device0 "sent_on 5000"
  by unfold_locales
    (simp_all add: device0_def net_send_def net_recv_def peer0_sends Let_def split: list.split)

end
