(* ===== verification/Host_Properties.thy ===== *)
theory Host_Properties
  imports Cosim_Net
begin

text \<open>
  Properties of the QEMU device on its own: the ids of its messages, logging, the logged receive,
  MSI-X, start-up errors, failed accesses and oversized packets.  The witnesses run the definitions on the
  concrete world of \<^verbatim>\<open>Cosim_Net.thy\<close>.
\<close>

section \<open>Logging and ids\<close>

text \<open>
  C25: a run of up to \<open>2 ^ 32\<close> guest accesses, reads and writes in any order, returns and has sent one
  message per access, in their order, with pairwise distinct ids, although the counter has 64 bits
  and the id field of a message keeps only its low half.
\<close>

theorem message_ids_distinct:
  assumes "request_log L s sent" and "log_ok g" and "acc_zmq_warn_ms (log_init_fn L g) \<le> 0"
    and "length ops \<le> 2 ^ 32"
  shows "\<exists>vs g' w' fs. run_mmio L s ops (g, w) = (Done vs, (g', w')) \<and> sent w' = sent w @ fs
    \<and> map (\<lambda>f. address (decode_ACCData f)) fs = map mmio_address ops
    \<and> distinct (map (\<lambda>f. acc_id (decode_ACCData f)) fs)"
proof -
  have "distinct (map (\<lambda>f. acc_id (decode_ACCData f)) (mmio_frames (acc_global_txid g) ops))"
    unfolding mmio_frames_ids using ids_distinct [OF assms(4)] .
  then show ?thesis
    using request_log.run_mmio_sends [OF assms(1-3)] mmio_frames_address by blast
qed

theorem message_ids_distinct_witness:
  "\<exists>vs g' w' fs. run_mmio (net_ext peer0) device0 [Mmio_write 0 16 7 4, Mmio_read 0 16 4, Mmio_read 2 8 8] (qemu0, world0)
      = (Done vs, (g', w')) \<and> sent_on 5000 w' = fs
    \<and> map (\<lambda>f. address (decode_ACCData f)) fs = [16, 16, 8]
    \<and> distinct (map (\<lambda>f. acc_id (decode_ACCData f)) fs)"
  using message_ids_distinct [OF req.request_log_axioms run0(1,3),
      of "[Mmio_write 0 16 7 4, Mmio_read 0 16 4, Mmio_read 2 8 8]" world0]
  by (simp add: sent_on_def world0_def)

text \<open>
  C27: a log call always returns and writes at most one line: exactly when the level in force (the
  one already set, or the one read from the environment on the first call) is not OFF and at
  least the level of the message.  Nothing outside the log changes.
\<close>

theorem log_line_iff_enabled:
  assumes "log_ok g"
    and "cur = (if acc_log_inited g then acc_log_level g
          else env_log_level L (environ g ''ACCELERATOR_LOG_LEVEL'') (environ g ''ACCELERATOR_DEBUG''))"
  shows "\<exists>g' ms. acc_log L level func line (g, w) = (Done (), (g', w))
    \<and> stderr_log g' = stderr_log g @ (if level \<le> cur \<and> cur \<noteq> ACC_LOG_OFF
          then [Acc_line (acc_log_level_str level) ms func line] else [])
    \<and> acc_log_level g' = cur \<and> acc_global_txid g' = acc_global_txid g \<and> hdlconf g' = hdlconf g"
proof -
  have "acc_log_level (log_init_fn L g) = cur" using assms(2) by (simp add: log_init_fn_def)
  then show ?thesis using assms(1)
    by (auto simp: acc_log_eq log_fn_def Let_def)
qed

theorem log_line_iff_enabled_witness:
  "\<exists>g' ms. acc_log (net_ext peer0) 1 ''f'' 7 (qemu0, world0) = (Done (), (g', world0))
    \<and> stderr_log g' = [Acc_line ''ERROR'' ms ''f'' 7] \<and> acc_log_level g' = 1
    \<and> acc_global_txid g' = 0 \<and> hdlconf g' = hdlconf qemu0"
  using log_line_iff_enabled [of qemu0 1 "net_ext peer0" 1 "''f''" 7 world0]
  by (simp add: log_ok_def qemu0_def env_warn_ms_def env_log_level_def acc_log_level_str_def)

text \<open>
  C28: the level names the log prints are read back as the same levels, whatever the case of their
  letters, given what GLib documents of its comparison.
\<close>

theorem loglevel_parse_print:
  assumes "casecmp_spec (g_ascii_strcasecmp L)" and "l \<in> {0, 1, 2, 3, 4, 5}"
    and "map ascii_lower s = map ascii_lower (acc_log_level_str l)"
  shows "acc_parse_loglevel L (Some s) = l"
proof -
  have "s \<noteq> []" "acc_log_level_str l \<noteq> []" using assms(2,3) by (auto simp: acc_log_level_str_def)
  moreover have "g_ascii_strcasecmp L s t = 0 \<longleftrightarrow> g_ascii_strcasecmp L (acc_log_level_str l) t = 0" for t
    using assms(1,3) by (simp add: casecmp_spec_def)
  ultimately have "acc_parse_loglevel L (Some s) = acc_parse_loglevel L (Some (acc_log_level_str l))"
    by (simp add: acc_parse_loglevel_def)
  with assms(2) parse_level_str [OF assms(1)] show ?thesis by auto
qed

theorem loglevel_parse_print_witness: "acc_parse_loglevel (net_ext peer0) (Some ''Debug'') = 4"
proof (rule loglevel_parse_print)
  show "map ascii_lower ''Debug'' = map ascii_lower (acc_log_level_str 4)" by code_simp
qed simp_all

text \<open>
  C29: the first use of the log reads the environment, and later uses change nothing.
  \<open>ACCELERATOR_LOG_LEVEL\<close> wins: its level is the one it names, in any case of letters, and ERROR for
  every other text.  Without it, \<open>ACCELERATOR_DEBUG\<close> absent or 0 means ERROR, a level above ERROR
  means that level, and any other text DEBUG.  A decimal \<open>ACCELERATOR_ZMQ_WARN_MS\<close> is the interval
  for warnings, a negative one turns them off.
\<close>

theorem environment_sets_log_level:
  assumes "casecmp_spec (g_ascii_strcasecmp L)" and "\<not> acc_log_inited g"
    and "environ g ''ACCELERATOR_ZMQ_WARN_MS'' = map_option dec_int n" and "n = None \<or> in_int (the n)"
    and "lvl = environ g ''ACCELERATOR_LOG_LEVEL''" and "dbg = environ g ''ACCELERATOR_DEBUG''"
  shows "\<exists>g'. acc_log_init L (g, w) = (Done (), (g', w)) \<and> acc_log_init L (g', w) = (Done (), (g', w))
    \<and> (lvl \<noteq> None \<longrightarrow> acc_log_level g' = (case level_named (the lvl) of None \<Rightarrow> ACC_LOG_ERROR | Some l \<Rightarrow> l))
    \<and> (lvl = None \<and> (dbg = None \<or> dbg = Some ''0'') \<longrightarrow> acc_log_level g' = ACC_LOG_ERROR)
    \<and> (lvl = None \<and> dbg \<noteq> None \<and> dbg \<noteq> Some ''0'' \<longrightarrow>
         acc_log_level g' = (if level_named (the dbg) \<in> Some ` {2..5} then the (level_named (the dbg)) else ACC_LOG_DEBUG))
    \<and> acc_zmq_warn_ms g' = (case n of None \<Rightarrow> 0 | Some k \<Rightarrow> max 0 k)
    \<and> stderr_log g' = stderr_log g \<and> acc_global_txid g' = acc_global_txid g \<and> hdlconf g' = hdlconf g"
proof -
  let ?g = "log_init_fn L g"
  have ms: "env_warn_ms (environ g ''ACCELERATOR_ZMQ_WARN_MS'') = Some (case n of None \<Rightarrow> 0 | Some k \<Rightarrow> max 0 k)"
    using assms(3,4) by (cases n) (auto simp: env_warn_ms_def atoi_dec_int dec_int_nonempty)
  then have "log_ok g" by (simp add: log_ok_def)
  then have init: "acc_log_init L (g, w) = (Done (), (?g, w))" "acc_log_init L (?g, w) = (Done (), (?g, w))"
    by (simp_all add: cprog_simps)
  have level: "acc_log_level ?g = env_log_level L lvl dbg" "acc_zmq_warn_ms ?g = (case n of None \<Rightarrow> 0 | Some k \<Rightarrow> max 0 k)"
    using assms(2,5,6) ms by (simp_all add: log_init_fn_def)
  have range: "l \<in> {0..5}" if "level_named s = Some l" for s l
    using that by (auto simp: level_named_def split: if_splits)
  note parse = parse_level_table [OF assms(1)]
  have "lvl \<noteq> None \<longrightarrow> env_log_level L lvl dbg = (case level_named (the lvl) of None \<Rightarrow> ACC_LOG_ERROR | Some l \<Rightarrow> l)"
    by (auto simp: env_log_level_def parse)
  moreover have "lvl = None \<and> dbg \<noteq> None \<and> dbg \<noteq> Some ''0'' \<longrightarrow> env_log_level L lvl dbg =
      (if level_named (the dbg) \<in> Some ` {2..5} then the (level_named (the dbg)) else ACC_LOG_DEBUG)"
  proof (intro impI)
    assume "lvl = None \<and> dbg \<noteq> None \<and> dbg \<noteq> Some ''0''"
    then obtain y where "lvl = None" "dbg = Some y" "y \<noteq> ''0''" by auto
    with range [of y] show "env_log_level L lvl dbg =
        (if level_named (the dbg) \<in> Some ` {2..5} then the (level_named (the dbg)) else ACC_LOG_DEBUG)"
      by (cases "level_named y") (auto simp: env_log_level_def parse Let_def)
  qed
  moreover have "lvl = None \<and> (dbg = None \<or> dbg = Some ''0'') \<longrightarrow> env_log_level L lvl dbg = ACC_LOG_ERROR"
    by (auto simp: env_log_level_def)
  ultimately show ?thesis using init level by (intro exI [of _ ?g]) simp
qed

theorem environment_sets_log_level_witness:
  "\<exists>g'. acc_log_init (net_ext peer0) (qemu0\<lparr>environ := [''ACCELERATOR_DEBUG'' \<mapsto> ''Info'',
      ''ACCELERATOR_ZMQ_WARN_MS'' \<mapsto> dec_int 250]\<rparr>, world0) = (Done (), (g', world0))
    \<and> acc_log_level g' = 3 \<and> acc_zmq_warn_ms g' = 250"
proof -
  let ?g = "qemu0\<lparr>environ := [''ACCELERATOR_DEBUG'' \<mapsto> ''Info'', ''ACCELERATOR_ZMQ_WARN_MS'' \<mapsto> dec_int 250]\<rparr>"
  have "map ascii_lower ''Info'' = ''info''" by code_simp
  then have "level_named ''Info'' = Some 3" by (simp only: level_named_def) simp
  moreover have "\<not> acc_log_inited ?g" "in_int 250" by (simp_all add: qemu0_def in_int_def)
  ultimately show ?thesis
    using environment_sets_log_level [of "net_ext peer0" ?g "Some 250" None "Some ''Info''" world0] by auto
qed

section \<open>The logged receive\<close>

text \<open>
  C20: with a warning interval set, the receive waits through any finite number of timeouts,
  writes one warning for each (if warnings are shown), and then returns what the socket has.
\<close>

theorem recv_waits_and_warns:
  assumes "acc_log_inited g" and "0 < acc_zmq_warn_ms g"
    and "zpoller_new L [sock] w = (Some ss, w1)"
    and "ready_after L (Some ss) sock (acc_zmq_warn_ms g) k w1"
    and "zframe_recv L sock (zpoller_destroy L (Some ss) (waited L (Some ss) (acc_zmq_warn_ms g) k w1)) = (f, w2)"
  shows "\<exists>g'. acc_zframe_recv_logged L sock (g, w) = (Done f, (g', w2))
    \<and> warn_count g' = warn_count g + (if ACC_LOG_WARN \<le> acc_log_level g then k else 0)"
proof -
  let ?ms = "acc_zmq_warn_ms g" and ?g1 = "g\<lparr>clock_reads := Suc (clock_reads g)\<rparr>"
  have "acc_log_inited ?g1" "acc_zmq_warn_ms ?g1 = ?ms" using assms(1) by simp_all
  from recv_wait_loop [OF this assms(4)] obtain g2 where
    loop: "loopC (recv_wait_round L (Some ss) sock) (?g1, w1) = (Done True, (g2, waited L (Some ss) ?ms k w1))"
    and g2: "acc_log_inited g2" "warn_count g2 = warn_count ?g1 + warn_lines ?g1 k" by blast
  have ok: "log_ok g" "log_ok g2" using assms(1) g2(1) by (simp_all add: log_ok_def)
  have "warn_count (log_fn L l fn n g2) = warn_count g2" if "l = ACC_LOG_ERROR \<or> l = ACC_LOG_DEBUG" for l fn n
    using that g2(1) by (auto simp: log_fn_def warn_count_def acc_log_level_str_def Let_def)
  with assms loop ok g2 show ?thesis
    by (cases f) (simp_all add: acc_zframe_recv_logged_def cprog_simps warn_count_def warn_lines_def)
qed

text \<open>A poller that answers on the third wait, for the evaluation.\<close>

definition slow_ext :: "cosim qemu_api" where
  "slow_ext = (net_ext (\<lambda>w. w))\<lparr>
     zpoller_wait := (\<lambda>p ms w. if cw_entries w < 2 then (None, w\<lparr>cw_entries := cw_entries w + 1\<rparr>)
                              else (Some 5001, w)),
     zpoller_expired := (\<lambda>p w. cw_entries w < 2)\<rparr>"

definition slow_g :: qemu where
  "slow_g = qemu0\<lparr>acc_log_inited := True, acc_log_level := 2, acc_zmq_warn_ms := 100\<rparr>"

definition slow_w :: cosim where
  "slow_w = world0\<lparr>cw_q := (\<lambda>_. [])(5001 := [[7]])\<rparr>"

theorem recv_waits_and_warns_witness:
  "\<exists>g'. acc_zframe_recv_logged slow_ext (Some 5001) (slow_g, slow_w)
      = (Done (Some [7]), (g', world0\<lparr>cw_entries := 2\<rparr>)) \<and> warn_count g' = Suc (Suc 0)"
proof -
  have "ready_after slow_ext (Some [Some 5001]) (Some 5001) 100 2 slow_w"
    by (simp add: numeral_2_eq_2 slow_ext_def slow_w_def world0_def)
  moreover have "zframe_recv slow_ext (Some 5001)
      (zpoller_destroy slow_ext (Some [Some 5001]) (waited slow_ext (Some [Some 5001]) 100 2 slow_w))
    = (Some [7], world0\<lparr>cw_entries := 2\<rparr>)"
    by (simp add: numeral_2_eq_2 slow_ext_def slow_w_def world0_def net_recv_def net_deq_def fun_eq_iff)
  moreover have "zpoller_new slow_ext [Some 5001] slow_w = (Some [Some 5001], slow_w)"
    by (simp add: slow_ext_def)
  moreover have "acc_log_inited slow_g" "acc_zmq_warn_ms slow_g = 100" "acc_log_level slow_g = 2"
    "warn_count slow_g = 0"
    by (simp_all add: slow_g_def qemu0_def warn_count_def)
  ultimately show ?thesis
    using recv_waits_and_warns [of slow_g slow_ext "Some 5001" slow_w "[Some 5001]" slow_w 2] by simp
qed

text \<open>
  C21: if the peer never answers and the poller is never terminated, the receive does not return:
  the device, and with it the guest's access, hangs.
\<close>

theorem recv_hangs_without_answer:
  assumes "acc_log_inited g" and "0 < acc_zmq_warn_ms g"
    and "zpoller_new L [sock] w = (Some ss, w1)" and "I w1"
    and "\<And>v. I v \<Longrightarrow> I (snd (zpoller_wait L (Some ss) (acc_zmq_warn_ms g) v))
           \<and> zpoller_expired L (Some ss) (snd (zpoller_wait L (Some ss) (acc_zmq_warn_ms g) v))
           \<and> \<not> zpoller_terminated L (Some ss) (snd (zpoller_wait L (Some ss) (acc_zmq_warn_ms g) v))"
  shows "fst (acc_zframe_recv_logged L sock (g, w)) = Diverges"
proof -
  let ?ms = "acc_zmq_warn_ms g" and ?g1 = "g\<lparr>clock_reads := Suc (clock_reads g)\<rparr>"
  let ?J = "\<lambda>(g', v). acc_log_inited g' \<and> acc_zmq_warn_ms g' = ?ms \<and> I v"
  have ok: "log_ok g'" if "acc_log_inited g'" for g' using that by (simp add: log_ok_def)
  have "\<exists>st'. recv_wait_round L (Some ss) sock st = (Done None, st') \<and> ?J st'" if J: "?J st" for st
  proof -
    obtain g1 v where st: "st = (g1, v)" by (cases st)
    with J have g1: "acc_log_inited g1" "acc_zmq_warn_ms g1 = ?ms" and v: "I v" by auto
    from assms(5) [OF v] ok [OF g1(1)] g1 show ?thesis
      by (simp add: st recv_wait_round_def cprog_simps)
  qed
  moreover have "?J (?g1, w1)" using assms by simp
  ultimately have "loopC (recv_wait_round L (Some ss) sock) (?g1, w1) = (Diverges, (?g1, w1))"
    by (rule loopC_diverges [of ?J])
  with assms ok [OF assms(1)] show ?thesis by (simp add: acc_zframe_recv_logged_def cprog_simps)
qed

theorem recv_hangs_without_answer_witness:
  "fst (acc_zframe_recv_logged (net_ext (\<lambda>w. w)) (Some 5001)
     (qemu0\<lparr>acc_log_inited := True, acc_zmq_warn_ms := 100\<rparr>, world0)) = Diverges"
  by (rule recv_hangs_without_answer [of _ _ _ _ "[Some 5001]" world0 "\<lambda>v. cw_q v 5001 = []"])
    (simp_all add: world0_def)

section \<open>MSI-X\<close>

text \<open>
  C23: \<open>acc_use_msix_vectors\<close> is all or nothing: if the table has enough entries every vector's use
  count goes up by one and the result is true, else the counts are as before and it is false.
\<close>

theorem msix_use_all_or_none:
  assumes "msix_core L used" and "log_ok g" and "0 \<le> n" and "0 \<le> msix_entries_nr L w"
  shows "\<exists>g' w'. acc_use_msix_vectors L n (g, w) = (Done (n \<le> msix_entries_nr L w), (g', w'))
    \<and> (n \<le> msix_entries_nr L w \<longrightarrow>
         used w' = (\<lambda>v. if 0 \<le> v \<and> v < n then Suc (used w v) else used w v))
    \<and> (\<not> n \<le> msix_entries_nr L w \<longrightarrow> used w' = used w)"
  using msix_core.use_msix_all_or_none [OF assms] by (elim exE conjE) auto

theorem msix_use_all_or_none_witness:
  "\<exists>g' w'. acc_use_msix_vectors (net_ext peer0) 3 (qemu0, world0\<lparr>cw_entries := 2\<rparr>) = (Done False, (g', w'))
    \<and> cw_used w' = (\<lambda>_. 0)"
  using msix_use_all_or_none [OF net.msix_core_axioms [of peer0], of qemu0 3 "world0\<lparr>cw_entries := 2\<rparr>"]
  by (auto simp: net_ext_def log_ok_def qemu0_def env_warn_ms_def world0_def)

text \<open>
  C24: after a successful MSI-X initialisation every vector the hardware may raise is in use
  exactly once, and cleanup has given all of them back when the tables are released.
\<close>

theorem msix_init_cleanup_balanced:
  assumes core: "msix_core L used" and g: "log_ok g"
    and bars: "unat (msix_table_bar (hdlconf g)) < 6" "unat (msix_pba_bar (hdlconf g)) < 6"
    and init: "\<And>n tb tbn toff pb pbn poff. 0 \<le> fst (msix_init L n tb tbn toff pb pbn poff w)"
    and present: "\<And>v. msix_entries_nr L v = uint (msix_vec_num (hdlconf g)) \<Longrightarrow> msix_present L v"
  shows "\<exists>g1 w1 g2 w2. acc_init_msix L (g, w) = (Done (), (g1, w1))
    \<and> (\<forall>v. used w1 v = (if 0 \<le> v \<and> v < uint (msix_vec_num (hdlconf g)) then 1 else 0))
    \<and> acc_cleanup_msix L (g1, w1) = (Done (), (g2, msix_uninit L (unat (msix_table_bar (hdlconf g)))
         (unat (msix_pba_bar (hdlconf g))) w2))
    \<and> used w2 = (\<lambda>_. 0)"
proof -
  let ?c = "hdlconf g" and ?n = "uint (msix_vec_num (hdlconf g))"
  obtain res w0 where i: "msix_init L (msix_vec_num ?c) (unat (msix_table_bar ?c))
      (ucast (msix_table_bar ?c)) (ucast (msix_table_offset ?c)) (unat (msix_pba_bar ?c))
      (ucast (msix_pba_bar ?c)) (ucast (msix_pba_offset ?c)) w = (res, w0)" by force
  with init have "0 \<le> res" by (metis fst_conv)
  from msix_core.init_msix_uses [OF core g bars i this] obtain g1 w1 where
    1: "acc_init_msix L (g, w) = (Done (), (g1, w1))" "used w1 = (\<lambda>v. if 0 \<le> v \<and> v < ?n then 1 else 0)"
      "msix_entries_nr L w1 = ?n" "log_ok g1" "same_core L g g1" by blast
  have c: "hdlconf g1 = ?c" using 1(5) by (simp add: same_core_def)
  from msix_core.cleanup_msix_returns [OF core 1(4), of w1] bars present 1(3) obtain g2 w2 where
    2: "acc_cleanup_msix L (g1, w1) = (Done (), (g2, msix_uninit L (unat (msix_table_bar ?c))
         (unat (msix_pba_bar ?c)) w2))"
      "used w2 = (\<lambda>v. if 0 \<le> v \<and> v < ?n then used w1 v - 1 else used w1 v)"
    unfolding c by auto
  from 2(2) 1(2) have "used w2 = (\<lambda>_. 0)" by (simp add: fun_eq_iff)
  with 1(1,2) 2(1) show ?thesis by (intro exI conjI) auto
qed

theorem msix_init_cleanup_balanced_witness:
  "\<exists>g1 w1 g2 w2. acc_init_msix (net_ext peer0) (qemu0, world0) = (Done (), (g1, w1))
    \<and> cw_used w1 2 = 1 \<and> cw_used w1 3 = 0
    \<and> acc_cleanup_msix (net_ext peer0) (g1, w1) = (Done (), (g2, msix_uninit (net_ext peer0) 0 0 w2))
    \<and> cw_used w2 = (\<lambda>_. 0)"
proof -
  have c: "hdlconf qemu0 = dp_conf bridge0" "msix_vec_num (dp_conf bridge0) = 3"
    "msix_table_bar (dp_conf bridge0) = 0" "msix_pba_bar (dp_conf bridge0) = 0"
    by (simp_all add: qemu0_def bridge0_def)
  have "log_ok qemu0" by (simp add: log_ok_def qemu0_def env_warn_ms_def)
  then have "\<exists>g1 w1 g2 w2. acc_init_msix (net_ext peer0) (qemu0, world0) = (Done (), (g1, w1))
    \<and> (\<forall>v. cw_used w1 v = (if 0 \<le> v \<and> v < 3 then 1 else 0))
    \<and> acc_cleanup_msix (net_ext peer0) (g1, w1) = (Done (), (g2, msix_uninit (net_ext peer0) 0 0 w2))
    \<and> cw_used w2 = (\<lambda>_. 0)"
    using msix_init_cleanup_balanced [OF net.msix_core_axioms [of peer0], of qemu0 world0]
    by (simp add: c net_ext_def)
  then show ?thesis by fastforce
qed

section \<open>Errors\<close>

text \<open>
  C31: without a base port in the environment, or with an empty one, the class initialiser exits
  with status 1 before any message is sent, and realisation reports an error and changes nothing.
\<close>

theorem missing_port_reported:
  assumes "log_ok g" and "environ g ''NPU_COSIM_PORT'' = None \<or> environ g ''NPU_COSIM_PORT'' = Some []"
  shows "\<exists>g'. acc_pcie_class_init L (g, w) = (Exited 1, (g', w)) \<and> hdlconf g' = hdlconf g
    \<and> acc_pcie_realize L (g, w) = (Done (Inl ''NPU_COSIM_PORT environment variable not set''), (g, w))"
proof -
  have "port_string (environ g) = None" using assms(2) by (auto simp: port_string_def)
  with assms(1) show ?thesis
    by (simp add: acc_pcie_class_init_def acc_pcie_realize_def cprog_simps)
qed

theorem missing_port_reported_witness:
  "\<exists>g'. acc_pcie_class_init (net_ext peer0) (qemu0\<lparr>environ := (\<lambda>_. None)\<rparr>, world0) = (Exited 1, (g', world0))
    \<and> hdlconf g' = dp_conf bridge0
    \<and> acc_pcie_realize (net_ext peer0) (qemu0\<lparr>environ := (\<lambda>_. None)\<rparr>, world0)
      = (Done (Inl ''NPU_COSIM_PORT environment variable not set''), (qemu0\<lparr>environ := (\<lambda>_. None)\<rparr>, world0))"
proof -
  have "log_ok (qemu0\<lparr>environ := (\<lambda>_. None)\<rparr>)" "hdlconf qemu0 = dp_conf bridge0"
    by (simp_all add: log_ok_def qemu0_def env_warn_ms_def)
  with missing_port_reported [of "qemu0\<lparr>environ := (\<lambda>_. None)\<rparr>" "net_ext peer0" world0]
  show ?thesis by simp
qed

text \<open>
  C32: a configuration frame that is missing or shorter than the structure ends the process with
  status 1 and leaves the configuration as it was.
\<close>

theorem bad_configuration_rejected:
  assumes "log_ok g" and "frame = None \<or> length (the frame) < sizeof_ACCConf"
  shows "\<exists>g'. class_init_conf L i j frame (g, w) = (Exited 1, (g', w)) \<and> hdlconf g' = hdlconf g"
  using assms by (cases frame) (simp_all add: class_init_conf_def cprog_simps)

theorem bad_configuration_rejected_witness:
  "\<exists>g'. class_init_conf (net_ext peer0) (Some 1) (Some 2) (Some [1, 2, 3]) (qemu0, world0)
      = (Exited 1, (g', world0)) \<and> hdlconf g' = hdlconf qemu0"
  by (rule bad_configuration_rejected) (simp_all add: log_ok_def qemu0_def env_warn_ms_def)

text \<open>
  C30: a guest read for which no response, or one that is too short, comes back yields 0 and the
  device stays usable.
\<close>

theorem failed_read_is_zero:
  assumes "log_ok g"
    and "exchanged L s g (mmio_read_request num addr sz (acc_global_txid g + 1)) w resp w'"
    and "resp = None \<or> length (the resp) < sizeof_ACCData"
  shows "\<exists>g' w''. mmio_read_bar L num s addr sz (g, w) = (Done 0, (g', w'')) \<and> log_ok g'"
proof -
  have "response_value sz resp = 0" using assms(3) by (cases resp) (simp_all add: response_value_def)
  with mmio_read_bar_eq [OF assms(1,2)] show ?thesis by auto
qed

theorem failed_read_is_zero_witness:
  "\<exists>g' w''. mmio_read_bar (net_ext (\<lambda>w. w)) 0 device0 16 4 (qemu0, world0) = (Done 0, (g', w'')) \<and> log_ok g'"
proof (rule failed_read_is_zero)
  show "exchanged (net_ext (\<lambda>w. w)) device0 qemu0 (mmio_read_request 0 16 4 (acc_global_txid qemu0 + 1))
      world0 None (snd (net_send (Some (encode_ACCData (replicate 7 0)
        (mmio_read_request 0 16 4 (acc_global_txid qemu0 + 1)))) (Some 5000) 0 world0))"
    by (simp add: exchanged_def recv_ready_def device0_def log_init_fn_def qemu0_def env_warn_ms_def
        net_send_def net_recv_def net_enq_def world0_def)
qed (simp_all add: log_ok_def qemu0_def env_warn_ms_def)

text \<open>
  C40: a packet longer than the 4096 bytes of the message's array is copied without a check, which
  is undefined; nothing is sent first.
\<close>

theorem long_packet_undefined:
  assumes "BUFF_SIZE < length buf"
  shows "net_rx_packet L s buf (g, w) = (Undefined, (g, w))"
  using assms
  by (simp add: net_rx_packet_def net_rx_request_def memcpy_def zero_ACCNICData_def cprog_simps)

theorem long_packet_undefined_witness:
  "net_rx_packet (net_ext peer0) device0 (replicate 4097 0) (qemu0, world0) = (Undefined, (qemu0, world0))"
  by (rule long_packet_undefined) simp

end
