(* ===== verification/Spec2Isabelle.thy ===== *)
theory Spec2Isabelle
  imports Host_Properties
begin

text \<open>
  QEMU-HDL co-simulation: a PCIe device in QEMU and a simulated piece of hardware run as two
  processes and talk over ZeroMQ sockets.  This development models all C code of the repository
  and proves what the two processes do together.

  \<^bold>\<open>The program.\<close>  \<^verbatim>\<open>accelerator_pcie.c\<close> is the QEMU device.  When its class is initialised it asks
  the hardware for its configuration (BARs, identifiers, MSI-X); when it is realised it registers
  the BARs, opens eight sockets and hooks callbacks into QEMU's main loop.  A guest access to a BAR
  becomes one message and blocks until the answer arrives.  In the other direction
  \<open>handle_hdl_request\<close> serves the hardware's accesses to guest memory and its interrupts, and the
  network and serial callbacks move packets and characters.  \<^verbatim>\<open>acc.h\<close> is the protocol.  The three
  DPI bridges \<^verbatim>\<open>dpi-pcie.c\<close>, \<^verbatim>\<open>dpi-nic.c\<close> and \<^verbatim>\<open>dpi-uart.c\<close> are the C side of the simulated hardware: they
  poll the sockets, translate BAR addresses, compute bursts, strobes and byte enables, and send
  the hardware's requests and answers.

  \<^bold>\<open>The theories.\<close>
  \<^item> \<^verbatim>\<open>Cosim_Prelude\<close>: outcomes of C functions (return, exit, abort, undefined behaviour, divergence),
    state-passing programs, the \<open>while (1)\<close> loop with its laws, little-endian bytes, \<open>memcpy\<close>, bits.
  \<^item> \<^verbatim>\<open>Acc_Protocol\<close>, \<^verbatim>\<open>Acc_Endpoints\<close>: \<^verbatim>\<open>acc.h\<close>; structures with their x86-64 images (locale
    \<open>wire_struct\<close>), ports and endpoint strings, \<open>atoi\<close> and \<open>%d\<close>.
  \<^item> \<^verbatim>\<open>Cosim_Ext\<close>, \<^verbatim>\<open>Zmq_Link\<close>, \<^verbatim>\<open>Axi_Memory\<close>: CZMQ, QEMU and GLib as parameters over an arbitrary world,
    what is relied on of them as locales (\<open>zmq_fifo\<close>, \<open>zmq_ports\<close>, \<open>qemu_host\<close>), memory and AXI beats
    as specifications.
  \<^item> \<^verbatim>\<open>Acc_Log\<close>, \<^verbatim>\<open>Acc_Mmio\<close>, \<^verbatim>\<open>Acc_Hdl_Request\<close>, \<^verbatim>\<open>Acc_Net\<close>, \<^verbatim>\<open>Acc_Msix\<close>, \<^verbatim>\<open>Acc_Device\<close>: the parts of
    \<^verbatim>\<open>accelerator_pcie.c\<close> in the order of the file; the record \<open>qemu\<close> is its static variables,
    \<open>ACCPCIeState\<close> the channels of the device.  \<open>run_mmio\<close> is a run of guest accesses, the locale
    \<open>request_log\<close> observes the messages it sends.
  \<^item> \<^verbatim>\<open>Dpi_Pcie\<close>, \<^verbatim>\<open>Dpi_Nic\<close>, \<^verbatim>\<open>Dpi_Uart\<close>: the bridges; records \<open>dpi_pcie\<close>, \<open>dpi_nic\<close>, \<open>dpi_uart\<close> are their
    globals, the records \<open>poll_args\<close> and \<open>nic_args\<close> the output arguments of the polling functions.
    \<open>C_setup_pcie_connection\<close> is the sequence of its three parts: \<open>setup_conf\<close>, \<open>setup_report\<close> (the
    output, of which the undefined shift in an argument is kept), \<open>setup_sockets\<close>.
  \<^item> \<^verbatim>\<open>Cosim\<close>, \<^verbatim>\<open>Cosim_Dma\<close>, \<^verbatim>\<open>Cosim_Boot\<close>: both processes together: guest accesses (locale
    \<open>cosim_world\<close>) and the reference memory \<open>mem_run\<close> for runs of them, accesses of the hardware
    (\<open>dma_world\<close>), start-up (\<open>pci_core\<close>, \<open>cosim_boot\<close>) and shutdown (\<open>device_life\<close>).
  \<^item> \<^verbatim>\<open>Cosim_Net\<close>: a concrete world with queues, guest memory, interrupts, packets, a memory behind
    the bus and logs of what was sent, registered and closed, in which every locale is interpreted with the model's own definitions; while QEMU
    waits, the bridge's functions run there.
  \<^item> \<^verbatim>\<open>Host_Properties\<close> and this theory: the properties.

  \<^bold>\<open>How code becomes definitions.\<close>  A function is a program on a pair of the process's variables
  and the world; its result is an \<open>outcome\<close>, so every \<open>exit\<close>, failed \<open>assert\<close> and undefined operation
  is a value and the state reached is kept.  Integers have their width: \<open>uint32_t\<close> and \<open>uint64_t\<close> are
  words, \<open>int\<close> arithmetic is checked for overflow.  Uninitialised stack structures are filled from
  an argument, so that nothing is assumed of their content.  Arrays are lists with their bounds
  checked where C would be undefined (the bound of a member array also where the structure goes
  on behind it).  Message frames are byte lists, and casting a frame to a structure is decoding its
  image.

  \<^bold>\<open>Loops.\<close>  Counted loops are recursion on the number of rounds left.  The four \<open>while (1)\<close> loops are
  \<open>loopC\<close>, a partial function whose divergence is the value \<open>Diverges\<close>: the draining loops are proved
  to return (\<open>loopC_drains\<close>, one round per waiting frame), the waiting loop of the receive is proved
  to return after finitely many timeouts and to diverge without an answer.  There is no fuel.

  \<^bold>\<open>What is shown.\<close>  Guest writes reach the memory behind the bus, reads return it, a write is
  read back, and any run of aligned accesses behaves as one memory; bursts, reads and interrupts of the hardware reach the guest; the callback refines
  the specification \<open>hdl_serve\<close>; packets and characters are delivered once and whole; start-up
  connects all channels and hands over the configuration; the arithmetic of bursts, strobes and
  byte enables is exact; the messages of a run carry distinct ids; vectors, the log level and log
  lines follow their specifications; errors lead where the code means them to lead.  The section on
  deviations, and the properties on start-up, on oversized transfers and packets and on shutdown,
  state where the code does something else: the setup of the PCIe bridge is undefined for every
  valid BAR of 32 bytes or more.

  \<^bold>\<open>Bounds.\<close>  Guest accesses are those QEMU makes (1, 2, 4 or 8 bytes) that stay inside one bus word of
  at most 64 lanes, the widest the bridge's 64-bit strobe can describe; the hardware's bursts are
  at most the 4096 bytes of a message; ids are distinct over \<open>2 ^ 32\<close> accesses.  Where the properties on guest accesses speak of waiting,
  warnings are off (the default), so that the receive blocks in CZMQ itself.

  \<^bold>\<open>Not modelled.\<close>  The SystemVerilog state machines behind the bridges (single AXI beats stand for
  them), the text of log messages and of \<open>printf\<close> output (with its mismatched conversions), the type tables QEMU reads, build scripts
  and FPGA platform files.  Next steps are the AXI master and slave state machines as step
  relations that refine \<open>axi_write_beat\<close> and \<open>axi_read_beat\<close>, and bursts of several beats for guest
  accesses.
\<close>

section \<open>Guest accesses to the simulated hardware\<close>

lemma bytes0: "take 4 (to_le 8 (0xDEADBEEF :: u64)) = [0xEF, 0xBE, 0xAD, 0xDE]"
  by (simp add: to_le_def nat_le_numeral)

text \<open>
  C1: a guest write of 1, 2, 4 or 8 bytes to a BAR that stays inside one bus word returns, and
  the memory behind the hardware's bus is changed exactly at the bytes addressed: BAR offset
  plus address, value in little-endian order.  The queues are idle again and the transaction
  counter went up by one.
\<close>

theorem guest_write_reaches_memory:
  assumes "cosim_world L M q enq deq link peer peer' s d stk p hmem set_hmem"
    and "log_ok g" and "mmio_idle (q w) s d" and "acc_zmq_warn_ms (log_init_fn L g) \<le> 0"
    and "one_beat d num addr sz"
  shows "\<exists>g' w'. mmio_write_bar L num s addr val sz (g, w) = (Done (), (g', w'))
    \<and> hmem w' = mem_store (hmem w) (addr + bar_offset (bars_conf (dp_conf d) ! num))
                  (take (unat sz) (to_le 8 val))
    \<and> mmio_idle (q w') s d \<and> acc_global_txid g' = acc_global_txid g + 1"
  using cosim_world.write_end_to_end [OF assms, of val]
  by (auto simp: bar_addr_def same_core_def)

theorem guest_write_reaches_memory_witness:
  "\<exists>g' w'. mmio_write_bar (net_ext peer0) 0 device0 0x10 0xDEADBEEF 4 (qemu0, world0) = (Done (), (g', w'))
    \<and> cw_hmem w' = mem_store (\<lambda>_. 0) 0xC0000010 [0xEF, 0xBE, 0xAD, 0xDE]
    \<and> mmio_idle (cw_q w') device0 bridge0 \<and> acc_global_txid g' = 1"
  using guest_write_reaches_memory [OF sim.cosim_world_axioms, of qemu0 world0 0 "0x10" 4 "0xDEADBEEF"]
  by (simp add: bytes0)

text \<open>
  C2: a guest read of 1, 2, 4 or 8 bytes inside one bus word returns the bytes the memory behind the
  hardware's bus holds at the translated address, little-endian, and changes nothing there.
\<close>

theorem guest_read_returns_memory:
  assumes "cosim_world L M q enq deq link peer peer' s d stk p hmem set_hmem"
    and "log_ok g" and "mmio_idle (q w) s d" and "acc_zmq_warn_ms (log_init_fn L g) \<le> 0"
    and "one_beat d num addr sz"
  shows "\<exists>g' w'. mmio_read_bar L num s addr sz (g, w) =
      (Done (of_le (mem_load (hmem w) (addr + bar_offset (bars_conf (dp_conf d) ! num)) (unat sz))), (g', w'))
    \<and> hmem w' = hmem w \<and> mmio_idle (q w') s d \<and> acc_global_txid g' = acc_global_txid g + 1"
  using cosim_world.read_end_to_end [OF assms]
  by (auto simp: bar_addr_def same_core_def)

theorem guest_read_returns_memory_witness:
  "\<exists>g' w'. mmio_read_bar (net_ext peer0) 0 device0 0x10 4 (qemu0, world0) =
      (Done (of_le (mem_load (\<lambda>_. 0) 0xC0000010 4)), (g', w'))
    \<and> cw_hmem w' = (\<lambda>_. 0) \<and> mmio_idle (cw_q w') device0 bridge0 \<and> acc_global_txid g' = 1"
  using guest_read_returns_memory [OF sim.cosim_world_axioms, of qemu0 world0 0 "0x10" 4] by simp

text \<open>
  C3: what the guest writes to a BAR it reads back from there, cut to the size of the access, through
  both processes and both directions of the channel.
\<close>

theorem guest_write_then_read:
  assumes "cosim_world L M q enq deq link peer peer' s d stk p hmem set_hmem"
    and "log_ok g" and "mmio_idle (q w) s d" and "acc_zmq_warn_ms (log_init_fn L g) \<le> 0"
    and "one_beat d num addr sz"
  shows "\<exists>g1 w1 g2 w2. mmio_write_bar L num s addr val sz (g, w) = (Done (), (g1, w1))
    \<and> mmio_read_bar L num s addr sz (g1, w1) = (Done (take_bit (8 * unat sz) val), (g2, w2))"
  using cosim_world.write_then_read [OF assms] .

theorem guest_write_then_read_witness:
  "\<exists>g1 w1 g2 w2. mmio_write_bar (net_ext peer0) 0 device0 0x10 0x1122334455667788 4 (qemu0, world0) = (Done (), (g1, w1))
    \<and> mmio_read_bar (net_ext peer0) 0 device0 0x10 4 (g1, w1) = (Done (take_bit (8 * unat (4 :: u32)) 0x1122334455667788), (g2, w2))"
  by (rule guest_write_then_read [OF sim.cosim_world_axioms]) simp_all

text \<open>
  C4: any run of naturally aligned guest accesses (1, 2, 4 or 8 bytes, reads and writes to any BARs)
  returns and behaves as the reference memory \<open>mem_run\<close>: the reads return, in order, what that
  memory holds when they are made, and the memory behind the bus is the reference memory in the
  end.  The bus has 8, 16, 32 or 64 byte lanes and the BARs lie at multiples of 8.  In between the
  channels are idle, and each access used one transaction id.
\<close>

theorem guest_run_refines_memory:
  assumes "cosim_world L M q enq deq link peer peer' s d stk p hmem set_hmem"
    and "log_ok g" and "mmio_idle (q w) s d" and "acc_zmq_warn_ms (log_init_fn L g) \<le> 0"
    and "unat (dp_BUSW d) \<in> {8, 16, 32, 64}"
    and "\<forall>num < 6. unat (bar_offset (bars_conf (dp_conf d) ! num)) mod 8 = 0"
    and "list_all aligned_op ops"
    and "(vs, m) = mem_run (\<lambda>num. bar_offset (bars_conf (dp_conf d) ! num)) (hmem w) ops"
  shows "\<exists>g' w'. run_mmio L s ops (g, w) = (Done vs, (g', w')) \<and> hmem w' = m
    \<and> mmio_idle (q w') s d \<and> acc_global_txid g' = acc_global_txid g + of_nat (length ops)"
  using cosim_world.run_refines_memory [OF assms(1,6,5,2-4,7)] assms(8) by (metis fst_conv snd_conv)

text \<open>Two writes to neighbouring words of BAR 0 and a read of the first.\<close>

definition ops0 :: "mmio_op list" where
  "ops0 = [Mmio_write 0 0x10 0xDEADBEEF 4, Mmio_write 0 0x14 0x01 4, Mmio_read 0 0x10 4]"

theorem guest_run_refines_memory_witness:
  "\<exists>g' w'. run_mmio (net_ext peer0) device0 ops0 (qemu0, world0) = (Done [0xDEADBEEF], (g', w'))
    \<and> mmio_idle (cw_q w') device0 bridge0 \<and> acc_global_txid g' = 3"
proof -
  let ?off = "\<lambda>num. bar_offset (bars_conf (dp_conf bridge0) ! num)"
  have four: "[0..<4] = [0, 1, 2, 3::nat]" by code_simp
  obtain m where m: "([0xDEADBEEF], m) = mem_run ?off (\<lambda>_. 0) ops0"
    by (simp add: ops0_def mem_load_def mem_store_def to_le_def nat_le_numeral of_le_def four
        unsigned_minus_1_eq_mask mask_eq_exp_minus_1)
  have off: "\<forall>num < 6. unat (?off num) mod 8 = 0"
    by (auto simp: bridge0_def nth_Cons' less_Suc_eq_0_disj)
  have "list_all aligned_op ops0" by (simp add: ops0_def)
  with guest_run_refines_memory [OF sim.cosim_world_axioms, of qemu0 world0 ops0 "[0xDEADBEEF]" m] m off
  show ?thesis by (auto simp: ops0_def)
qed

section \<open>Accesses of the hardware to the host\<close>

text \<open>
  C5: \<open>handle_hdl_request\<close> always returns when every waiting frame is acceptable, has then emptied its
  socket, and has done to guest memory, to the interrupts and to the responses exactly what the
  specification \<open>hdl_serve\<close> says for the frames in the order they arrived.  No other queue changes.
\<close>

theorem hdl_requests_served_in_order:
  assumes "qemu_host L q enq deq link peer ram irqs" and "log_ok g"
    and "hdl_req s = Some hr" and "hdl_resp s = Some hp" and "link hp \<noteq> hr"
    and "list_all hdl_frame_ok (q w hr)"
  shows "\<exists>g' w'. handle_hdl_request L s (g, w) = (Done (), (g', w')) \<and> q w' hr = []
    \<and> (ram w', irqs w', q w' (link hp)) = fold hdl_serve (q w hr) (ram w, irqs w, q w (link hp))
    \<and> (\<forall>t. t \<noteq> hr \<longrightarrow> t \<noteq> link hp \<longrightarrow> q w' t = q w t)"
  using qemu_host.hdl_request_drains [OF assms] by blast

text \<open>Two messages of the hardware: a write of one byte and an interrupt.\<close>

definition frames0 :: "byte list list" where
  "frames0 = [encode_ACCData (replicate 7 0) (zero_ACCData\<lparr>acc_op := ACCOp_val WRITE, address := 0x100, data_size := 1\<rparr>),
     encode_ACCData (replicate 7 0) (zero_ACCData\<lparr>acc_op := ACCOp_val INTR, vector := 2\<rparr>)]"

lemma frames0_decode:
  "decode_ACCData (encode_ACCData (replicate 7 0) (zero_ACCData\<lparr>acc_op := a, address := x, data_size := n\<rparr>))
     = zero_ACCData\<lparr>acc_op := a, address := x, data_size := n\<rparr>"
  "decode_ACCData (encode_ACCData (replicate 7 0) (zero_ACCData\<lparr>acc_op := a, vector := v\<rparr>))
     = zero_ACCData\<lparr>acc_op := a, vector := v\<rparr>"
  by (rule acc.dec_enc; simp)+

lemma frames0_ok: "list_all hdl_frame_ok frames0"
  by (simp add: frames0_def hdl_frame_ok_def frames0_decode)

theorem hdl_requests_served_in_order_witness:
  "\<exists>g' w'. handle_hdl_request (net_ext peer0) device0 (qemu0, world0\<lparr>cw_q := (\<lambda>_. [])(5002 := frames0)\<rparr>)
      = (Done (), (g', w')) \<and> cw_q w' 5002 = []
    \<and> (cw_ram w', cw_irqs w', cw_q w' 5003) = fold hdl_serve frames0 (\<lambda>_. 0, [], [])
    \<and> cw_q w' 5000 = []"
  using hdl_requests_served_in_order [OF net.qemu_host_axioms [of peer0], of qemu0 device0 5002 5003
      "world0\<lparr>cw_q := (\<lambda>_. [])(5002 := frames0)\<rparr>"] frames0_ok
  by auto

text \<open>
  C6: a burst the hardware writes with all byte lanes strobed on a bus of the transfer's width ends
  up in guest memory at its address, byte for byte; nothing else in guest memory, no interrupt and
  no queue changes.
\<close>

theorem dma_write_reaches_guest:
  assumes "dma_world L M q enq deq link peer peer' ram irqs s d"
    and "log_ok g" and "dp_hdl_req d = Some h" and "q w (link h) = []"
    and "0 \<le> width" "width < 31" "unat (dp_BUSW d) = 2 ^ nat width" and "0 \<le> len"
    and "n = (nat len + 1) * 2 ^ nat width" "n \<le> BUFF_SIZE" "n \<le> length data"
    and "nat len + 1 \<le> length strb" "\<forall>b \<le> nat len. \<forall>j < 2 ^ nat width. bit (strb ! b) j"
    and "length stk = sizeof_ACCData"
  shows "\<exists>strb' w1 g' w2. C_req_write M stk addr width len data strb (d, w) = (Done strb', (d, w1))
    \<and> handle_hdl_request L s (g, w1) = (Done (), (g', w2))
    \<and> ram w2 = mem_store (ram w) addr (take n data) \<and> irqs w2 = irqs w \<and> q w2 = q w"
  using dma_world.dma_write [OF assms] .

theorem dma_write_reaches_guest_witness:
  "\<exists>strb' w1 g' w2. C_req_write (net_ext (\<lambda>w. w)) (replicate 4128 0) 0x2000 6 1 (replicate 128 0x5A)
      [- 1, - 1] (bridge0, world0) = (Done strb', (bridge0, w1))
    \<and> handle_hdl_request (net_ext peer0) device0 (qemu0, w1) = (Done (), (g', w2))
    \<and> cw_ram w2 = mem_store (\<lambda>_. 0) 0x2000 (replicate 128 0x5A) \<and> cw_irqs w2 = [] \<and> cw_q w2 = (\<lambda>_. [])"
proof -
  have "\<forall>b \<le> nat 1. \<forall>j < 2 ^ nat 6. bit ([- 1, - 1 :: u64] ! b) j"
    by (auto simp: le_Suc_eq)
  with dma_write_reaches_guest [OF sim.dma_world_axioms, of qemu0 5002 world0 6 1 128 "replicate 128 0x5A"
      "[- 1, - 1]" "replicate 4128 0" "0x2000"]
  show ?thesis by simp
qed

text \<open>
  C7: a read of guest memory by the hardware: the request, the callback in QEMU and the poll that
  finds the response hand the bytes of guest memory to the bus lanes that start at the address's
  offset in the bus word.  Guest memory is unchanged and all queues are as before.
\<close>

theorem dma_read_returns_guest_memory:
  assumes "dma_world L M q enq deq link peer peer' ram irqs s d"
    and "log_ok g" and "dp_hdl_req d = Some h" and "hdl_resp s = Some hp"
    and "bridge_up d" and "dp_initsock d = Some i" and "dp_qemu_req d = Some a"
    and "q w (link h) = []" "q w (link hp) = []" "q w i = []" "q w a = []"
    and "link hp \<noteq> i" "link hp \<noteq> a"
    and "0 \<le> width" "width < 31" and "0 \<le> len"
    and "n = (nat len + 1) * 2 ^ nat width" "unat (addr mod dp_BUSW d) + n \<le> BUFF_SIZE"
    and "length (v_data p) = BUFF_SIZE" and "length stk = sizeof_ACCData"
  shows "\<exists>w1 g' w2 p' w3. C_req_read M stk addr width len j (d, w) = (Done (), (d, w1))
    \<and> handle_hdl_request L s (g, w1) = (Done (), (g', w2))
    \<and> C_poll M p (d, w2) = (Done p', (d, w3)) \<and> req_type p' = QEMUOp_val S_RD
    \<and> bytes_at (unat (addr mod dp_BUSW d)) n (v_data p') = mem_load (ram w) addr n
    \<and> ram w2 = ram w \<and> irqs w2 = irqs w \<and> q w3 = q w"
  using dma_world.dma_read [OF assms] .

theorem dma_read_returns_guest_memory_witness:
  "\<exists>w1 g' w2 p' w3. C_req_read (net_ext (\<lambda>w. w)) (replicate 4128 0) 0x2008 3 1 9 (bridge0, world0)
      = (Done (), (bridge0, w1))
    \<and> handle_hdl_request (net_ext peer0) device0 (qemu0, w1) = (Done (), (g', w2))
    \<and> C_poll (net_ext (\<lambda>w. w)) args0 (bridge0, w2) = (Done p', (bridge0, w3)) \<and> req_type p' = 3
    \<and> bytes_at 8 16 (v_data p') = mem_load (\<lambda>_. 0) 0x2008 16
    \<and> cw_ram w2 = (\<lambda>_. 0) \<and> cw_irqs w2 = [] \<and> cw_q w3 = (\<lambda>_. [])"
  using dma_read_returns_guest_memory [OF sim.dma_world_axioms, of qemu0 5002 5003 4999 5000 world0 3 1 16
      "0x2008" args0 "replicate 4128 0" 9]
  by (simp add: args0_def)

text \<open>
  C8: an interrupt the hardware requests is raised in the guest exactly once, with its vector.
\<close>

theorem interrupt_reaches_guest:
  assumes "dma_world L M q enq deq link peer peer' ram irqs s d"
    and "log_ok g" and "dp_hdl_req d = Some h" and "q w (link h) = []"
    and "length stk = sizeof_ACCData"
  shows "\<exists>w1 g' w2. C_req_interrupt M stk vec (d, w) = (Done (), (d, w1))
    \<and> handle_hdl_request L s (g, w1) = (Done (), (g', w2))
    \<and> irqs w2 = irqs w @ [of_int vec] \<and> ram w2 = ram w \<and> q w2 = q w"
  using dma_world.interrupt_raised [OF assms] .

theorem interrupt_reaches_guest_witness:
  "\<exists>w1 g' w2. C_req_interrupt (net_ext (\<lambda>w. w)) (replicate 4128 0) 2 (bridge0, world0) = (Done (), (bridge0, w1))
    \<and> handle_hdl_request (net_ext peer0) device0 (qemu0, w1) = (Done (), (g', w2))
    \<and> cw_irqs w2 = [2] \<and> cw_ram w2 = (\<lambda>_. 0) \<and> cw_q w2 = (\<lambda>_. [])"
  using interrupt_reaches_guest [OF sim.dma_world_axioms, of qemu0 5002 world0 "replicate 4128 0" 2] by simp

text \<open>
  C22: a frame shorter than the message structure ends QEMU with status 1, after the acceptable
  frames in front of it have been served and without touching those behind it.
\<close>

theorem short_hdl_frame_exits:
  assumes "qemu_host L q enq deq link peer ram irqs" and "log_ok g"
    and "hdl_req s = Some hr" and "hdl_resp s = Some hp" and "link hp \<noteq> hr"
    and "q w hr = fs @ bad # rest" and "list_all hdl_frame_ok fs" and "length bad < sizeof_ACCData"
  shows "\<exists>g' w'. handle_hdl_request L s (g, w) = (Exited 1, (g', w')) \<and> q w' hr = rest
    \<and> (ram w', irqs w', q w' (link hp)) = fold hdl_serve fs (ram w, irqs w, q w (link hp))"
  using qemu_host.hdl_request_short_frame [OF assms] .

theorem short_hdl_frame_exits_witness:
  "\<exists>g' w'. handle_hdl_request (net_ext peer0) device0
      (qemu0, world0\<lparr>cw_q := (\<lambda>_. [])(5002 := frames0 @ [1, 2] # frames0)\<rparr>) = (Exited 1, (g', w'))
    \<and> cw_q w' 5002 = frames0
    \<and> (cw_ram w', cw_irqs w', cw_q w' 5003) = fold hdl_serve frames0 (\<lambda>_. 0, [], [])"
  using short_hdl_frame_exits [OF net.qemu_host_axioms [of peer0], of qemu0 device0 5002 5003
      "world0\<lparr>cw_q := (\<lambda>_. [])(5002 := frames0 @ [1, 2] # frames0)\<rparr>" frames0 "[1, 2]" frames0] frames0_ok
  by auto

text \<open>
  C34: a message that asks for a transfer of more than 4096 bytes makes the callback access memory
  outside the message: its behaviour is undefined.
\<close>

theorem oversized_transfer_undefined:
  assumes "qemu_host L q enq deq link peer ram irqs" and "log_ok g"
    and "hdl_req s = Some hr" and "hdl_resp s = Some hp" and "link hp \<noteq> hr"
    and "q w hr = fs @ big # rest" and "list_all hdl_frame_ok fs"
    and "sizeof_ACCData \<le> length big" and "acc_op (decode_ACCData big) \<in> {ACCOp_val READ, ACCOp_val WRITE}"
    and "BUFF_SIZE < unat (data_size (decode_ACCData big))"
  shows "fst (handle_hdl_request L s (g, w)) = Undefined"
  using qemu_host.hdl_request_oversized [OF assms] .

definition big0 :: "byte list" where
  "big0 = encode_ACCData (replicate 7 0) (zero_ACCData\<lparr>acc_op := ACCOp_val WRITE, address := 0, data_size := 8192\<rparr>)"

theorem oversized_transfer_undefined_witness:
  "fst (handle_hdl_request (net_ext peer0) device0
     (qemu0, world0\<lparr>cw_q := (\<lambda>_. [])(5002 := frames0 @ [big0])\<rparr>)) = Undefined"
  by (rule oversized_transfer_undefined [OF net.qemu_host_axioms [of peer0], of _ _ 5002 5003 _ frames0 big0 "[]"])
     (simp_all add: frames0_ok big0_def frames0_decode)

section \<open>Starting the system\<close>

text \<open>
  C10: the class initialiser returns with the device's configuration equal to the one the bridge was
  set up with, once the hardware answers the initialisation message; the message used one
  transaction id and no other queue changed.
\<close>

theorem class_init_gets_configuration:
  assumes "cosim_boot L M q enq deq link peer peer' s d stk p hmem set_hmem bound conn used ev fd_of"
    and "log_ok g" and "acc_zmq_warn_ms (log_init_fn L g) \<le> 0"
    and "port_string (environ g) = Some str" "atoi str = Some port"
    and "tcp_port (port - 1)" "tcp_port (port + 10)"
    and "dp_initsock d = Some (conn (port - 1))" and "dp_initsock2 d = Some (bound (port + 10))"
    and "q w (conn (port - 1)) = []" "q w (conn (port + 10)) = []"
  shows "\<exists>g' w'. acc_pcie_class_init L (g, w) = (Done (), (g', w')) \<and> hdlconf g' = dp_conf d
    \<and> environ g' = environ g \<and> acc_global_txid g' = acc_global_txid g + 1
    \<and> (\<forall>t. t \<noteq> bound (port - 1) \<longrightarrow> t \<noteq> conn (port + 10) \<longrightarrow> q w' t = q w t)"
  using cosim_boot.class_init_receives_conf [OF assms] .

lemma port0: "port_string (environ qemu0) = Some ''5000''" "atoi ''5000'' = Some 5000"
  "tcp_port 4999" "tcp_port 5000" "tcp_port 5009" "tcp_port 5010"
  by (simp_all add: qemu0_def port_string_def tcp_port_def atoi_def is_space_def is_digit_def c_int_def in_int_def)

theorem class_init_gets_configuration_witness:
  "\<exists>g' w'. acc_pcie_class_init (net_ext peer0) (qemu0, world0) = (Done (), (g', w'))
    \<and> hdlconf g' = dp_conf bridge0 \<and> acc_global_txid g' = 1"
  using class_init_gets_configuration [OF sim.cosim_boot_axioms, of qemu0 "''5000''" 5000 world0]
  by (auto simp: port0)

lemma realize_attr_bits: "realize_attr c = (if is_64 c then 4 else 0) + (if prefetch c then 8 else 0)"
  by (simp add: realize_attr_def)

text \<open>
  C11: realising the device opens its eight channels, registers a region and a BAR for exactly the
  valid BARs of the configuration, with their sizes and the attribute bits (4 for 64-bit, 8 for
  prefetchable memory) of the configuration,
  hooks the three callbacks to the sockets they drain and leaves all queues alone.
\<close>

theorem realize_registers_device:
  assumes "pci_core L q enq deq link peer bound conn used ev fd_of"
    and "log_ok g" and "port_string (environ g) = Some str" "atoi str = Some port"
    and "tcp_port port" "tcp_port (port + 9)"
    and "unat (msix_table_bar (hdlconf g)) < 6" "unat (msix_pba_bar (hdlconf g)) < 6"
    and "\<And>n tb tbn toff pb pbn poff w. 0 \<le> fst (msix_init L n tb tbn toff pb pbn poff w)"
  shows "\<exists>g' w'. acc_pcie_realize L (g, w) = (Done (Inr (device_on bound conn port)), (g', w'))
    \<and> q w' = q w
    \<and> ev w' = ev w @ bar_events ((if is_64 (hdlconf g) then 4 else 0) + (if prefetch (hdlconf g) then 8 else 0))
          0 (bars_conf (hdlconf g))
        @ [Watch (fd_of (conn (port + 2))) ''handle_hdl_request'',
           Watch (fd_of (conn (port + 5))) ''net_tx_packet'',
           Watch (fd_of (conn (port + 9))) ''serial_tx'', Region ''serial-mmio'' 8]"
  using pci_core.realize_device [OF assms] unfolding realize_attr_bits by blast

lemma conf0: "hdlconf qemu0 = dp_conf bridge0" "msix_table_bar (dp_conf bridge0) = 0"
  "msix_pba_bar (dp_conf bridge0) = 0" "is_64 (dp_conf bridge0)" "\<not> prefetch (dp_conf bridge0)"
  "bar_events 4 0 (bars_conf (dp_conf bridge0)) =
     [Region ''mmio-bar0'' 0x20000000, Bar 0 4, Region ''mmio-bar2'' 0x200000, Bar 2 4]"
  by (simp_all add: qemu0_def bridge0_def bar_names_def)

theorem realize_registers_device_witness:
  "\<exists>g' w'. acc_pcie_realize (net_ext peer0) (qemu0, world0) = (Done (Inr (device_on nat nat 5000)), (g', w'))
    \<and> cw_q w' = (\<lambda>_. [])
    \<and> cw_ev w' = [Region ''mmio-bar0'' 0x20000000, Bar 0 4, Region ''mmio-bar2'' 0x200000, Bar 2 4,
        Watch 5002 ''handle_hdl_request'', Watch 5005 ''net_tx_packet'', Watch 5009 ''serial_tx'',
        Region ''serial-mmio'' 8]"
proof -
  have "0 \<le> fst (msix_init (net_ext peer0) n tb tbn toff pb pbn poff w)" for n tb tbn toff pb pbn poff w
    by (simp add: net_ext_def)
  with realize_registers_device [OF net.pci_core_axioms [of peer0], of qemu0 "''5000''" 5000 world0]
  show ?thesis by (simp add: port0 conf0)
qed

text \<open>
  C37: a device that was realised and is shut down again, with whatever the PCI core says of MSI-X: of
  the eight sockets it opened the six of the PCIe and network channels are destroyed, in that
  order, and their pointers cleared; the two serial sockets are not among them and their pointers
  stay.  None of the registrations is undone, so the three callbacks stay hooked to file
  descriptors of which two belong to destroyed sockets.
\<close>

theorem exit_leaves_serial_open:
  assumes life: "device_life L q enq deq link peer bound conn used ev fd_of closed"
    and g: "log_ok g" and port: "port_string (environ g) = Some str" "atoi str = Some port"
    and p: "tcp_port port" "tcp_port (port + 9)"
    and c: "unat (msix_table_bar (hdlconf g)) < 6" "unat (msix_pba_bar (hdlconf g)) < 6"
    and init: "\<And>n tb tbn toff pb pbn poff w. 0 \<le> fst (msix_init L n tb tbn toff pb pbn poff w)"
  shows "\<exists>s g1 w1 s' g2 w2. acc_pcie_realize L (g, w) = (Done (Inr s), (g1, w1))
    \<and> acc_pcie_exit L s (g1, w1) = (Done s', (g2, w2))
    \<and> closed w2 = closed w1 @ map Some [conn (port + 2), bound (port + 3), bound port, conn (port + 1),
        bound (port + 4), conn (port + 5)]
    \<and> [hdl_req s', hdl_resp s', qemu_req s', qemu_resp s', nic_req s', nic_resp s'] = replicate 6 None
    \<and> serial_tx_sock s' = Some (conn (port + 9)) \<and> serial_rx_sock s' = Some (bound (port + 8))
    \<and> ev w2 = ev w1
    \<and> {Watch (fd_of (conn (port + 2))) ''handle_hdl_request'', Watch (fd_of (conn (port + 5))) ''net_tx_packet'',
       Watch (fd_of (conn (port + 9))) ''serial_tx''} \<subseteq> set (ev w2)"
proof -
  let ?s = "device_on bound conn port"
  from pci_core.realize_device [OF device_life.axioms(1) [OF life] g port p c init] obtain g1 w1 where
    1: "acc_pcie_realize L (g, w) = (Done (Inr ?s), (g1, w1))" "log_ok g1" "same_core L g g1"
      "{Watch (fd_of (conn (port + 2))) ''handle_hdl_request'', Watch (fd_of (conn (port + 5))) ''net_tx_packet'',
       Watch (fd_of (conn (port + 9))) ''serial_tx''} \<subseteq> set (ev w1)" by fastforce
  have "unat (msix_table_bar (hdlconf g1)) < 6" "unat (msix_pba_bar (hdlconf g1)) < 6"
    using c 1(3) by (simp_all add: same_core_def)
  from device_life.exit_closes [OF life 1(2) this, of ?s w1] 1(1,4) show ?thesis
    by (elim exE conjE, intro exI conjI) (assumption | simp add: device_on_def eval_nat_numeral)+
qed

theorem exit_leaves_serial_open_witness:
  "\<exists>s g1 w1 s' g2 w2. acc_pcie_realize (net_ext peer0) (qemu0, world0) = (Done (Inr s), (g1, w1))
    \<and> acc_pcie_exit (net_ext peer0) s (g1, w1) = (Done s', (g2, w2))
    \<and> cw_closed w2 = cw_closed w1 @ [Some 5002, Some 5003, Some 5000, Some 5001, Some 5004, Some 5005]
    \<and> serial_tx_sock s' = Some 5009 \<and> serial_rx_sock s' = Some 5008
    \<and> cw_ev w2 = cw_ev w1"
proof -
  have "0 \<le> fst (msix_init (net_ext peer0) n tb tbn toff pb pbn poff w)" for n tb tbn toff pb pbn poff w
    by (simp add: net_ext_def)
  with exit_leaves_serial_open [OF net.device_life_axioms [of peer0], of qemu0 "''5000''" 5000 world0]
  show ?thesis by (simp add: port0 conf0) blast
qed

text \<open>
  C9: when the simulator and QEMU are started with the same base port, the realised device and the
  PCIe bridge end up connected channel by channel, and so do the network and serial bridges: this
  is the state the properties of guest accesses, of accesses of the hardware and of the streams
  start from.  The configuration the bridge keeps is the one of its parameters.  The setup function
  itself comes through to its sockets only when every valid BAR has fewer than \<open>2 ^ 5\<close> bytes: in
  between it prints \<open>1 << conf.bar[i].size\<close>, which is undefined for every larger BAR.
\<close>

theorem same_port_connects_everything:
  assumes core: "pci_core L q enq deq link peer bound conn used ev fd_of"
    and M: "zmq_ports M q enq deq link peer' bound conn"
    and g: "log_ok g" and port: "port_string (environ g) = Some str" "atoi str = Some port"
    and env: "cosim_port (dp_environ d) = Some port" "cosim_port (dn_environ n) = Some port"
      "cosim_port (du_environ u) = Some port"
    and p: "tcp_port (port - 1)" "tcp_port (port + 10)"
    and bars: "length vb = 6" "length szs = 6" "length offs = 6" "\<forall>k \<in> set szs. unat k < 64"
    and busw: "0 < unat busw" "unat busw \<le> 64"
    and c: "unat (msix_table_bar (hdlconf g)) < 6" "unat (msix_pba_bar (hdlconf g)) < 6"
    and init: "\<And>k tb tbn toff pb pbn poff v. 0 \<le> fst (msix_init L k tb tbn toff pb pbn poff v)"
  shows "\<exists>s g' w' dc d' n' u'.
      acc_pcie_realize L (g, w) = (Done (Inr s), (g', w')) \<and> q w' = q w
    \<and> setup_conf busw vid did attr vb szs offs vn tb toff pb poff (d, w) = (Done (), (dc, w))
    \<and> setup_sockets M (dc, w) = (Done (), (d', w))
    \<and> C_setup_pcie_connection M busw vid did attr vb szs offs vn tb toff pb poff (d, w) =
        (if \<forall>i < 6. vb ! i \<noteq> 0 \<longrightarrow> unat (szs ! i) < 5 then (Done (), (d', w)) else (Undefined, (dc, w)))
    \<and> C_setup_nic_connection M bw (n, w) = (Done (), (n', w))
    \<and> C_setup_uart_connection M (u, w) = (Done (), (u', w))
    \<and> bridge_up d' \<and> linked link s d' \<and> dma_linked link s d'
    \<and> (\<forall>i < 6. bars_conf (dp_conf d') ! i =
          \<lparr>is_valid = (vb ! i \<noteq> 0), bar_size = 2 ^ unat (szs ! i), bar_offset = offs ! i\<rparr>)
    \<and> dn_nic_req n' = map_option link (nic_req s) \<and> nic_resp s = map_option link (dn_nic_resp n')
    \<and> du_uart_rx u' = map_option link (serial_rx_sock s) \<and> serial_tx_sock s = map_option link (du_uart_tx u')"
proof -
  have ports: "tcp_port port" "tcp_port (port + 4)" "tcp_port (port + 5)" "tcp_port (port + 8)" "tcp_port (port + 9)"
    using p by (simp_all add: tcp_port_def)
  let ?s = "device_on bound conn port"
  obtain g' w' where r: "acc_pcie_realize L (g, w) = (Done (Inr ?s), (g', w'))" "q w' = q w"
    using pci_core.realize_device [OF core g port ports(1,5) c init] by blast
  obtain bs where bs: "setup_bars 6 vb szs offs = Some bs" "length bs = 6"
    "\<forall>i < 6. bs ! i = \<lparr>is_valid = (vb ! i \<noteq> 0), bar_size = 2 ^ unat (szs ! i), bar_offset = offs ! i\<rparr>"
    using setup_bars_eq [OF bars] bars by auto
  let ?c = "\<lparr>bars_conf = bs, is_64 = (attr AND 1 = 1), prefetch = (attr AND 2 = 2), device_id = did,
    vendor_id = vid, msix_vec_num = vn, msix_table_bar = tb, msix_table_offset = toff,
    msix_pba_bar = pb, msix_pba_offset = poff\<rparr>"
  let ?dc = "d\<lparr>dp_BUSW := busw, dp_conf := ?c\<rparr>" and ?d = "bridge_on bound conn port busw ?c (dp_environ d)"
  have conf: "setup_conf busw vid did attr vb szs offs vn tb toff pb poff (d, w) = (Done (), (?dc, w))"
    using bs(1) by (simp add: setup_conf_def cprog_simps)
  have socks: "setup_sockets M (?dc, w) = (Done (), (?d, w))"
    using zmq_ports.setup_sockets_eq [OF M _ p, of ?dc w] env(1) by simp
  have "C_setup_pcie_connection M busw vid did attr vb szs offs vn tb toff pb poff (d, w) =
      (if \<forall>i < 6. vb ! i \<noteq> 0 \<longrightarrow> unat (szs ! i) < 5 then (Done (), (?d, w)) else (Undefined, (?dc, w)))"
    using zmq_ports.setup_pcie_eq [OF M conf] report_after_setup [OF bars bs(1)] socks by auto
  moreover have "bridge_up ?d" using zmq_ports.bridge_on_up [OF M p(1) ports(1) _ busw] bs(2) by simp
  moreover note zmq_ports.device_bridge_linked [OF M p] zmq_ports.link_bound [OF M]
    zmq_ports.setup_nic_eq [OF M env(2) ports(2,3), of bw w] zmq_ports.setup_uart_eq [OF M env(3) ports(4,5), of w]
  ultimately show ?thesis using r conf socks ports bs(3)
    by (intro exI conjI) (assumption | simp add: device_on_def bridge_on_def)+
qed

theorem same_port_connects_everything_witness:
  "\<exists>s g' w' dc d' n' u'.
      acc_pcie_realize (net_ext peer0) (qemu0, world0) = (Done (Inr s), (g', w')) \<and> cw_q w' = (\<lambda>_. [])
    \<and> setup_conf 64 0x10EE 0xC951 1 [1, 0, 1, 0, 0, 0] [29, 1, 21, 1, 1, 1]
        [0xC0000000, 0, 0x80000000, 0, 0, 0] 3 0 0x90000 0 0x91000 (bridge0, world0) = (Done (), (dc, world0))
    \<and> setup_sockets (net_ext (\<lambda>w. w)) (dc, world0) = (Done (), (d', world0))
    \<and> C_setup_pcie_connection (net_ext (\<lambda>w. w)) 64 0x10EE 0xC951 1 [1, 0, 1, 0, 0, 0] [29, 1, 21, 1, 1, 1]
        [0xC0000000, 0, 0x80000000, 0, 0, 0] 3 0 0x90000 0 0x91000 (bridge0, world0) = (Undefined, (dc, world0))
    \<and> C_setup_nic_connection (net_ext (\<lambda>w. w)) 64 (nic0, world0) = (Done (), (n', world0))
    \<and> C_setup_uart_connection (net_ext (\<lambda>w. w)) (uart0, world0) = (Done (), (u', world0))
    \<and> bridge_up d' \<and> linked (\<lambda>s. s) s d' \<and> dma_linked (\<lambda>s. s) s d'
    \<and> dn_nic_req n' = nic_req s \<and> nic_resp s = dn_nic_resp n'
    \<and> du_uart_rx u' = serial_rx_sock s \<and> serial_tx_sock s = du_uart_tx u'"
proof -
  have env: "cosim_port (dp_environ bridge0) = Some 5000" "cosim_port (dn_environ nic0) = Some 5000"
    "cosim_port (du_environ uart0) = Some 5000"
    by (simp_all add: cosim_port_def bridge0_def nic0_def uart0_def port0(2))
  have c: "unat (msix_table_bar (hdlconf qemu0)) < 6" "unat (msix_pba_bar (hdlconf qemu0)) < 6"
    by (simp_all add: conf0)
  have init: "0 \<le> fst (msix_init (net_ext peer0) n tb tbn toff pb pbn poff w)" for n tb tbn toff pb pbn poff w
    by (simp add: net_ext_def)
  have big: "\<not> (\<forall>i < 6. [1, 0, 1, 0, 0, 0 :: u8] ! i \<noteq> 0 \<longrightarrow> unat ([29, 1, 21, 1, 1, 1 :: u64] ! i) < 5)"
    by (intro notI) (drule spec [of _ 0], simp)
  note run = same_port_connects_everything
    [OF net.pci_core_axioms [of peer0] net.zmq_ports_axioms [of "\<lambda>w. w"] run0(1) port0(1,2) env _ _ _ _ _ _ _ _ c init,
      of "[1, 0, 1, 0, 0, 0]" "[29, 1, 21, 1, 1, 1]" "[0xC0000000, 0, 0x80000000, 0, 0, 0]" 64 world0
        "0x10EE" "0xC951" 1 3 0 "0x90000" 0 "0x91000" 64]
  show ?thesis
    by (insert run) (simp add: port0 big option.map_ident, blast)
qed

section \<open>Network and serial streams\<close>

text \<open>
  C12: a packet the guest sends (1 to 4096 bytes) is handed to the simulated network card by the next
  poll: the data starts with the packet, the number of beats is the least that holds it, and the
  byte enables of the last beat mark exactly its last bytes.
\<close>

theorem guest_packet_reaches_hardware:
  assumes host: "nic_host L q enq deq link peer pkts" and M: "zmq_fifo M q enq deq link peer'"
    and g: "log_ok g" and a: "nic_req s = Some a" and d: "dn_nic_req d = Some (link a)"
      "dn_poller d = Some [Some (link a)]" "0 < dn_BUSW d" "dn_BUSW d \<le> 64"
    and e: "q w (link a) = []" and buf: "0 < length buf" "length buf \<le> BUFF_SIZE"
    and args: "length (n_data args) = BUFF_SIZE"
  shows "\<exists>g' w1 args' w2. net_rx_packet L s buf (g, w) = (Done (length buf), (g', w1))
    \<and> C_nic_poll M args (d, w1) = (Done args', (d, w2)) \<and> n_req args' = 1
    \<and> take (length buf) (n_data args') = buf
    \<and> unat (n_len args') = (length buf - 1) div nat (dn_BUSW d)
    \<and> (\<forall>lane < nat (dn_BUSW d). bit (n_keep args') lane \<longleftrightarrow>
          unat (n_len args') * nat (dn_BUSW d) + lane < length buf)
    \<and> q w2 = q w"
proof -
  obtain req where req: "net_rx_request buf = Some req" "wf_ACCNICData req"
    "unat (nic_size req) = length buf" "take (length buf) (nic_buf req) = buf"
    using net_rx_request_fields [OF buf(2)] by blast
  let ?F = "encode_ACCNICData (replicate 3 0) req" and ?w1 = "enq (link a) (encode_ACCNICData (replicate 3 0) req) w"
  obtain g' where rx: "net_rx_packet L s buf (g, w) = (Done (length buf), (g', ?w1))"
    using nic_host.net_rx_sends [OF host g a req(1)] by blast
  have q1: "q ?w1 (link a) = ?F # []" using zmq_fifo.q_enq [OF M] e by simp
  have sz: "0 < unat (nic_size req)" "unat (nic_size req) \<le> BUFF_SIZE" using req(3) buf by simp_all
  obtain args' where "C_nic_poll M args (d, ?w1) = (Done args', (d, deq (link a) ?w1))" "n_req args' = 1"
    "unat (n_len args') = (length buf - 1) div nat (dn_BUSW d)" "n_data args' = nic_buf req"
    "\<forall>lane < nat (dn_BUSW d). bit (n_keep args') lane \<longleftrightarrow>
          unat (n_len args') * nat (dn_BUSW d) + lane < length buf"
    using zmq_fifo.nic_poll_packet [OF M d(2,1,3,4) q1 req(2) _ sz args] req(3) by auto
  moreover have "q (deq (link a) ?w1) = q w" by (rule zmq_fifo.q_enq_deq [OF M e])
  ultimately show ?thesis using rx req(4) by (metis (lifting))
qed

theorem guest_packet_reaches_hardware_witness:
  "\<exists>g' w1 args' w2. net_rx_packet (net_ext peer0) device0 (replicate 70 0xAB) (qemu0, world0) = (Done 70, (g', w1))
    \<and> C_nic_poll (net_ext (\<lambda>w. w)) nargs0 (nic0, w1) = (Done args', (nic0, w2)) \<and> n_req args' = 1
    \<and> take 70 (n_data args') = replicate 70 0xAB \<and> unat (n_len args') = 1 \<and> cw_q w2 = (\<lambda>_. [])"
  using guest_packet_reaches_hardware [OF net.nic_host_axioms [of peer0] net.zmq_fifo_axioms [of "\<lambda>w. w"],
      of qemu0 device0 5004 nic0 world0 "replicate 70 0xAB" nargs0]
  by (auto simp: device0_def nic0_def nargs0_def)

text \<open>
  C13: a packet the simulated card sends is given to the guest's network layer: exactly the first
  \<open>size\<close> bytes, once, after which its socket is empty.
\<close>

theorem hardware_packet_reaches_guest:
  assumes host: "nic_host L q enq deq link peer pkts" and M: "zmq_fifo M q enq deq link peer'"
    and frame: "\<And>n f v. pkts (enq n f v) = pkts v"
    and g: "log_ok g" and b: "dn_nic_resp d = Some b" "nic_resp s = Some (link b)" and e: "q w (link b) = []"
    and data: "length data = BUFF_SIZE" and sz: "0 \<le> sz" "sz \<le> int BUFF_SIZE" and stk: "length stk = sizeof_ACCNICData"
  shows "\<exists>w1 g' w2. C_send_packet M stk i sz data (d, w) = (Done (), (d, w1))
    \<and> net_tx_packet L s (g, w1) = (Done (), (g', w2))
    \<and> pkts w2 = pkts w @ [take (nat sz) data] \<and> q w2 = q w"
proof -
  let ?acc = "(decode_ACCNICData stk)\<lparr>nic_id := of_int i, nic_size := of_int sz, nic_buf := data\<rparr>"
  let ?F = "encode_ACCNICData (padding_ACCNICData stk) ?acc"
  let ?w1 = "enq (link b) ?F w"
  have tx: "C_send_packet M stk i sz data (d, w) = (Done (), (d, ?w1))"
    using zmq_fifo.send_packet_frame [OF M b(1) data sz(2) stk] .
  have wf: "wf_ACCNICData ?acc" using data by (simp add: wf_ACCNICData_def)
  have pad: "length (padding_ACCNICData stk) = 3" using stk by simp
  have un: "unat (of_int sz :: u32) = nat sz" using sz
    by (simp add: unat_eq_nat_uint uint_word_of_int_eq take_bit_int_eq_self)
  note dec = nic.dec_enc [OF wf pad]
  have q1: "q ?w1 (link b) = [?F]" using zmq_fifo.q_enq [OF M] e by simp
  have "list_all (\<lambda>bs. sizeof_ACCNICData \<le> length bs
      \<and> unat (nic_size (decode_ACCNICData bs)) \<le> BUFF_SIZE) (q ?w1 (link b))"
    using q1 dec un sz wf pad by simp
  from nic_host.net_tx_delivers [OF host g b(2) this] obtain g' w2 where
    r: "net_tx_packet L s (g, ?w1) = (Done (), (g', w2))" "q w2 = (q ?w1)(link b := [])"
      "pkts w2 = pkts ?w1 @ map (\<lambda>bs. the (nic_payload (decode_ACCNICData bs))) [?F]"
    using q1 by auto
  have "q w2 = q w" using r(2) zmq_fifo.q_enq_clear [OF M e] by simp
  moreover have "pkts w2 = pkts w @ [take (nat sz) data]"
    using r(3) dec un sz frame by (simp add: nic_payload_def nat_le_iff)
  ultimately show ?thesis using tx r(1) by blast
qed

theorem hardware_packet_reaches_guest_witness:
  "\<exists>w1 g' w2. C_send_packet (net_ext (\<lambda>w. w)) (replicate 4108 0) 1 60 (replicate 4096 7) (nic0, world0) = (Done (), (nic0, w1))
    \<and> net_tx_packet (net_ext peer0) device0 (qemu0, w1) = (Done (), (g', w2))
    \<and> cw_pkts w2 = [replicate 60 7] \<and> cw_q w2 = (\<lambda>_. [])"
  using hardware_packet_reaches_guest [OF net.nic_host_axioms [of peer0] net.zmq_fifo_axioms [of "\<lambda>w. w"],
      of qemu0 nic0 5005 device0 world0 "replicate 4096 7" 60 "replicate 4108 0" 1]
  by (simp add: net_enq_def nic0_def device0_def)

text \<open>
  C14: a character the simulated UART sends is written to the guest's character backend: the low byte
  of the register, once.
\<close>

theorem uart_character_reaches_guest:
  assumes host: "serial_host L q enq deq link peer chars" and M: "zmq_fifo M q enq deq link peer'"
    and frame: "\<And>n f v. chars (enq n f v) = chars v"
    and g: "log_ok g" and b: "du_uart_tx d = Some b" "serial_tx_sock s = Some (link b)" and e: "q w (link b) = []"
  shows "\<exists>w1 g' w2. C_uart_tx M c (d, w) = (Done (), (d, w1))
    \<and> serial_tx L s (g, w1) = (Done (), (g', w2))
    \<and> chars w2 = chars w @ [ucast c] \<and> q w2 = q w"
proof -
  let ?w1 = "enq (link b) [ucast c] w"
  have q1: "q ?w1 (link b) = [[ucast c]]" using zmq_fifo.q_enq [OF M] e by simp
  then have "list_all (\<lambda>bs. bs \<noteq> []) (q ?w1 (link b))" by simp
  from serial_host.serial_tx_writes [OF host g b(2) this] obtain g' w2 where
    r: "serial_tx L s (g, ?w1) = (Done (), (g', w2))" "q w2 = (q ?w1)(link b := [])"
      "chars w2 = chars ?w1 @ [ucast c]" using q1 by auto
  have "q w2 = q w" using r(2) zmq_fifo.q_enq_clear [OF M e] by simp
  with r frame zmq_fifo.uart_tx_frame [OF M b(1)] show ?thesis by auto
qed

theorem uart_character_reaches_guest_witness:
  "\<exists>w1 g' w2. C_uart_tx (net_ext (\<lambda>w. w)) 0x41 (uart0, world0) = (Done (), (uart0, w1))
    \<and> serial_tx (net_ext peer0) device0 (qemu0, w1) = (Done (), (g', w2))
    \<and> cw_chars w2 = [0x41] \<and> cw_q w2 = (\<lambda>_. [])"
  using uart_character_reaches_guest [OF net.serial_host_axioms [of peer0] net.zmq_fifo_axioms [of "\<lambda>w. w"],
      of qemu0 uart0 5009 device0 world0 "0x41"]
  by (simp add: net_enq_def uart0_def device0_def)

section \<open>Deviations\<close>

text \<open>
  C33: with strobes that leave lanes out, the message of \<open>C_req_write\<close> still names the full size of
  the burst: the strobed bytes are packed to the front, so they land at other addresses than their
  lanes, and the guest's memory behind them receives what the bridge's stack happened to hold.
\<close>

theorem partial_strobes_write_stack_bytes:
  assumes "dma_world L M q enq deq link peer peer' ram irqs s d"
    and "log_ok g" and "dp_hdl_req d = Some h" and "q w (link h) = []"
    and "0 \<le> width" "width < 31" and "dp_BUSW d < 2 ^ 31" and "0 \<le> len"
    and "n = (nat len + 1) * 2 ^ nat width" "n \<le> BUFF_SIZE"
    and "(nat len + 1) * unat (dp_BUSW d) \<le> length data" and "nat len + 1 \<le> length strb"
    and "B = burst_lanes (nat len + 1) 0 (unat (dp_BUSW d)) data strb" "length B \<le> BUFF_SIZE"
    and "length stk = sizeof_ACCData"
  shows "\<exists>strb' w1 g' w2. C_req_write M stk addr width len data strb (d, w) = (Done strb', (d, w1))
    \<and> handle_hdl_request L s (g, w1) = (Done (), (g', w2))
    \<and> ram w2 = mem_store (ram w) addr (take n (B @ drop (length B) (acc_buf (decode_ACCData stk))))
    \<and> irqs w2 = irqs w \<and> q w2 = q w"
  using dma_world.dma_write_any [OF assms] .

text \<open>One beat of 64 lanes of which only lane 4 is strobed, on a stack filled with \<open>0xEE\<close>.\<close>

lemma lanes0: "burst_lanes (nat 0 + 1) 0 (unat (64 :: u64)) (replicate 64 7) [16] = [7]"
proof -
  have "bit (2 ^ 4 :: u64) j \<longleftrightarrow> j = 4" for j by (auto simp only: bit_exp_iff) simp
  then have "bit (16 :: u64) j \<longleftrightarrow> j = 4" for j by simp
  then have "bit (16 :: u64) = (\<lambda>j. j = 4)" by blast
  moreover have "filter (\<lambda>j. j = 4) [0..<64] = [4::nat]" by code_simp
  ultimately show ?thesis by (simp add: burst_lanes_def beat_lanes_def)
qed

lemma lanes0_bridge: "[7] = burst_lanes (nat 0 + 1) 0 (unat (dp_BUSW bridge0)) (replicate 64 7) [16]"
  by (simp only: values0 lanes0)

theorem partial_strobes_write_stack_bytes_witness:
  "\<exists>strb' w1 g' w2. C_req_write (net_ext (\<lambda>w. w)) (replicate 4128 0xEE) 0x2000 6 0 (replicate 64 7) [16]
      (bridge0, world0) = (Done strb', (bridge0, w1))
    \<and> handle_hdl_request (net_ext peer0) device0 (qemu0, w1) = (Done (), (g', w2))
    \<and> cw_ram w2 = mem_store (cw_ram world0) 0x2000
        (take 64 ([7] @ drop (length [7 :: byte]) (acc_buf (decode_ACCData (replicate 4128 0xEE)))))
    \<and> cw_irqs w2 = cw_irqs world0 \<and> cw_q w2 = cw_q world0"
  by (rule partial_strobes_write_stack_bytes
        [OF sim.dma_world_axioms _ _ _ _ _ _ _ _ _ _ _ lanes0_bridge, where h = 5002]) simp_all

text \<open>
  C38: a request whose BAR number is 6 or more makes \<open>C_poll\<close> read outside the six BARs of the
  configuration: the number is not checked.  The request has been taken off its queue by then.
\<close>

theorem bad_bar_number_undefined:
  assumes "zmq_fifo M q enq deq link peer" and "bridge_up d" and "dp_initsock d = Some i" and "q w i = []"
    and "dp_qemu_req d = Some a" and "q w a = f # rest"
    and "sizeof_ACCData \<le> length f" and "6 \<le> unat (bar_num (decode_ACCData f))"
  shows "C_poll M p (d, w) = (Undefined, (d, deq a w)) \<and> q (deq a w) = (q w)(a := rest)"
  using zmq_fifo.C_poll_bad_bar [OF assms] zmq_fifo.q_deq [OF assms(1,6)] by blast

theorem bad_bar_number_undefined_witness:
  "\<exists>w'. C_poll (net_ext (\<lambda>w. w)) args0 (bridge0, world0\<lparr>cw_q := (\<lambda>_. [])(5000 :=
      [encode_ACCData (replicate 7 0) (zero_ACCData\<lparr>bar_num := 6\<rparr>)])\<rparr>) = (Undefined, (bridge0, w'))
    \<and> cw_q w' = (\<lambda>_. [])"
proof -
  let ?f = "encode_ACCData (replicate 7 0) (zero_ACCData\<lparr>bar_num := 6\<rparr>)"
  have "sizeof_ACCData \<le> length ?f" "bar_num (decode_ACCData ?f) = 6" by (simp_all add: acc.dec_enc)
  with bad_bar_number_undefined [OF net.zmq_fifo_axioms [of "\<lambda>w. w"], of bridge0 4999
      "world0\<lparr>cw_q := (\<lambda>_. [])(5000 := [?f])\<rparr>" 5000 ?f "[]" args0]
  show ?thesis by auto
qed

text \<open>
  C39: a packet without bytes, which \<open>net_rx_packet\<close> passes on, is announced to the simulated card as
  \<open>2 ^ 32\<close> beats (the length minus one wraps around) with every byte of the last beat enabled.
\<close>

theorem empty_packet_wraps:
  assumes host: "nic_host L q enq deq link peer pkts" and M: "zmq_fifo M q enq deq link peer'"
    and g: "log_ok g" and a: "nic_req s = Some a" and d: "dn_nic_req d = Some (link a)"
      "dn_poller d = Some [Some (link a)]" "0 < dn_BUSW d" "dn_BUSW d \<le> 64"
    and e: "q w (link a) = []" and args: "length (n_data args) = BUFF_SIZE"
  shows "\<exists>g' w1 args' w2. net_rx_packet L s [] (g, w) = (Done 0, (g', w1))
    \<and> C_nic_poll M args (d, w1) = (Done args', (d, w2)) \<and> n_req args' = 1
    \<and> unat (n_len args') = 2 ^ 32 - 1 \<and> (\<forall>lane < 64. bit (n_keep args') lane) \<and> q w2 = q w"
proof -
  obtain req where req: "net_rx_request [] = Some req" "wf_ACCNICData req" "unat (nic_size req) = 0"
    using net_rx_request_fields [of "[]"] by auto
  let ?w1 = "enq (link a) (encode_ACCNICData (replicate 3 0) req) w"
  obtain g' where rx: "net_rx_packet L s [] (g, w) = (Done 0, (g', ?w1))"
    using nic_host.net_rx_sends [OF host g a req(1)] by auto
  have q1: "q ?w1 (link a) = encode_ACCNICData (replicate 3 0) req # []"
    using zmq_fifo.q_enq [OF M] e by simp
  have "nic_size req = 0" using req(3) by (simp add: unat_eq_zero)
  from zmq_fifo.nic_poll_empty [OF M d(2,1,3,4) q1 req(2) _ this args]
  have "C_nic_poll M args (d, ?w1) = (Done (args\<lparr>n_req := 1, n_len := - 1, n_keep := - 1,
      n_data := nic_buf req\<rparr>), (d, deq (link a) ?w1))" by simp
  moreover have "unat (- 1 :: u32) = 2 ^ 32 - 1"
    by (simp add: unsigned_minus_1_eq_mask mask_eq_exp_minus_1)
  ultimately show ?thesis using rx zmq_fifo.q_enq_deq [OF M e]
    by (intro exI conjI) (assumption | simp)+
qed

theorem empty_packet_wraps_witness:
  "\<exists>g' w1 args' w2. net_rx_packet (net_ext peer0) device0 [] (qemu0, world0) = (Done 0, (g', w1))
    \<and> C_nic_poll (net_ext (\<lambda>w. w)) nargs0 (nic0, w1) = (Done args', (nic0, w2))
    \<and> unat (n_len args') = 4294967295 \<and> cw_q w2 = (\<lambda>_. [])"
  using empty_packet_wraps [OF net.nic_host_axioms [of peer0] net.zmq_fifo_axioms [of "\<lambda>w. w"],
      of qemu0 device0 5004 nic0 world0 nargs0]
  by (auto simp: device0_def nic0_def nargs0_def)

text \<open>
  C35: \<open>C_uart_poll\<close> reports data exactly when there is none: with a frame waiting it answers 0, with
  none it answers 1.
\<close>

theorem uart_poll_inverted:
  assumes "zmq_fifo M q enq deq link peer" and "du_poller d = Some [Some n]"
  shows "C_uart_poll M (d, w) = (Done (if q w n = [] then 1 else 0), (d, w))"
  using zmq_fifo.uart_poll_value [OF assms] .

theorem uart_poll_inverted_witness:
  "C_uart_poll (net_ext (\<lambda>w. w)) (uart0, world0\<lparr>cw_q := (\<lambda>_. [])(5008 := [[0x41]])\<rparr>)
     = (Done 0, (uart0, world0\<lparr>cw_q := (\<lambda>_. [])(5008 := [[0x41]])\<rparr>))
   \<and> C_uart_poll (net_ext (\<lambda>w. w)) (uart0, world0) = (Done 1, (uart0, world0))"
  using uart_poll_inverted [OF net.zmq_fifo_axioms [of "\<lambda>w. w"], of uart0 5008]
  by (simp add: uart0_def)

text \<open>
  C36: what the guest types arrives as one frame per call of \<open>serial_rx\<close>, and \<open>C_uart_rx\<close> reads four
  bytes from it: for fewer it reads past the frame, which is undefined, for more it drops the rest.
\<close>

theorem uart_input_needs_four_bytes:
  assumes host: "serial_host L q enq deq link peer chars" and M: "zmq_fifo M q enq deq link peer'"
    and g: "log_ok g" and b: "serial_rx_sock s = Some b" and d: "du_uart_rx d = Some (link b)"
      "du_poller d = Some [Some (link b)]" and e: "q w (link b) = []"
  shows "\<exists>g' w1 w2. serial_rx L s buf (g, w) = (Done (), (g', w1))
    \<and> C_uart_rx M c (d, w1) = (if length buf < 4 then Undefined else Done (of_le (take 4 buf)), (d, w2))
    \<and> q w2 = q w"
proof -
  let ?w1 = "enq (link b) buf w"
  have q1: "q ?w1 (link b) = buf # []" using zmq_fifo.q_enq [OF M] e by simp
  have "C_uart_rx M c (d, ?w1) = (if length buf < 4 then Undefined else Done (of_le (take 4 buf)), (d, deq (link b) ?w1))"
    using zmq_fifo.uart_rx_frame [OF M d(2,1) q1] by simp
  with serial_host.serial_rx_sends [OF host g b] zmq_fifo.q_enq_deq [OF M e] show ?thesis by blast
qed

theorem uart_input_needs_four_bytes_witness:
  "\<exists>g' w1 w2. serial_rx (net_ext peer0) device0 [0x41] (qemu0, world0) = (Done (), (g', w1))
    \<and> C_uart_rx (net_ext (\<lambda>w. w)) 0 (uart0, w1) = (Undefined, (uart0, w2)) \<and> cw_q w2 = (\<lambda>_. [])"
  using uart_input_needs_four_bytes [OF net.serial_host_axioms [of peer0] net.zmq_fifo_axioms [of "\<lambda>w. w"],
      of qemu0 device0 5008 uart0 world0 "[0x41]" 0]
  by (simp add: device0_def uart0_def)

end
